(* ===== verification/Click_Prelude.thy ===== *)
theory Click_Prelude
  imports Main "HOL-Library.Word" "HOL-Library.Sublist"
begin

text \<open>
  Shared vocabulary of the development: the machine integer types of the C++
  source, the collections of facts the component theories unfold together, and
  the generic lemmas on words and lists that the component proofs rest on.

  \<^item> \<open>qint64\<close> is Qt's 64-bit signed integer, the type of a millisecond
    timestamp; it is a \<open>64 word\<close>, read as two's complement by \<open>sint\<close> and
    compared by the signed order \<open><s\<close>, \<open>\<le>s\<close>. Subtraction wraps around; the
    hypothesis under which it agrees with subtraction on \<open>int\<close> is \<open>sub_in_range\<close>.
  \<^item> \<open>cint\<close> is the C++ \<open>int\<close> of the source's literals (radius, interval,
    window size, colour channels), a \<open>32 word\<close>.
  \<^item> \<open>size_t\<close> is the unsigned 64-bit type of a vector's size and of the loop
    index of the paint handler. The handlers are modelled with indices in
    \<open>nat\<close>; the checked model of \<open>Memory_Safety\<close> keeps the index a word and
    shows that the two agree for every vector of fewer than \<open>2 ^ 64\<close>
    elements, where the expression \<open>i + 1\<close> of the source does not wrap.
\<close>

section \<open>Fact collections\<close>

named_theorems qt_defs \<open>definitions of the Qt operations the widget calls\<close>
named_theorems spec_defs \<open>definitions of the predicates the properties are stated with\<close>

section \<open>Machine integers\<close>

type_synonym qint64 = "64 word"
type_synonym cint = "32 word"
type_synonym size_t = "64 word"

definition sub_in_range :: "qint64 \<Rightarrow> qint64 \<Rightarrow> bool" where
  [spec_defs]: "sub_in_range a b \<longleftrightarrow> - (2 ^ 63) \<le> sint a - sint b \<and> sint a - sint b < 2 ^ 63"

lemma sint_qint64_bounds: "- (2 ^ 63) \<le> sint (t :: qint64) \<and> sint t < 2 ^ 63"
  using sint_ge [of t] sint_lt [of t] by simp

lemma sint_sub_in_range:
  "sub_in_range a b \<Longrightarrow> sint (a - b) = sint a - sint b"
  by (simp add: sub_in_range_def sint_word_ariths signed_take_bit_int_eq_self)

lemma sless_sub_iff:
  "sub_in_range a b \<Longrightarrow> t <s a - b \<longleftrightarrow> sint t < sint a - sint b"
  by (simp add: word_sless_alt sint_sub_in_range)

lemma sub_in_range_numeral:
  "- (2 ^ 63) + 3000 \<le> sint now \<Longrightarrow> sub_in_range now 3000"
  using sint_qint64_bounds [of now] by (simp add: sub_in_range_def)

lemma sub_in_range_mono:
  "sub_in_range a c \<Longrightarrow> a \<le>s b \<Longrightarrow> 0 \<le>s c \<Longrightarrow> sub_in_range b c"
  using sint_qint64_bounds [of b] sint_qint64_bounds [of c]
  by (simp add: sub_in_range_def word_sle_eq)

lemma sint_add_int:
  fixes t :: qint64
  assumes "- (2 ^ 63) \<le> sint t + z" and "sint t + z < 2 ^ 63"
  shows "sint (t + word_of_int z) = sint t + z"
proof -
  have "t + word_of_int z = word_of_int (sint t + z)" by simp
  then have "sint (t + word_of_int z) = signed_take_bit 63 (sint t + z)"
    by (simp only: sint_sbintrunc') simp
  with assms show ?thesis by (simp add: signed_take_bit_int_eq_self)
qed

lemma sint_qint64_inject: "sint a = sint b \<longleftrightarrow> a = b" for a b :: qint64
  by (simp add: word_eq_iff_signed [where ?'a = int])

lemma unat_of_nat_size_t: "n < 2 ^ 64 \<Longrightarrow> unat (of_nat n :: size_t) = n"
  by (simp add: unat_of_nat)

lemma word_countdown:
  fixes i n :: "'a::len word"
  assumes "i + 1 < n"
  shows "unat (n - 1 - (i + 1)) < unat (n - 1 - i)"
proof -
  define a where "a = n - 1 - i"
  from assms have "a \<noteq> 0" by (auto simp: a_def)
  then have "unat (a - 1) < unat a"
    by (simp add: unat_minus_one unat_gt_0)
  moreover have "n - 1 - (i + 1) = a - 1" by (simp add: a_def)
  ultimately show ?thesis by (simp only: a_def)
qed

section \<open>Lists as arrays\<close>

lemma take_Suc_update:
  "n < length xs \<Longrightarrow> take (Suc n) (xs[n := x]) = take n xs @ [x]"
  by (simp add: take_Suc_conv_app_nth)

lemma filter_prefix_unchanged:
  assumes "\<And>j. j < n \<Longrightarrow> P (xs ! j)"
  shows "filter P (take n xs) = take n xs"
proof -
  have "\<forall>x \<in> set (take n xs). P x"
    using assms by (auto simp: in_set_conv_nth)
  then show ?thesis by simp
qed

lemma filter_split_at:
  "n < length xs \<Longrightarrow>
   filter P xs = filter P (take n xs) @ (if P (xs ! n) then [xs ! n] else []) @ filter P (drop (Suc n) xs)"
proof -
  assume "n < length xs"
  then have "xs = take n xs @ xs ! n # drop (Suc n) xs"
    by (simp add: id_take_nth_drop)
  then have "filter P xs = filter P (take n xs @ xs ! n # drop (Suc n) xs)"
    by simp
  then show ?thesis by simp
qed

lemma map_butlast_conv_nth:
  "map f (butlast xs) = map (\<lambda>i. f (xs ! i)) [0 ..< length xs - 1]"
  by (rule nth_equalityI) (simp_all add: nth_butlast)

lemma map_drop_butlast_conv_nth:
  "map f (drop i (butlast xs)) = map (\<lambda>j. f (xs ! j)) [i ..< length xs - 1]"
  by (rule nth_equalityI) (simp_all add: nth_butlast)

lemma filter_filter_absorb:
  assumes "\<And>x. Q x \<Longrightarrow> P x"
  shows "filter Q (filter P xs) = filter Q xs"
  using assms by (induction xs) auto

lemma sorted_wrt_snoc:
  "sorted_wrt R (xs @ [x]) \<longleftrightarrow> sorted_wrt R xs \<and> (\<forall>y \<in> set xs. R y x)"
  by (simp add: sorted_wrt_append)

lemma sorted_wrt_last_bound:
  assumes "sorted_wrt R xs" and "xs \<noteq> []" and "\<And>x. R x x"
  shows "\<forall>y \<in> set xs. R y (last xs)"
proof -
  from assms(2) obtain ys z where xs: "xs = ys @ [z]"
    by (metis append_butlast_last_id)
  with assms(1) have "\<forall>y \<in> set ys. R y z"
    by (simp add: sorted_wrt_snoc)
  with xs assms(3) show ?thesis by auto
qed

lemma successively_always: "(\<And>x y. R x y) \<Longrightarrow> successively R xs"
  by (induction xs rule: induct_list012) simp_all

lemma sorted_wrt_successively: "sorted_wrt R xs \<Longrightarrow> successively R xs"
  by (induction xs rule: induct_list012) simp_all

lemma sorted_le_last: "sorted xs \<Longrightarrow> x \<in> set xs \<Longrightarrow> x \<le> last xs"
  by (induction xs) auto

lemma filter_eq_dropWhile:
  "sorted_wrt (\<lambda>a b. P a \<longrightarrow> P b) xs \<Longrightarrow> filter P xs = dropWhile (\<lambda>x. \<not> P x) xs"
  by (induction xs) (auto simp: filter_id_conv)

end
