(* ===== verification/Std_Vector.thy ===== *)
theory Std_Vector
  imports Click_Prelude
begin

text \<open>
  The operations of \<open>std::vector\<close> and \<open><algorithm>\<close> that \<open>src/main.cpp\<close>
  calls on \<open>m_clicks\<close>: \<open>push_back\<close>, \<open>empty\<close>, \<open>size\<close>, \<open>back\<close>, \<open>operator[]\<close>,
  \<open>std::remove_if\<close> and the range form of \<open>erase\<close>. A vector is the list of
  its elements, an iterator is the index it points at (\<open>begin()\<close> is 0,
  \<open>end()\<close> is the length). The element operations are abbreviations of the
  list operations they are: \<open>push_back\<close> appends, \<open>back\<close> is \<open>last\<close> (the
  source calls it on a vector it has tested to be non-empty), erasing a range
  keeps what lies before and behind it.

  \<open>std::remove_if\<close> is modelled as the in-place compaction the standard
  library performs (\<open>std_find_if\<close> to the first element to remove, then
  \<open>remove_if_loop\<close> moving every later element to keep down to the write
  position), not as a filter: it returns the array, whose tail past the
  returned iterator still holds stale elements, and that iterator. The lemmas
  show that the prefix up to the returned iterator is the stable filter of the
  input, so that the erase-remove idiom is \<open>filter\<close> (\<open>erase_remove_if\<close>).
  Both loops are total: they are defined by \<open>function\<close> with the distance
  to the end of the array as the measure.
\<close>

section \<open>Element access and growth\<close>

abbreviation (input) push_back :: "'a list \<Rightarrow> 'a \<Rightarrow> 'a list" where
  "push_back v x \<equiv> v @ [x]"

abbreviation (input) vector_empty :: "'a list \<Rightarrow> bool" where
  "vector_empty v \<equiv> v = []"

abbreviation (input) vector_back :: "'a list \<Rightarrow> 'a" where
  "vector_back v \<equiv> last v"

abbreviation (input) vector_erase :: "'a list \<Rightarrow> nat \<Rightarrow> nat \<Rightarrow> 'a list" where
  "vector_erase v b e \<equiv> take b v @ drop e v"

section \<open>The remove-if algorithm\<close>

function std_find_if :: "('a \<Rightarrow> bool) \<Rightarrow> 'a list \<Rightarrow> nat \<Rightarrow> nat" where
  "std_find_if p v first =
     (if first < length v \<and> \<not> p (v ! first) then std_find_if p v (Suc first) else first)"
  by pat_completeness auto
termination
  by (relation "measure (\<lambda>(p, v, first). length v - first)") auto

function remove_if_loop :: "('a \<Rightarrow> bool) \<Rightarrow> 'a list \<Rightarrow> nat \<Rightarrow> nat \<Rightarrow> 'a list \<times> nat" where
  "remove_if_loop p v result first =
     (if first < length v
      then (if \<not> p (v ! first)
            then remove_if_loop p (v[result := v ! first]) (Suc result) (Suc first)
            else remove_if_loop p v result (Suc first))
      else (v, result))"
  by pat_completeness auto
termination
  by (relation "measure (\<lambda>(p, v, result, first). length v - first)") auto

definition std_remove_if :: "('a \<Rightarrow> bool) \<Rightarrow> 'a list \<Rightarrow> 'a list \<times> nat" where
  "std_remove_if p v =
     (let first = std_find_if p v 0
      in if first = length v then (v, first) else remove_if_loop p v first (Suc first))"

declare std_find_if.simps [simp del] remove_if_loop.simps [simp del]

section \<open>The search for the first element to remove\<close>

lemma std_find_if_le: "first \<le> length v \<Longrightarrow> std_find_if p v first \<le> length v"
  by (induction p v first rule: std_find_if.induct) (subst std_find_if.simps, auto)

lemma std_find_if_ge: "first \<le> std_find_if p v first"
  by (induction p v first rule: std_find_if.induct) (subst std_find_if.simps, auto)

lemma std_find_if_keeps:
  "first \<le> j \<Longrightarrow> j < std_find_if p v first \<Longrightarrow> \<not> p (v ! j)"
proof (induction p v first rule: std_find_if.induct)
  case (1 p v first)
  show ?case
  proof (cases "first < length v \<and> \<not> p (v ! first)")
    case True
    with 1 show ?thesis
      by (cases "j = first") (simp_all add: std_find_if.simps [of p v first])
  next
    case False
    with "1.prems" show ?thesis by (simp add: std_find_if.simps [of p v first])
  qed
qed

lemma std_find_if_stops:
  "std_find_if p v first < length v \<Longrightarrow> p (v ! std_find_if p v first)"
proof (induction p v first rule: std_find_if.induct)
  case (1 p v first)
  then show ?case
    by (cases "first < length v \<and> \<not> p (v ! first)")
       (simp_all add: std_find_if.simps [of p v first])
qed

lemma filter_take_find_if:
  "filter (\<lambda>x. \<not> p x) (take (std_find_if p v 0) v) = take (std_find_if p v 0) v"
  by (rule filter_prefix_unchanged) (rule std_find_if_keeps [of 0], simp_all)

section \<open>The compaction loop\<close>

lemma remove_if_loop_correct:
  assumes "result < first" and "first \<le> length v"
  shows "case remove_if_loop p v result first of (v', r) \<Rightarrow>
           length v' = length v \<and> r \<le> length v \<and>
           take r v' = take result v @ filter (\<lambda>x. \<not> p x) (drop first v)"
  using assms
proof (induction p v result first rule: remove_if_loop.induct)
  case (1 p v result first)
  show ?case
  proof (cases "first < length v")
    case False
    with "1.prems" show ?thesis by (subst remove_if_loop.simps) simp
  next
    case True
    note lt = this
    then have dr: "drop first v = v ! first # drop (Suc first) v"
      by (simp add: Cons_nth_drop_Suc)
    show ?thesis
    proof (cases "p (v ! first)")
      case True
      with lt "1.IH"(2) "1.prems" show ?thesis
        by (subst remove_if_loop.simps) (simp add: dr)
    next
      case False
      with lt "1.IH"(1) "1.prems" show ?thesis
        by (subst remove_if_loop.simps)
           (simp add: dr take_Suc_update drop_update_cancel split: prod.splits)
    qed
  qed
qed

lemma std_remove_if_correct:
  "case std_remove_if p v of (v', r) \<Rightarrow>
     length v' = length v \<and> r \<le> length v \<and> take r v' = filter (\<lambda>x. \<not> p x) v"
proof (cases "std_find_if p v 0 = length v")
  case True
  then show ?thesis
    using filter_take_find_if [of p v] by (simp add: std_remove_if_def)
next
  case False
  let ?f = "std_find_if p v 0"
  from False have lt: "?f < length v"
    using std_find_if_le [of 0 v p] by simp
  then have hit: "p (v ! ?f)" by (rule std_find_if_stops)
  from lt hit have eq: "filter (\<lambda>x. \<not> p x) v = take ?f v @ filter (\<lambda>x. \<not> p x) (drop (Suc ?f) v)"
    by (simp add: filter_split_at [of ?f v] filter_take_find_if)
  from lt remove_if_loop_correct [where result = ?f and first = "Suc ?f" and v = v and p = p] False
  show ?thesis
    by (simp add: std_remove_if_def eq split: prod.splits)
qed

lemma erase_remove_if:
  "(case std_remove_if p v of (v', it) \<Rightarrow> vector_erase v' it (length v')) = filter (\<lambda>x. \<not> p x) v"
  using std_remove_if_correct [where p = p and v = v] by (simp split: prod.splits)

end
