(* ===== verification/Qt_Model.thy ===== *)
theory Qt_Model
  imports Click_Prelude
begin

text \<open>
  The part of Qt that \<open>src/main.cpp\<close> uses, as far as the widget's behaviour
  depends on it: the value types \<open>QPointF\<close> and \<open>QColor\<close>, the timer and
  the base widget as records of the fields the program sets, the request for a
  repaint (\<open>QWidget::update\<close>), and the painter.

  The coordinate type of \<open>QPointF\<close> is a type variable: the program stores
  and passes positions and never computes with them, so every statement holds
  for any representation of \<open>qreal\<close>.

  The painter is split in two. \<open>paint_call\<close> is the datatype of the calls the
  paint handler makes on its \<open>QPainter\<close>, with the arguments of the source;
  a handler produces the list of its calls in program order. \<open>paint_step\<close>
  and \<open>paint_run\<close> interpret such a list from a freshly begun painter
  (\<open>QPainter_begin\<close>: solid pen, no brush, no render hint, empty frame) into
  the frame: the list of ellipses drawn, oldest first, each with the brush, pen
  and hint that were current when it was drawn. Later entries of the frame are
  painted over earlier ones; \<open>topmost\<close> reads the frame at a place given by a
  hit test.

  \<open>painter_accepts\<close> is the discipline Qt expects of a sequence of calls:
  colours are valid (\<open>QColor_isValid\<close>: every channel in 0 to 255), ellipses
  have positive radii, and nothing is drawn before a brush has been set.
\<close>

section \<open>Value types\<close>

record 'q QPointF =
  xp :: 'q
  yp :: 'q

datatype QColor = QColor (red: cint) (green: cint) (blue: cint)

datatype PenStyle = NoPen | SolidLine

datatype Brush = NoBrush | SolidPattern QColor

datatype RenderHint = Antialiasing

section \<open>Timer and base widget\<close>

record QTimer =
  interval :: cint
  active :: bool

record QWidget =
  windowTitle :: string
  minimumSize :: "cint \<times> cint"
  visible :: bool
  updatePending :: bool

definition QWidget_update :: "'z QWidget_scheme \<Rightarrow> 'z QWidget_scheme" where
  [qt_defs]: "QWidget_update w = (if visible w then w\<lparr>updatePending := True\<rparr> else w)"

definition QWidget_show :: "'z QWidget_scheme \<Rightarrow> 'z QWidget_scheme" where
  [qt_defs]: "QWidget_show w = w\<lparr>visible := True, updatePending := True\<rparr>"

record 'q QMouseEvent =
  position :: "'q QPointF"
  accepted :: bool

definition QWidget_mousePressEvent :: "'q QMouseEvent \<Rightarrow> 'q QMouseEvent" where
  [qt_defs]: "QWidget_mousePressEvent event = event\<lparr>accepted := False\<rparr>"

section \<open>Painter\<close>

datatype 'q paint_call =
    SetRenderHint RenderHint bool
  | SetPen PenStyle
  | SetBrush QColor
  | DrawEllipse "'q QPointF" cint cint

record 'q Ellipse =
  center :: "'q QPointF"
  rx :: cint
  ry :: cint
  fill :: Brush
  outline :: PenStyle
  smooth :: bool

record 'q QPainter =
  antialiasing :: bool
  pen :: PenStyle
  brush :: Brush
  frame :: "'q Ellipse list"

definition QPainter_begin :: "'q QPainter" where
  "QPainter_begin = \<lparr>antialiasing = False, pen = SolidLine, brush = NoBrush, frame = []\<rparr>"

fun paint_step :: "'q QPainter \<Rightarrow> 'q paint_call \<Rightarrow> 'q QPainter" where
  "paint_step g (SetRenderHint Antialiasing on) = g\<lparr>antialiasing := on\<rparr>"
| "paint_step g (SetPen s) = g\<lparr>pen := s\<rparr>"
| "paint_step g (SetBrush c) = g\<lparr>brush := SolidPattern c\<rparr>"
| "paint_step g (DrawEllipse c a b) =
     g\<lparr>frame := frame g @
       [\<lparr>center = c, rx = a, ry = b, fill = brush g, outline = pen g, smooth = antialiasing g\<rparr>]\<rparr>"

definition paint_run :: "'q paint_call list \<Rightarrow> 'q Ellipse list" where
  "paint_run calls = frame (foldl paint_step QPainter_begin calls)"

definition QColor_isValid :: "QColor \<Rightarrow> bool" where
  "QColor_isValid c \<longleftrightarrow>
     0 \<le>s red c \<and> red c \<le>s 255 \<and> 0 \<le>s green c \<and> green c \<le>s 255
     \<and> 0 \<le>s blue c \<and> blue c \<le>s 255"

fun painter_accepts :: "bool \<Rightarrow> 'q paint_call list \<Rightarrow> bool" where
  "painter_accepts filled [] \<longleftrightarrow> True"
| "painter_accepts filled (SetRenderHint h on # calls) \<longleftrightarrow> painter_accepts filled calls"
| "painter_accepts filled (SetPen s # calls) \<longleftrightarrow> painter_accepts filled calls"
| "painter_accepts filled (SetBrush c # calls) \<longleftrightarrow> QColor_isValid c \<and> painter_accepts True calls"
| "painter_accepts filled (DrawEllipse c a b # calls) \<longleftrightarrow>
     filled \<and> 0 <s a \<and> 0 <s b \<and> painter_accepts filled calls"

definition topmost :: "('q Ellipse \<Rightarrow> bool) \<Rightarrow> 'q Ellipse list \<Rightarrow> 'q Ellipse option" where
  "topmost hit fr = (case filter hit (rev fr) of [] \<Rightarrow> None | e # _ \<Rightarrow> Some e)"

section \<open>Running a list of painter calls\<close>

lemma foldl_paint_step_draws:
  "foldl paint_step g (map (\<lambda>c. DrawEllipse (f c) a b) xs) =
     g\<lparr>frame := frame g @
       map (\<lambda>c. \<lparr>center = f c, rx = a, ry = b, fill = brush g, outline = pen g,
                  smooth = antialiasing g\<rparr>) xs\<rparr>"
  by (induction xs arbitrary: g) simp_all

section \<open>Call sequences the painter accepts\<close>

lemma painter_accepts_draws:
  "painter_accepts filled (map (\<lambda>c. DrawEllipse (f c) a b) xs @ calls) \<longleftrightarrow>
     (xs = [] \<or> filled \<and> 0 <s a \<and> 0 <s b) \<and> painter_accepts filled calls"
  by (induction xs) auto

section \<open>Reading the frame\<close>

lemma topmost_snoc_hit [simp]: "hit e \<Longrightarrow> topmost hit (fr @ [e]) = Some e"
  by (simp add: topmost_def)

lemma topmost_snoc_miss [simp]: "\<not> hit e \<Longrightarrow> topmost hit (fr @ [e]) = topmost hit fr"
  by (simp add: topmost_def)

lemma topmost_Some_mem: "topmost hit fr = Some e \<Longrightarrow> e \<in> set fr \<and> hit e"
proof -
  assume "topmost hit fr = Some e"
  then obtain es where "filter hit (rev fr) = e # es"
    by (auto simp: topmost_def split: list.splits)
  then have "e \<in> set (filter hit (rev fr))" by simp
  then show ?thesis by simp
qed

end
