(* ===== verification/Click_Log.thy ===== *)
theory Click_Log
  imports Std_Vector Qt_Model
begin

text \<open>
  The click log of \<open>src/main.cpp\<close>: \<open>struct ClickPoint\<close>, the data members
  of \<open>class ClickWidget\<close> on top of the base widget, and the handler that
  appends to the log, \<open>mousePressEvent\<close>.

  The handler takes the value it reads from
  \<open>QDateTime::currentMSecsSinceEpoch()\<close> as its first argument and returns
  the widget it leaves behind together with the event as the base class
  handler leaves it. The local \<open>ClickPoint point\<close> is default-initialised and
  then assigned in both fields, so the model builds it from the two assigned
  values.

  \<open>stamps\<close> and \<open>log_sorted\<close> state the invariant the specification gives
  for the log (non-decreasing time of recording). The handler keeps it when the
  clock has not stepped back behind the newest entry. \<open>click_at\<close>,
  \<open>press_at\<close> and \<open>widget_with\<close> build the concrete clicks, events and
  widgets at which the theorems of the development are instantiated.
\<close>

section \<open>Data\<close>

record 'q ClickPoint =
  pos :: "'q QPointF"
  timestamp :: qint64

record 'q ClickWidget = QWidget +
  m_clicks :: "'q ClickPoint list"
  m_cleanupTimer :: QTimer

section \<open>Recording a click\<close>

definition mousePressEvent ::
  "qint64 \<Rightarrow> 'q QMouseEvent \<Rightarrow> 'q ClickWidget \<Rightarrow> 'q ClickWidget \<times> 'q QMouseEvent" where
  "mousePressEvent now event w =
     (let point = \<lparr>pos = position event, timestamp = now\<rparr>;
          w = w\<lparr>m_clicks := push_back (m_clicks w) point\<rparr>;
          w = QWidget_update w
      in (w, QWidget_mousePressEvent event))"

section \<open>The log as the specification sees it\<close>

definition stamps :: "'q ClickWidget \<Rightarrow> int list" where
  [spec_defs]: "stamps w = map (\<lambda>c. sint (timestamp c)) (m_clicks w)"

definition log_sorted :: "'q ClickWidget \<Rightarrow> bool" where
  [spec_defs]: "log_sorted w \<longleftrightarrow> sorted (stamps w)"

definition click_at :: "'q \<Rightarrow> 'q \<Rightarrow> qint64 \<Rightarrow> 'q ClickPoint" where
  "click_at a b t = \<lparr>pos = \<lparr>xp = a, yp = b\<rparr>, timestamp = t\<rparr>"

definition widget_with :: "'q ClickPoint list \<Rightarrow> 'q ClickWidget" where
  "widget_with clicks =
     \<lparr>windowTitle = [], minimumSize = (640, 480), visible = True, updatePending = False,
      m_clicks = clicks, m_cleanupTimer = \<lparr>interval = 50, active = True\<rparr>\<rparr>"

definition press_at :: "'q \<Rightarrow> 'q \<Rightarrow> 'q QMouseEvent" where
  "press_at a b = \<lparr>position = \<lparr>xp = a, yp = b\<rparr>, accepted = True\<rparr>"

section \<open>Effect of the handler on each field\<close>

lemma m_clicks_QWidget_update [simp]: "m_clicks (QWidget_update w) = m_clicks w"
  by (simp add: QWidget_update_def)

lemma m_cleanupTimer_QWidget_update [simp]: "m_cleanupTimer (QWidget_update w) = m_cleanupTimer w"
  by (simp add: QWidget_update_def)

lemma QWidget_update_fields [simp]:
  "windowTitle (QWidget_update w) = windowTitle w"
  "minimumSize (QWidget_update w) = minimumSize w"
  "visible (QWidget_update w) = visible w"
  "updatePending (QWidget_update w) \<longleftrightarrow> visible w \<or> updatePending w"
  by (simp_all add: QWidget_update_def)

lemma m_clicks_mousePressEvent [simp]:
  "m_clicks (fst (mousePressEvent now event w)) =
     m_clicks w @ [\<lparr>pos = position event, timestamp = now\<rparr>]"
  by (simp add: mousePressEvent_def)

lemma mousePressEvent_fields [simp]:
  "windowTitle (fst (mousePressEvent now event w)) = windowTitle w"
  "minimumSize (fst (mousePressEvent now event w)) = minimumSize w"
  "visible (fst (mousePressEvent now event w)) = visible w"
  "updatePending (fst (mousePressEvent now event w)) \<longleftrightarrow> visible w \<or> updatePending w"
  "m_cleanupTimer (fst (mousePressEvent now event w)) = m_cleanupTimer w"
  by (simp_all add: mousePressEvent_def)

lemma snd_mousePressEvent [simp]:
  "snd (mousePressEvent now event w) = event\<lparr>accepted := False\<rparr>"
  by (simp add: mousePressEvent_def QWidget_mousePressEvent_def)

lemma stamps_mousePressEvent [simp]:
  "stamps (fst (mousePressEvent now event w)) = stamps w @ [sint now]"
  by (simp add: stamps_def)

lemma stamps_widget_with [simp]: "stamps (widget_with cs) = map (\<lambda>c. sint (timestamp c)) cs"
  by (simp add: stamps_def widget_with_def)

lemma m_clicks_widget_with [simp]: "m_clicks (widget_with cs) = cs"
  by (simp add: widget_with_def)

lemma timestamp_click_at [simp]: "timestamp (click_at a b t) = t"
  by (simp add: click_at_def)

lemma pos_click_at [simp]: "pos (click_at a b t) = \<lparr>xp = a, yp = b\<rparr>"
  by (simp add: click_at_def)

lemma log_sorted_snoc:
  "log_sorted (w\<lparr>m_clicks := m_clicks w @ [c]\<rparr>) \<longleftrightarrow>
     log_sorted w \<and> (\<forall>t \<in> set (stamps w). t \<le> sint (timestamp c))"
  by (simp add: log_sorted_def stamps_def sorted_append)

section \<open>Properties of recording\<close>

text \<open>
  A mouse press appends exactly one entry, holding the position of the
  event and the clock reading, behind all earlier entries, which stay as they
  were; it asks for a repaint when the widget is visible, leaves the timer
  alone, and hands the event on marked as ignored.
\<close>

theorem press_records_click:
  "m_clicks (fst (mousePressEvent now event w)) =
      m_clicks w @ [\<lparr>pos = position event, timestamp = now\<rparr>]
   \<and> (updatePending (fst (mousePressEvent now event w)) \<longleftrightarrow> visible w \<or> updatePending w)
   \<and> m_cleanupTimer (fst (mousePressEvent now event w)) = m_cleanupTimer w
   \<and> accepted (snd (mousePressEvent now event w)) = False
   \<and> position (snd (mousePressEvent now event w)) = position event"
  by simp

text \<open>
  C35: recording keeps the log ordered by time when the clock reading is not
  below any time already in the log.
\<close>

theorem press_keeps_sorted:
  assumes "log_sorted w" and "\<forall>t \<in> set (stamps w). t \<le> sint now"
  shows "log_sorted (fst (mousePressEvent now event w))"
  using assms by (simp add: log_sorted_def sorted_append)

theorem press_keeps_sorted_witness:
  "log_sorted (widget_with [click_at 10 10 0, click_at 20 20 1000 :: int ClickPoint])
   \<and> log_sorted (fst (mousePressEvent 2000 (press_at 30 30)
        (widget_with [click_at 10 10 0, click_at 20 20 1000 :: int ClickPoint])))"
  using press_keeps_sorted [of "widget_with [click_at 10 10 0, click_at 20 20 1000 :: int ClickPoint]"
      2000 "press_at 30 30"]
  by (simp add: log_sorted_def)

end
