(* ===== verification/Expiry_Filter.thy ===== *)
theory Expiry_Filter
  imports Click_Log
begin

text \<open>
  The expiry filter of \<open>src/main.cpp\<close>: \<open>ClickWidget::pruneOldClicks\<close> and
  the predicate it hands to \<open>std::remove_if\<close>.

  \<open>pruneOldClicks\<close> is the erase-remove idiom as written: the threshold is
  computed by 64-bit subtraction, \<open>std_remove_if\<close> compacts the vector in
  place and \<open>vector_erase\<close> cuts the stale tail off. The first lemmas reduce
  it to a stable filter on the machine-level test (\<open>pruneOldClicks_eq\<close>);
  under \<open>sub_in_range now 3000\<close> the test is a bound on the age of a click
  (\<open>age\<close>, \<open>fresh\<close>), which is how the specification states it.
\<close>

section \<open>Pruning\<close>

definition click_is_old :: "qint64 \<Rightarrow> 'q ClickPoint \<Rightarrow> bool" where
  "click_is_old threshold click \<longleftrightarrow> timestamp click <s threshold"

definition pruneOldClicks :: "qint64 \<Rightarrow> 'q ClickWidget \<Rightarrow> 'q ClickWidget" where
  "pruneOldClicks now w =
     (let threshold = now - 3000;
          (v, it) = std_remove_if (click_is_old threshold) (m_clicks w)
      in w\<lparr>m_clicks := vector_erase v it (length v)\<rparr>)"

section \<open>Age of a click\<close>

definition age :: "qint64 \<Rightarrow> 'q ClickPoint \<Rightarrow> int" where
  [spec_defs]: "age now c = sint now - sint (timestamp c)"

definition fresh :: "qint64 \<Rightarrow> 'q ClickPoint \<Rightarrow> bool" where
  [spec_defs]: "fresh now c \<longleftrightarrow> age now c \<le> 3000"

section \<open>Pruning as a filter\<close>

lemma pruneOldClicks_eq:
  "pruneOldClicks now w =
     w\<lparr>m_clicks := filter (\<lambda>c. \<not> click_is_old (now - 3000) c) (m_clicks w)\<rparr>"
  using erase_remove_if [of "click_is_old (now - 3000)" "m_clicks w"]
  by (simp add: pruneOldClicks_def split: prod.splits)

lemma m_clicks_pruneOldClicks:
  "m_clicks (pruneOldClicks now w) = filter (\<lambda>c. \<not> timestamp c <s now - 3000) (m_clicks w)"
  by (simp add: pruneOldClicks_eq click_is_old_def)

lemma pruneOldClicks_fields [simp]:
  "windowTitle (pruneOldClicks now w) = windowTitle w"
  "minimumSize (pruneOldClicks now w) = minimumSize w"
  "visible (pruneOldClicks now w) = visible w"
  "updatePending (pruneOldClicks now w) = updatePending w"
  "m_cleanupTimer (pruneOldClicks now w) = m_cleanupTimer w"
  by (simp_all add: pruneOldClicks_eq)

lemma not_old_iff_fresh:
  "sub_in_range now 3000 \<Longrightarrow> \<not> timestamp c <s now - 3000 \<longleftrightarrow> fresh now c"
  by (auto simp: sless_sub_iff fresh_def age_def)

lemma m_clicks_pruneOldClicks_fresh:
  "sub_in_range now 3000 \<Longrightarrow> m_clicks (pruneOldClicks now w) = filter (fresh now) (m_clicks w)"
  by (simp add: m_clicks_pruneOldClicks not_old_iff_fresh)

lemma fresh_conv: "fresh now = (\<lambda>c. age now c \<le> 3000)"
  by (rule ext) (simp add: fresh_def)

lemma fresh_mono:
  "now1 \<le>s now2 \<Longrightarrow> fresh now2 c \<Longrightarrow> fresh now1 c"
  by (simp add: fresh_def age_def word_sle_eq)

lemma filter_fresh_absorb:
  "now1 \<le>s now2 \<Longrightarrow>
   filter (fresh now2) (filter (fresh now1) cs) = filter (fresh now2) cs"
  by (intro filter_filter_absorb) (rule fresh_mono)

lemma stamps_pruneOldClicks:
  "stamps (pruneOldClicks now w) = filter (\<lambda>t. \<not> t < sint (now - 3000)) (stamps w)"
  by (simp add: stamps_def m_clicks_pruneOldClicks filter_map comp_def word_sless_alt)

lemma sub_in_range_3000_mono:
  "sub_in_range now1 3000 \<Longrightarrow> now1 \<le>s now2 \<Longrightarrow> sub_in_range now2 3000"
  by (rule sub_in_range_mono) (simp_all add: word_sle_eq)

section \<open>Properties of pruning\<close>

text \<open>
  C1: after pruning at clock reading \<open>now\<close> the log holds exactly the
  clicks whose age \<open>now - timestamp\<close> is at most 3000 ms, in their old order,
  provided \<open>now - 3000\<close> does not leave the range of a 64-bit integer.
\<close>

theorem prune_keeps_exactly_fresh:
  assumes "sub_in_range now 3000"
  shows "m_clicks (pruneOldClicks now w) = filter (\<lambda>c. age now c \<le> 3000) (m_clicks w)"
  using assms by (simp add: m_clicks_pruneOldClicks not_old_iff_fresh fresh_def)

theorem prune_keeps_exactly_fresh_witness:
  "sub_in_range 3500 3000
   \<and> m_clicks (pruneOldClicks 3500
        (widget_with [click_at 1 1 0, click_at 2 2 500, click_at 3 3 3400 :: int ClickPoint]))
     = [click_at 2 2 500, click_at 3 3 3400]"
  using prune_keeps_exactly_fresh
    [of 3500 "widget_with [click_at 1 1 0, click_at 2 2 500, click_at 3 3 3400 :: int ClickPoint]"]
  by (simp add: sub_in_range_def age_def)

text \<open>
  C5: the in-place erase-remove idiom of \<open>pruneOldClicks\<close> is a stable
  filter: the widget it leaves is the old one with the log replaced by its
  sublist of entries not below the threshold; no other field changes.
\<close>

theorem prune_is_stable_filter:
  "pruneOldClicks now w =
     w\<lparr>m_clicks := filter (\<lambda>c. \<not> timestamp c <s now - 3000) (m_clicks w)\<rparr>"
  by (simp add: pruneOldClicks_eq click_is_old_def)

text \<open>
  C28: every click that pruning removes was older than 3000 ms at the clock
  reading of the pruning.
\<close>

theorem prune_removes_only_old:
  assumes "sub_in_range now 3000"
    and "c \<in> set (m_clicks w)" and "c \<notin> set (m_clicks (pruneOldClicks now w))"
  shows "3000 < age now c"
  using assms by (simp add: m_clicks_pruneOldClicks_fresh fresh_def)

theorem prune_removes_only_old_witness:
  "sub_in_range 3500 3000
   \<and> click_at 1 1 0 \<in> set (m_clicks (widget_with [click_at 1 1 0, click_at 2 2 500 :: int ClickPoint]))
   \<and> click_at 1 1 0 \<notin> set (m_clicks (pruneOldClicks 3500
        (widget_with [click_at 1 1 0, click_at 2 2 500 :: int ClickPoint])))
   \<and> 3000 < age 3500 (click_at 1 1 0 :: int ClickPoint)"
proof -
  have r: "sub_in_range 3500 3000" by (simp add: sub_in_range_def)
  have i: "click_at 1 1 0 \<in> set (m_clicks (widget_with [click_at 1 1 0, click_at 2 2 500 :: int ClickPoint]))"
    by simp
  have o: "click_at 1 1 0 \<notin> set (m_clicks (pruneOldClicks 3500
        (widget_with [click_at 1 1 0, click_at 2 2 500 :: int ClickPoint])))"
    by (simp add: m_clicks_pruneOldClicks_fresh r fresh_def age_def click_at_def)
  from r i o prune_removes_only_old [OF r i o] show ?thesis by simp
qed

text \<open>
  C29: pruning twice at the same clock reading is pruning once.
\<close>

theorem prune_idempotent:
  "pruneOldClicks now (pruneOldClicks now w) = pruneOldClicks now w"
  by (simp add: pruneOldClicks_eq)

text \<open>
  Pruning never reorders or duplicates: the log after pruning is a
  subsequence of the log before.
\<close>

theorem prune_preserves_order:
  "subseq (m_clicks (pruneOldClicks now w)) (m_clicks w)"
  by (simp add: m_clicks_pruneOldClicks)

text \<open>
  C30 (equivalence). The oldest dots go first. On a log that is ordered by
  timestamp, pruning removes a prefix: the log after it is the log before
  without its leading clicks of age above 3000 ms, so the erase-remove idiom
  does what erasing from the front up to the first fresh click would do.
\<close>

theorem prune_drops_oldest_first:
  assumes "log_sorted w" and "sub_in_range now 3000"
  shows "m_clicks (pruneOldClicks now w) = dropWhile (\<lambda>c. 3000 < age now c) (m_clicks w)
    \<and> suffix (m_clicks (pruneOldClicks now w)) (m_clicks w)"
proof -
  from assms(1) have "sorted_wrt (\<lambda>a b. fresh now a \<longrightarrow> fresh now b) (m_clicks w)"
    by (auto simp: log_sorted_def stamps_def sorted_map fresh_def age_def
        elim: sorted_wrt_mono_rel [rotated])
  from filter_eq_dropWhile [OF this] assms(2) show ?thesis
    by (simp add: m_clicks_pruneOldClicks_fresh fresh_conv not_le suffix_dropWhile)
qed

theorem prune_drops_oldest_first_witness:
  "log_sorted (widget_with [click_at 1 1 0, click_at 2 2 500, click_at 3 3 3400 :: int ClickPoint])
   \<and> sub_in_range 3500 3000
   \<and> m_clicks (pruneOldClicks 3500
        (widget_with [click_at 1 1 0, click_at 2 2 500, click_at 3 3 3400 :: int ClickPoint]))
     = [click_at 2 2 500, click_at 3 3 3400]"
  using prune_drops_oldest_first
    [of "widget_with [click_at 1 1 0, click_at 2 2 500, click_at 3 3 3400 :: int ClickPoint]" 3500]
  by (simp add: log_sorted_def stamps_def widget_with_def click_at_def sub_in_range_def age_def)

text \<open>
  C31: a pruning at a later clock reading absorbs an earlier one: the paint
  handler, which prunes again after the timer did, sees the same log as if the
  timer had not run.
\<close>

theorem prune_absorbs_earlier:
  assumes "sub_in_range now1 3000" and "now1 \<le>s now2"
  shows "pruneOldClicks now2 (pruneOldClicks now1 w) = pruneOldClicks now2 w"
proof -
  from assms have r2: "sub_in_range now2 3000" by (rule sub_in_range_3000_mono)
  with assms(1) filter_fresh_absorb [OF assms(2), of "m_clicks w"] show ?thesis
    by (simp add: pruneOldClicks_eq click_is_old_def not_old_iff_fresh)
qed

theorem prune_absorbs_earlier_witness:
  "sub_in_range 3100 3000 \<and> (3100 :: qint64) \<le>s 3600
   \<and> pruneOldClicks 3600 (pruneOldClicks 3100
        (widget_with [click_at 1 1 0, click_at 2 2 500, click_at 3 3 900 :: int ClickPoint]))
     = pruneOldClicks 3600
        (widget_with [click_at 1 1 0, click_at 2 2 500, click_at 3 3 900 :: int ClickPoint])"
  using prune_absorbs_earlier
    [of 3100 3600 "widget_with [click_at 1 1 0, click_at 2 2 500, click_at 3 3 900 :: int ClickPoint]"]
  by (simp add: sub_in_range_def)

text \<open>
  C36: pruning keeps a log that is ordered by time ordered.
\<close>

theorem prune_keeps_sorted:
  "log_sorted w \<Longrightarrow> log_sorted (pruneOldClicks now w)"
  by (simp add: log_sorted_def stamps_pruneOldClicks sorted_wrt_filter)

theorem prune_keeps_sorted_witness:
  "log_sorted (widget_with [click_at 1 1 0, click_at 2 2 500 :: int ClickPoint])
   \<and> log_sorted (pruneOldClicks 3200 (widget_with [click_at 1 1 0, click_at 2 2 500 :: int ClickPoint]))"
  using prune_keeps_sorted [of "widget_with [click_at 1 1 0, click_at 2 2 500 :: int ClickPoint]" 3200]
  by (simp add: log_sorted_def)


end
