(* ===== verification/Renderer.thy ===== *)
theory Renderer
  imports Expiry_Filter
begin

text \<open>
  The renderer of \<open>src/main.cpp\<close>: \<open>ClickWidget::paintEvent\<close>, with the
  constant \<open>radius\<close> and the \<open>for\<close> loop over all clicks but the last
  (\<open>paint_blue_loop\<close>, the loop variable \<open>i\<close> as its second argument).

  \<open>paintEvent\<close> returns the pruned widget and the calls made on the painter,
  in program order. \<open>render_spec\<close> is what the specification asks the frame
  to be for a given log: a blue dot of radius 8 for every entry but the last,
  in log order, and a crimson dot of radius 10 for the last entry, painted last;
  nothing for an empty log. The lemmas show that interpreting the calls of
  \<open>paintEvent\<close> yields this frame for the pruned log.
\<close>

section \<open>Painting\<close>

definition radius :: cint where
  "radius = 8"

function paint_blue_loop :: "'q ClickPoint list \<Rightarrow> nat \<Rightarrow> 'q paint_call list" where
  "paint_blue_loop clicks i =
     (if i + 1 < length clicks
      then DrawEllipse (pos (clicks ! i)) radius radius # paint_blue_loop clicks (Suc i)
      else [])"
  by pat_completeness auto
termination
  by (relation "measure (\<lambda>(clicks, i). length clicks - i)") auto

definition paintEvent :: "qint64 \<Rightarrow> 'q ClickWidget \<Rightarrow> 'q ClickWidget \<times> 'q paint_call list" where
  "paintEvent now w =
     (let w = pruneOldClicks now w;
          hint = [SetRenderHint Antialiasing True];
          dots =
            (if \<not> vector_empty (m_clicks w)
             then [SetPen NoPen, SetBrush (QColor 30 144 255)]
                  @ paint_blue_loop (m_clicks w) 0
                  @ [SetBrush (QColor 220 20 60),
                     DrawEllipse (pos (vector_back (m_clicks w))) (radius + 2) (radius + 2)]
             else [])
      in (w, hint @ dots))"

declare paint_blue_loop.simps [simp del]

section \<open>The frame the specification asks for\<close>

definition dodger_blue :: QColor where
  "dodger_blue = QColor 30 144 255"

definition crimson :: QColor where
  "crimson = QColor 220 20 60"

definition dot :: "QColor \<Rightarrow> cint \<Rightarrow> 'q ClickPoint \<Rightarrow> 'q Ellipse" where
  "dot colour r c =
     \<lparr>center = pos c, rx = r, ry = r, fill = SolidPattern colour, outline = NoPen, smooth = True\<rparr>"

definition render_spec :: "'q ClickPoint list \<Rightarrow> 'q Ellipse list" where
  "render_spec live =
     (if live = [] then [] else map (dot dodger_blue 8) (butlast live) @ [dot crimson 10 (last live)])"

definition shown :: "qint64 \<Rightarrow> 'q ClickWidget \<Rightarrow> 'q Ellipse list" where
  "shown now w = paint_run (snd (paintEvent now w))"

section \<open>The loop over the older clicks\<close>

lemma paint_blue_loop_from:
  "paint_blue_loop clicks i =
     map (\<lambda>j. DrawEllipse (pos (clicks ! j)) radius radius) [i ..< length clicks - 1]"
proof (induction clicks i rule: paint_blue_loop.induct)
  case (1 clicks i)
  show ?case
  proof (cases "i + 1 < length clicks")
    case True
    then have "[i ..< length clicks - 1] = i # [Suc i ..< length clicks - 1]"
      by (simp add: upt_conv_Cons)
    with True "1.IH" show ?thesis
      by (simp add: paint_blue_loop.simps [of clicks i])
  next
    case False
    then show ?thesis by (simp add: paint_blue_loop.simps [of clicks i])
  qed
qed

lemma paint_blue_loop_butlast:
  "paint_blue_loop clicks 0 = map (\<lambda>c. DrawEllipse (pos c) radius radius) (butlast clicks)"
  by (simp add: paint_blue_loop_from map_butlast_conv_nth [of "\<lambda>c. DrawEllipse (pos c) radius radius"])

section \<open>The calls and the frame\<close>

lemma fst_paintEvent [simp]: "fst (paintEvent now w) = pruneOldClicks now w"
  by (simp add: paintEvent_def Let_def)

lemma snd_paintEvent:
  "snd (paintEvent now w) =
     SetRenderHint Antialiasing True #
     (let live = m_clicks (pruneOldClicks now w)
      in if live = [] then []
         else SetPen NoPen # SetBrush dodger_blue #
              map (\<lambda>c. DrawEllipse (pos c) 8 8) (butlast live)
              @ [SetBrush crimson, DrawEllipse (pos (last live)) 10 10])"
  by (simp add: paintEvent_def Let_def paint_blue_loop_butlast radius_def
      dodger_blue_def crimson_def)

lemma paint_run_dots:
  "live \<noteq> [] \<Longrightarrow>
   paint_run (SetRenderHint Antialiasing True # SetPen NoPen # SetBrush dodger_blue #
       map (\<lambda>c. DrawEllipse (pos c) 8 8) (butlast live)
       @ [SetBrush crimson, DrawEllipse (pos (last live)) 10 10])
     = render_spec live"
  by (simp add: paint_run_def QPainter_begin_def foldl_paint_step_draws render_spec_def dot_def)

lemma shown_eq: "shown now w = render_spec (m_clicks (pruneOldClicks now w))"
proof (cases "m_clicks (pruneOldClicks now w) = []")
  case True
  then show ?thesis
    by (simp add: shown_def snd_paintEvent render_spec_def paint_run_def QPainter_begin_def)
next
  case False
  then show ?thesis
    by (simp add: shown_def snd_paintEvent Let_def paint_run_dots)
qed

lemma length_render_spec [simp]: "length (render_spec live) = length live"
  by (simp add: render_spec_def)

lemma render_spec_Nil [simp]: "render_spec [] = []"
  by (simp add: render_spec_def)

lemma render_spec_snoc [simp]:
  "render_spec (cs @ [c]) = map (dot dodger_blue 8) cs @ [dot crimson 10 c]"
  by (simp add: render_spec_def)

lemma render_spec_cases:
  obtains "live = []" "render_spec live = []"
  | cs c where "live = cs @ [c]" "render_spec live = map (dot dodger_blue 8) cs @ [dot crimson 10 c]"
  by (cases live rule: rev_cases) simp_all

lemma colours_differ [simp]: "dodger_blue \<noteq> crimson"
  by (simp add: dodger_blue_def crimson_def)

lemma fill_dot [simp]: "fill (dot colour r c) = SolidPattern colour"
  by (simp add: dot_def)

lemma center_dot [simp]: "center (dot colour r c) = pos c"
  by (simp add: dot_def)

lemma set_render_spec_centers:
  "center ` set (render_spec live) = pos ` set live"
  by (cases live rule: render_spec_cases) (simp_all add: image_Un image_image)

lemma map_center_render_spec [simp]: "map center (render_spec live) = map pos live"
  by (cases live rule: render_spec_cases) simp_all

lemma filter_crimson_render_spec:
  "live \<noteq> [] \<Longrightarrow>
   filter (\<lambda>e. fill e = SolidPattern crimson) (render_spec live) = [dot crimson 10 (last live)]"
  by (cases live rule: render_spec_cases) (simp_all add: filter_map comp_def)

lemma list_all_render_spec:
  "list_all (\<lambda>e. outline e = NoPen \<and> smooth e \<and> rx e = ry e) (render_spec live)"
  by (cases live rule: render_spec_cases) (simp_all add: list_all_iff dot_def)

section \<open>Properties of painting\<close>

text \<open>
  C3: the paint handler prunes first and then draws what the specification
  asks for: interpreting its painter calls from a fresh painter gives the frame
  \<open>render_spec\<close> of the pruned log, and the widget it leaves is the pruned
  widget.
\<close>

theorem paint_renders_spec:
  "fst (paintEvent now w) = pruneOldClicks now w
   \<and> paint_run (snd (paintEvent now w)) = render_spec (m_clicks (pruneOldClicks now w))"
  using shown_eq [of now w] by (simp add: shown_def)

text \<open>
  C13: the dots of a frame are, in order, at the positions of exactly the
  clicks of age at most 3000 ms: no expired click is shown, and no fresh click
  is missing.
\<close>

theorem shown_positions:
  assumes "sub_in_range now 3000"
  shows "map center (shown now w) = map pos (filter (\<lambda>c. age now c \<le> 3000) (m_clicks w))"
  using assms by (simp add: shown_eq m_clicks_pruneOldClicks_fresh fresh_conv)

theorem shown_positions_witness:
  "sub_in_range 3500 3000
   \<and> map center (shown 3500 (widget_with [click_at 1 1 0, click_at 2 2 500, click_at 3 3 3400 :: int ClickPoint]))
     = [\<lparr>xp = 2, yp = 2\<rparr>, \<lparr>xp = 3, yp = 3\<rparr>]"
  using shown_positions
    [of 3500 "widget_with [click_at 1 1 0, click_at 2 2 500, click_at 3 3 3400 :: int ClickPoint]"]
  by (simp add: sub_in_range_def age_def)

text \<open>
  C16: whenever a click is left after pruning, exactly one dot of the frame
  is crimson, and it is the dot of radius 10 at the last recorded click.
\<close>

theorem exactly_one_crimson:
  assumes "m_clicks (pruneOldClicks now w) \<noteq> []"
  shows "filter (\<lambda>e. fill e = SolidPattern (QColor 220 20 60)) (shown now w)
    = [\<lparr>center = pos (last (m_clicks (pruneOldClicks now w))), rx = 10, ry = 10,
        fill = SolidPattern (QColor 220 20 60), outline = NoPen, smooth = True\<rparr>]"
  using filter_crimson_render_spec [OF assms]
  by (simp add: shown_eq crimson_def dot_def)

theorem exactly_one_crimson_witness:
  "m_clicks (pruneOldClicks 2100
      (widget_with [click_at 10 10 0, click_at 20 20 1000, click_at 30 30 2000 :: int ClickPoint])) \<noteq> []
   \<and> filter (\<lambda>e. fill e = SolidPattern (QColor 220 20 60))
        (shown 2100 (widget_with [click_at 10 10 0, click_at 20 20 1000, click_at 30 30 2000 :: int ClickPoint]))
     = [\<lparr>center = \<lparr>xp = 30, yp = 30\<rparr>, rx = 10, ry = 10,
         fill = SolidPattern (QColor 220 20 60), outline = NoPen, smooth = True\<rparr>]"
proof -
  let ?w = "widget_with [click_at 10 10 0, click_at 20 20 1000, click_at 30 30 2000 :: int ClickPoint]"
  have live: "m_clicks (pruneOldClicks 2100 ?w) = m_clicks ?w"
    by (simp add: m_clicks_pruneOldClicks word_sless_alt)
  then have ne: "m_clicks (pruneOldClicks 2100 ?w) \<noteq> []" by simp
  from exactly_one_crimson [OF ne] ne show ?thesis by (simp add: live)
qed

text \<open>
  C17: the last recorded click is painted last, so it wins at every place it
  covers: for any hit test that its crimson dot passes, the topmost ellipse of
  the frame at that place is that dot, whatever blue dots lie there too.
\<close>

theorem newest_click_on_top:
  assumes "m_clicks (pruneOldClicks now w) \<noteq> []"
    and "hit (dot crimson 10 (last (m_clicks (pruneOldClicks now w))))"
  shows "topmost hit (shown now w) = Some (dot crimson 10 (last (m_clicks (pruneOldClicks now w))))"
  using assms by (cases "m_clicks (pruneOldClicks now w)" rule: rev_cases) (simp_all add: shown_eq)

theorem newest_click_on_top_witness:
  "m_clicks (pruneOldClicks 2100
      (widget_with [click_at 10 10 0, click_at 10 10 2000 :: int ClickPoint])) \<noteq> []
   \<and> topmost (\<lambda>e. center e = \<lparr>xp = 10, yp = 10\<rparr>)
        (shown 2100 (widget_with [click_at 10 10 0, click_at 10 10 2000 :: int ClickPoint]))
     = Some (dot crimson 10 (click_at 10 10 2000))"
proof -
  let ?w = "widget_with [click_at 10 10 0, click_at 10 10 2000 :: int ClickPoint]"
  have live: "m_clicks (pruneOldClicks 2100 ?w) = m_clicks ?w"
    by (simp add: m_clicks_pruneOldClicks word_sless_alt)
  then have ne: "m_clicks (pruneOldClicks 2100 ?w) \<noteq> []" by simp
  have "topmost (\<lambda>e. center e = \<lparr>xp = 10, yp = 10\<rparr>) (shown 2100 ?w)
      = Some (dot crimson 10 (last (m_clicks (pruneOldClicks 2100 ?w))))"
    by (rule newest_click_on_top [OF ne]) (simp add: live)
  with ne show ?thesis by (simp add: live)
qed

text \<open>
  Every dot is a filled circle without outline, drawn with
  anti-aliasing switched on.
\<close>

theorem dots_are_smooth_filled_circles:
  "list_all (\<lambda>e. outline e = NoPen \<and> smooth e \<and> rx e = ry e \<and> fill e \<noteq> NoBrush) (shown now w)"
  by (cases "m_clicks (pruneOldClicks now w)" rule: rev_cases)
     (simp_all add: shown_eq list_all_iff dot_def)

text \<open>
  C40: the loop over the older clicks, started at any index, issues one
  blue-radius ellipse per click from that index up to, and not including, the
  last one, in log order.
\<close>

theorem blue_loop_draws_all_but_last:
  "paint_blue_loop clicks i = map (\<lambda>c. DrawEllipse (pos c) 8 8) (drop i (butlast clicks))"
  by (simp add: paint_blue_loop_from radius_def
      map_drop_butlast_conv_nth [of "\<lambda>c. DrawEllipse (pos c) 8 8"])

text \<open>
  When every click has expired, the handler empties the log and
  issues no drawing call: the frame is empty.
\<close>

theorem nothing_shown_after_expiry:
  assumes "sub_in_range now 3000" and "list_all (\<lambda>c. 3000 < age now c) (m_clicks w)"
  shows "m_clicks (fst (paintEvent now w)) = [] \<and> snd (paintEvent now w) = [SetRenderHint Antialiasing True]"
proof -
  from assms(2) have "filter (fresh now) (m_clicks w) = []"
    by (simp add: list_all_iff fresh_def filter_empty_conv not_le)
  with assms(1) show ?thesis
    by (simp add: snd_paintEvent m_clicks_pruneOldClicks_fresh)
qed

theorem nothing_shown_after_expiry_witness:
  "sub_in_range 3500 3000
   \<and> m_clicks (fst (paintEvent 3500 (widget_with [click_at 100 100 0 :: int ClickPoint]))) = []
   \<and> snd (paintEvent 3500 (widget_with [click_at 100 100 0 :: int ClickPoint]))
       = [SetRenderHint Antialiasing True]"
  using nothing_shown_after_expiry [of 3500 "widget_with [click_at 100 100 0 :: int ClickPoint]"]
  by (simp add: sub_in_range_def age_def)

text \<open>
  C27 (type). The calls of the paint handler are a sequence the painter
  accepts: every colour is a valid RGB colour, every ellipse has positive
  radii and is drawn only after a brush has been set, and the larger radius
  \<open>radius + 2\<close> is computed without overflow of \<open>int\<close>.
\<close>

theorem paint_calls_well_formed:
  "painter_accepts False (snd (paintEvent now w)) \<and> sint (radius + 2) = sint radius + 2"
  by (simp add: snd_paintEvent Let_def painter_accepts_draws
      QColor_isValid_def dodger_blue_def crimson_def radius_def word_sless_alt word_sle_eq)

end
