(* ===== verification/Refresh_Driver.thy ===== *)
theory Refresh_Driver
  imports Renderer
begin

text \<open>
  The refresh driver of \<open>src/main.cpp\<close>: the constructor of \<open>ClickWidget\<close>,
  which titles the window, fixes its minimum size and sets up and starts the
  clean-up timer, and the lambda it connects to the timer's \<open>timeout\<close>
  signal (\<open>cleanupTimer_timeout\<close>), which prunes the log and requests a
  repaint.

  The constructor is the sequence of its calls on a default-constructed widget
  (empty title, no minimum size, hidden, empty log, a stopped timer of interval
  0); \<open>setInterval\<close> and \<open>start\<close> are the updates of the two fields of the
  timer. The title is the UTF-8 encoding of the string literal of the source, 24
  bytes for its 8 characters. Connecting the lambda is not a change of state:
  the event loop delivers \<open>Timeout\<close> to \<open>cleanupTimer_timeout\<close> while the
  timer is active.
\<close>

section \<open>Constructor and timer slot\<close>

definition window_title :: string where
  "window_title = map char_of
     [233, 188, 160, 230, 160, 135, 231, 130, 185, 229, 135, 187,
      229, 174, 158, 230, 151, 182, 230, 152, 190, 231, 164, 186 :: nat]"

definition cleanupTimer_timeout :: "qint64 \<Rightarrow> 'q ClickWidget \<Rightarrow> 'q ClickWidget" where
  "cleanupTimer_timeout now w = QWidget_update (pruneOldClicks now w)"

definition ClickWidget_new :: "'q ClickWidget" where
  "ClickWidget_new =
     (let w = \<lparr>windowTitle = [], minimumSize = (0, 0), visible = False, updatePending = False,
               m_clicks = [], m_cleanupTimer = \<lparr>interval = 0, active = False\<rparr>\<rparr>;
          w = w\<lparr>windowTitle := window_title\<rparr>;
          w = w\<lparr>minimumSize := (640, 480)\<rparr>;
          w = w\<lparr>m_cleanupTimer := (m_cleanupTimer w)\<lparr>interval := 50\<rparr>\<rparr>;
          w = w\<lparr>m_cleanupTimer := (m_cleanupTimer w)\<lparr>active := True\<rparr>\<rparr>
      in w)"

section \<open>The constructed widget\<close>

lemma ClickWidget_new_eq:
  "ClickWidget_new =
     \<lparr>windowTitle = window_title, minimumSize = (640, 480), visible = False, updatePending = False,
      m_clicks = [], m_cleanupTimer = \<lparr>interval = 50, active = True\<rparr>\<rparr>"
  by (simp add: ClickWidget_new_def)

lemma ClickWidget_new_fields [simp]:
  "m_clicks ClickWidget_new = []"
  "m_cleanupTimer ClickWidget_new = \<lparr>interval = 50, active = True\<rparr>"
  "minimumSize ClickWidget_new = (640, 480)"
  "windowTitle ClickWidget_new = window_title"
  "\<not> visible ClickWidget_new"
  "\<not> updatePending ClickWidget_new"
  by (simp_all add: ClickWidget_new_eq)

section \<open>The timer slot\<close>

lemma m_clicks_cleanupTimer_timeout [simp]:
  "m_clicks (cleanupTimer_timeout now w) = m_clicks (pruneOldClicks now w)"
  by (simp add: cleanupTimer_timeout_def)

lemma cleanupTimer_timeout_fields [simp]:
  "windowTitle (cleanupTimer_timeout now w) = windowTitle w"
  "minimumSize (cleanupTimer_timeout now w) = minimumSize w"
  "visible (cleanupTimer_timeout now w) = visible w"
  "updatePending (cleanupTimer_timeout now w) \<longleftrightarrow> visible w \<or> updatePending w"
  "m_cleanupTimer (cleanupTimer_timeout now w) = m_cleanupTimer w"
  by (simp_all add: cleanupTimer_timeout_def)

lemma pruneOldClicks_QWidget_update:
  "pruneOldClicks now (QWidget_update w) = QWidget_update (pruneOldClicks now w)"
  by (simp add: pruneOldClicks_eq QWidget_update_def)

lemma stamps_cleanupTimer_timeout [simp]:
  "stamps (cleanupTimer_timeout now w) = stamps (pruneOldClicks now w)"
  by (simp add: stamps_def)

section \<open>Properties of the timer slot\<close>

text \<open>
  C32: a timer tick changes when dots are painted, not which: a frame
  painted at or after the clock reading of a tick is the frame that would have
  been painted had the tick not happened.
\<close>

theorem tick_does_not_change_frame:
  assumes "sub_in_range now1 3000" and "now1 \<le>s now2"
  shows "shown now2 (cleanupTimer_timeout now1 w) = shown now2 w"
proof -
  from assms have r2: "sub_in_range now2 3000" by (rule sub_in_range_3000_mono)
  with assms(1) filter_fresh_absorb [OF assms(2), of "m_clicks w"] show ?thesis
    by (simp add: shown_eq m_clicks_pruneOldClicks_fresh)
qed

theorem tick_does_not_change_frame_witness:
  "sub_in_range 3100 3000 \<and> (3100 :: qint64) \<le>s 3600
   \<and> shown 3600 (cleanupTimer_timeout 3100
        (widget_with [click_at 1 1 0, click_at 2 2 500, click_at 3 3 900 :: int ClickPoint]))
     = shown 3600 (widget_with [click_at 1 1 0, click_at 2 2 500, click_at 3 3 900 :: int ClickPoint])"
  using tick_does_not_change_frame
    [of 3100 3600 "widget_with [click_at 1 1 0, click_at 2 2 500, click_at 3 3 900 :: int ClickPoint]"]
  by (simp add: sub_in_range_def)

text \<open>
  C33: a timer tick removes the expired clicks and, on a visible widget,
  leaves a repaint requested, also when no click was removed.
\<close>

theorem tick_prunes_and_requests_repaint:
  assumes "sub_in_range now 3000" and "visible w"
  shows "m_clicks (cleanupTimer_timeout now w) = filter (\<lambda>c. age now c \<le> 3000) (m_clicks w)
    \<and> updatePending (cleanupTimer_timeout now w)"
  using assms by (simp add: m_clicks_pruneOldClicks_fresh fresh_conv)

theorem tick_prunes_and_requests_repaint_witness:
  "sub_in_range 3500 3000 \<and> visible (widget_with [click_at 1 1 0, click_at 2 2 900 :: int ClickPoint])
   \<and> m_clicks (cleanupTimer_timeout 3500 (widget_with [click_at 1 1 0, click_at 2 2 900 :: int ClickPoint]))
       = [click_at 2 2 900]
   \<and> updatePending (cleanupTimer_timeout 3500 (widget_with [click_at 1 1 0, click_at 2 2 900 :: int ClickPoint]))"
  using tick_prunes_and_requests_repaint
    [of 3500 "widget_with [click_at 1 1 0, click_at 2 2 900 :: int ClickPoint]"]
  by (simp add: sub_in_range_def age_def widget_with_def)

end
