(* ===== verification/Event_Loop.thy ===== *)
theory Event_Loop
  imports Refresh_Driver
begin

text \<open>
  The program as a whole: \<open>main\<close> of \<open>src/main.cpp\<close> constructs the widget,
  shows it and enters the event loop of the application, which then calls the
  handlers of the widget, one event at a time, until the window is closed.

  The state of the running program is the record \<open>world\<close>: the clock that
  \<open>QDateTime::currentMSecsSinceEpoch()\<close> reads, the widget, the frame last
  painted on the screen, and the value \<open>exec\<close> has returned, if it has.
  \<open>dispatch\<close> is the delivery of one event to its handler, which reads the
  clock of the world; \<open>deliverable\<close> says when the event loop can deliver an
  event (a timeout only while the timer is active, input and painting only
  while the window is shown, nothing once the loop has ended).

  Two descriptions of a run are given. \<open>app_exec\<close> runs a given list of
  events, each with the clock reading at its delivery, and \<open>main\<close> returns
  the exit status, \<open>None\<close> while the loop is still running at the end of the
  list. \<open>step\<close> is the relation of all possible steps, with the way the clock
  may move between events as a parameter \<open>adv\<close>, and \<open>reachable\<close> the
  states it reaches from the start. Every run of \<open>app_exec\<close> whose clock
  readings follow \<open>adv\<close> is such a sequence of steps
  (\<open>app_exec_reachable_chain\<close>), and every reachable state is the end of a
  run (\<open>reachable_is_run\<close>).

  Invariants are proved with the rule \<open>reachable_invariant\<close>: a predicate
  holds of every reachable state when it holds at the start, is kept by every
  move of the clock that \<open>adv\<close> allows, and by every delivery of an event.
  For any clock these are the configuration of the widget and the agreement
  of screen and log, for a clock that never steps back (\<open>adv\<close> is \<open>\<le>s\<close>)
  also the ordering of the log.
\<close>

section \<open>The running program\<close>

datatype 'q event = MousePress "'q QPointF" | Timeout | Paint | Close

record 'q world =
  clock :: qint64
  widget :: "'q ClickWidget"
  screen :: "'q Ellipse list"
  exit_code :: "cint option"

definition main_start :: "qint64 \<Rightarrow> 'q world" where
  "main_start t0 =
     \<lparr>clock = t0, widget = QWidget_show ClickWidget_new, screen = [], exit_code = None\<rparr>"

fun dispatch :: "'q event \<Rightarrow> 'q world \<Rightarrow> 'q world" where
  "dispatch (MousePress p) s =
     s\<lparr>widget := fst (mousePressEvent (clock s) \<lparr>position = p, accepted = True\<rparr> (widget s))\<rparr>"
| "dispatch Timeout s = s\<lparr>widget := cleanupTimer_timeout (clock s) (widget s)\<rparr>"
| "dispatch Paint s =
     (let (w, calls) = paintEvent (clock s) ((widget s)\<lparr>updatePending := False\<rparr>)
      in s\<lparr>widget := w, screen := paint_run calls\<rparr>)"
| "dispatch Close s = s\<lparr>widget := (widget s)\<lparr>visible := False\<rparr>, exit_code := Some 0\<rparr>"

fun deliverable :: "'q event \<Rightarrow> 'q world \<Rightarrow> bool" where
  "deliverable Timeout s \<longleftrightarrow> exit_code s = None \<and> active (m_cleanupTimer (widget s))"
| "deliverable e s \<longleftrightarrow> exit_code s = None \<and> visible (widget s)"

fun app_exec :: "(qint64 \<times> 'q event) list \<Rightarrow> 'q world \<Rightarrow> 'q world" where
  "app_exec [] s = s"
| "app_exec ((t, e) # evs) s =
     (if deliverable e (s\<lparr>clock := t\<rparr>)
      then app_exec evs (dispatch e (s\<lparr>clock := t\<rparr>))
      else app_exec evs (s\<lparr>clock := t\<rparr>))"

definition main :: "qint64 \<Rightarrow> (qint64 \<times> 'q event) list \<Rightarrow> cint option" where
  "main t0 evs = exit_code (app_exec evs (main_start t0))"

inductive step :: "(qint64 \<Rightarrow> qint64 \<Rightarrow> bool) \<Rightarrow> 'q world \<Rightarrow> 'q world \<Rightarrow> bool"
  for adv :: "qint64 \<Rightarrow> qint64 \<Rightarrow> bool" where
  clock_moves: "adv (clock s) t \<Longrightarrow> step adv s (s\<lparr>clock := t\<rparr>)"
| delivers: "deliverable e s \<Longrightarrow> step adv s (dispatch e s)"

inductive reachable :: "(qint64 \<Rightarrow> qint64 \<Rightarrow> bool) \<Rightarrow> 'q world \<Rightarrow> bool"
  for adv :: "qint64 \<Rightarrow> qint64 \<Rightarrow> bool" where
  at_start: "reachable adv (main_start t0)"
| after_step: "reachable adv s \<Longrightarrow> step adv s s' \<Longrightarrow> reachable adv s'"

inductive_cases step_cases: "step adv s s'"

section \<open>Invariants\<close>

definition any_clock :: "qint64 \<Rightarrow> qint64 \<Rightarrow> bool" where
  "any_clock t t' \<longleftrightarrow> True"

definition config_ok :: "'q ClickWidget \<Rightarrow> bool" where
  "config_ok w \<longleftrightarrow>
     m_cleanupTimer w = \<lparr>interval = 50, active = True\<rparr> \<and> minimumSize w = (640, 480)
     \<and> windowTitle w = window_title"

definition shown_while_running :: "'q world \<Rightarrow> bool" where
  "shown_while_running s \<longleftrightarrow> exit_code s \<noteq> None \<or> visible (widget s)"

definition screen_current :: "'q world \<Rightarrow> bool" where
  "screen_current s \<longleftrightarrow>
     updatePending (widget s) \<or> screen s = render_spec (m_clicks (widget s))"

definition log_in_past :: "'q world \<Rightarrow> bool" where
  "log_in_past s \<longleftrightarrow> list_all (\<lambda>t. t \<le> sint (clock s)) (stamps (widget s))"

section \<open>Delivery of one event\<close>

lemma pruneOldClicks_updatePending:
  "pruneOldClicks now (w\<lparr>updatePending := b\<rparr>) = (pruneOldClicks now w)\<lparr>updatePending := b\<rparr>"
  by (simp add: pruneOldClicks_eq)

lemma snd_paintEvent_updatePending:
  "snd (paintEvent now (w\<lparr>updatePending := b\<rparr>)) = snd (paintEvent now w)"
  by (simp add: snd_paintEvent pruneOldClicks_updatePending)

lemma dispatch_Paint_eq:
  "dispatch Paint s =
     s\<lparr>widget := (pruneOldClicks (clock s) (widget s))\<lparr>updatePending := False\<rparr>,
       screen := shown (clock s) (widget s)\<rparr>"
  by (simp add: case_prod_beta shown_def pruneOldClicks_updatePending snd_paintEvent_updatePending)

declare dispatch.simps(3) [simp del]
declare dispatch_Paint_eq [simp]

lemma clock_dispatch [simp]: "clock (dispatch e s) = clock s"
  by (cases e) simp_all

lemma exit_code_dispatch [simp]:
  "exit_code (dispatch e s) = (if e = Close then Some 0 else exit_code s)"
  by (cases e) simp_all

lemma screen_dispatch:
  "screen (dispatch e s) = (if e = Paint then shown (clock s) (widget s) else screen s)"
  by (cases e) simp_all

lemma m_clicks_dispatch:
  "m_clicks (widget (dispatch e s)) =
     (case e of MousePress p \<Rightarrow> m_clicks (widget s) @ [\<lparr>pos = p, timestamp = clock s\<rparr>]
      | Close \<Rightarrow> m_clicks (widget s)
      | _ \<Rightarrow> m_clicks (pruneOldClicks (clock s) (widget s)))"
  by (cases e) simp_all

lemma reachable_invariant [consumes 1, case_names start clock event]:
  assumes "reachable adv s"
    and "\<And>t0. I (main_start t0)"
    and "\<And>s t. I s \<Longrightarrow> adv (clock s) t \<Longrightarrow> I (s\<lparr>clock := t\<rparr>)"
    and "\<And>s e. I s \<Longrightarrow> deliverable e s \<Longrightarrow> I (dispatch e s)"
  shows "I s"
  using assms(1)
proof (induction rule: reachable.induct)
  case (at_start t0)
  show ?case by (rule assms(2))
next
  case (after_step s s')
  from after_step.hyps(2) show ?case
    by (rule step_cases) (simp_all add: assms(3,4) after_step.IH)
qed

lemma config_ok_dispatch: "config_ok (widget s) \<Longrightarrow> config_ok (widget (dispatch e s))"
  by (cases e) (simp_all add: config_ok_def)

lemma reachable_config: "reachable adv s \<Longrightarrow> config_ok (widget s)"
proof (induction rule: reachable_invariant)
  case (start t0)
  show ?case by (simp add: config_ok_def main_start_def QWidget_show_def)
qed (simp_all add: config_ok_dispatch)

lemma shown_while_running_dispatch:
  "shown_while_running s \<Longrightarrow> shown_while_running (dispatch e s)"
  by (cases e) (simp_all add: shown_while_running_def)

lemma reachable_shown_while_running: "reachable adv s \<Longrightarrow> shown_while_running s"
proof (induction rule: reachable_invariant)
  case (start t0)
  show ?case by (simp add: shown_while_running_def main_start_def QWidget_show_def)
next
  case (clock s t)
  then show ?case by (simp add: shown_while_running_def)
qed (simp add: shown_while_running_dispatch)

lemma deliverable_running: "deliverable e s \<Longrightarrow> exit_code s = None"
  by (cases e) simp_all

lemma screen_current_dispatch:
  assumes "deliverable e s" and "shown_while_running s" and "screen_current s"
  shows "screen_current (dispatch e s)"
proof -
  from assms(1,2) have vis: "visible (widget s)"
    by (auto simp: shown_while_running_def dest: deliverable_running)
  with assms(3) show ?thesis
    by (cases e) (simp_all add: screen_current_def shown_eq)
qed

lemma reachable_screen_current: "reachable adv s \<Longrightarrow> screen_current s"
proof -
  assume r: "reachable adv s"
  then have "shown_while_running s \<and> screen_current s"
  proof (induction rule: reachable_invariant)
    case (start t0)
    show ?case
      by (simp add: shown_while_running_def screen_current_def main_start_def QWidget_show_def)
  next
    case (clock s t)
    then show ?case by (simp add: shown_while_running_def screen_current_def)
  next
    case (event s e)
    then show ?case by (simp add: shown_while_running_dispatch screen_current_dispatch)
  qed
  then show ?thesis ..
qed

lemma stamps_updates [simp]:
  "stamps (w\<lparr>updatePending := b\<rparr>) = stamps w"
  "stamps (w\<lparr>visible := b\<rparr>) = stamps w"
  by (simp_all add: stamps_def)

lemma stamps_dispatch:
  "stamps (widget (dispatch e s)) =
     (case e of MousePress p \<Rightarrow> stamps (widget s) @ [sint (clock s)]
      | Close \<Rightarrow> stamps (widget s)
      | _ \<Rightarrow> filter (\<lambda>t. \<not> t < sint (clock s - 3000)) (stamps (widget s)))"
  by (cases e) (simp_all add: stamps_pruneOldClicks)

lemma log_sorted_dispatch:
  assumes "log_sorted (widget s)" and "log_in_past s"
  shows "log_sorted (widget (dispatch e s)) \<and> log_in_past (dispatch e s)"
  using assms
  by (cases e)
     (auto simp: log_in_past_def list_all_iff log_sorted_def sorted_append stamps_pruneOldClicks
        sorted_wrt_filter)

lemma reachable_log_sorted:
  "reachable (\<le>s) s \<Longrightarrow> log_sorted (widget s) \<and> log_in_past s"
proof (induction rule: reachable_invariant)
  case (start t0)
  show ?case
    by (simp add: log_sorted_def log_in_past_def stamps_def main_start_def QWidget_show_def)
next
  case (clock s t)
  then show ?case by (auto simp: log_in_past_def list_all_iff word_sle_eq)
next
  case (event s e)
  then show ?case by (simp add: log_sorted_dispatch)
qed

lemma app_exec_append: "app_exec (xs @ ys) s = app_exec ys (app_exec xs s)"
  by (induction xs s rule: app_exec.induct) simp_all

lemma app_exec_reachable_chain:
  "reachable adv s \<Longrightarrow> successively adv (clock s # map fst evs) \<Longrightarrow>
   reachable adv (app_exec evs s)"
proof (induction evs arbitrary: s)
  case Nil
  then show ?case by simp
next
  case (Cons ev evs)
  obtain t e where ev: "ev = (t, e)" by (cases ev)
  from Cons.prems ev have r: "reachable adv (s\<lparr>clock := t\<rparr>)"
    by (intro reachable.after_step [OF Cons.prems(1)] step.clock_moves) simp
  from Cons.prems(2) ev have srt: "successively adv (t # map fst evs)" by simp
  show ?case
  proof (cases "deliverable e (s\<lparr>clock := t\<rparr>)")
    case True
    with r have "reachable adv (dispatch e (s\<lparr>clock := t\<rparr>))"
      by (blast intro: reachable.after_step step.delivers)
    with True ev srt show ?thesis by (simp add: Cons.IH)
  next
    case False
    with r ev srt show ?thesis by (simp add: Cons.IH)
  qed
qed

lemma app_exec_reachable:
  "reachable any_clock s \<Longrightarrow> reachable any_clock (app_exec evs s)"
  by (erule app_exec_reachable_chain) (simp add: successively_always any_clock_def)

lemma app_exec_reachable_mono:
  "reachable (\<le>s) s \<Longrightarrow> sorted_wrt (\<le>s) (clock s # map fst evs) \<Longrightarrow>
   reachable (\<le>s) (app_exec evs s)"
  by (erule app_exec_reachable_chain) (rule sorted_wrt_successively)

lemma reachable_is_run:
  "reachable adv s \<Longrightarrow> \<exists>t0 evs. s = (app_exec evs (main_start t0))\<lparr>clock := clock s\<rparr>"
proof (induction rule: reachable.induct)
  case (at_start t0)
  have "main_start t0 = (app_exec [] (main_start t0))\<lparr>clock := clock (main_start t0 :: 'a world)\<rparr>"
    by (simp add: main_start_def)
  then show ?case by blast
next
  case (after_step s s')
  then obtain t0 evs where s: "s = (app_exec evs (main_start t0))\<lparr>clock := clock s\<rparr>" by blast
  from after_step.hyps(2) show ?case
  proof cases
    case (clock_moves t)
    with s have "s' = (app_exec evs (main_start t0))\<lparr>clock := clock s'\<rparr>"
      by (metis world.select_convs(1) world.update_convs(1) world.surjective)
    then show ?thesis by blast
  next
    case (delivers e)
    with s have "s' = app_exec (evs @ [(clock s, e)]) (main_start t0)"
      by (simp add: app_exec_append)
    then have "s' = (app_exec (evs @ [(clock s, e)]) (main_start t0))\<lparr>clock := clock s'\<rparr>"
      by simp
    then show ?thesis by blast
  qed
qed

lemma app_exec_stopped:
  "exit_code s = Some c \<Longrightarrow> exit_code (app_exec evs s) = Some c"
proof (induction evs arbitrary: s)
  case Nil
  then show ?case by simp
next
  case (Cons ev evs)
  obtain t e where ev: "ev = (t, e)" by (cases ev)
  from Cons.prems have "\<not> deliverable e (s\<lparr>clock := t\<rparr>)"
    by (cases e) simp_all
  with ev Cons.prems show ?case by (simp add: Cons.IH)
qed

lemma exit_code_app_exec:
  "exit_code s = None \<Longrightarrow> visible (widget s) \<Longrightarrow>
   exit_code (app_exec evs s) = (if Close \<in> snd ` set evs then Some 0 else None)"
proof (induction evs arbitrary: s)
  case Nil
  then show ?case by simp
next
  case (Cons ev evs)
  obtain t e where ev: "ev = (t, e)" by (cases ev)
  show ?case
  proof (cases "e = Close")
    case True
    with Cons.prems ev show ?thesis by (simp add: app_exec_stopped)
  next
    case False
    with Cons.prems have "exit_code (dispatch e (s\<lparr>clock := t\<rparr>)) = None"
      and "visible (widget (dispatch e (s\<lparr>clock := t\<rparr>)))"
      by (cases e; simp)+
    with Cons.IH [of "dispatch e (s\<lparr>clock := t\<rparr>)"] Cons.IH [of "s\<lparr>clock := t\<rparr>"] Cons.prems False ev
    show ?thesis by auto
  qed
qed


lemma main_start_fields [simp]:
  "clock (main_start t0) = t0"
  "screen (main_start t0) = []"
  "exit_code (main_start t0) = None"
  "visible (widget (main_start t0))"
  "updatePending (widget (main_start t0))"
  "m_clicks (widget (main_start t0)) = []"
  "m_cleanupTimer (widget (main_start t0)) = \<lparr>interval = 50, active = True\<rparr>"
  by (simp_all add: main_start_def QWidget_show_def)

lemma visible_dispatch [simp]:
  "visible (widget (dispatch e s)) \<longleftrightarrow> e \<noteq> Close \<and> visible (widget s)"
  by (cases e) simp_all

lemma m_cleanupTimer_dispatch [simp]:
  "m_cleanupTimer (widget (dispatch e s)) = m_cleanupTimer (widget s)"
  by (cases e) simp_all

lemmas run_simps =
  m_clicks_dispatch screen_dispatch shown_eq m_clicks_pruneOldClicks word_sless_alt render_spec_def

section \<open>Properties of the running program\<close>

text \<open>
  C11: the screen is never silently out of date. In every reachable state,
  for any behaviour of the clock, either a repaint is requested or the frame on
  the screen is the rendering of the log as it is now: every handler that
  changes the log asks for a repaint.
\<close>

theorem screen_never_silently_stale:
  assumes "reachable adv s"
  shows "updatePending (widget s) \<or> screen s = render_spec (m_clicks (widget s))"
  using reachable_screen_current [OF assms] by (simp add: screen_current_def)

theorem screen_never_silently_stale_witness:
  "reachable any_clock
     (app_exec [(0, MousePress \<lparr>xp = 1, yp = 1\<rparr>), (40, Paint)] (main_start 0 :: int world))
   \<and> screen (app_exec [(0, MousePress \<lparr>xp = 1, yp = 1\<rparr>), (40, Paint)] (main_start 0 :: int world))
     = render_spec (m_clicks (widget
         (app_exec [(0, MousePress \<lparr>xp = 1, yp = 1\<rparr>), (40, Paint)] (main_start 0 :: int world))))"
proof -
  let ?s = "app_exec [(0, MousePress \<lparr>xp = 1, yp = 1\<rparr>), (40, Paint)] (main_start 0 :: int world)"
  have r: "reachable any_clock ?s"
    by (intro app_exec_reachable reachable.at_start)
  have "\<not> updatePending (widget ?s)" by simp
  with screen_never_silently_stale [OF r] r show ?thesis by blast
qed

text \<open>
  C18: while the clock never steps back, the log stays ordered by time of
  recording and holds no click stamped later than the current clock reading.
\<close>

theorem log_sorted_under_monotone_clock:
  assumes "reachable (\<le>s) s"
  shows "log_sorted (widget s) \<and> list_all (\<lambda>c. timestamp c \<le>s clock s) (m_clicks (widget s))"
  using reachable_log_sorted [OF assms]
  by (simp add: log_in_past_def stamps_def list_all_iff word_sle_eq)

theorem log_sorted_under_monotone_clock_witness:
  "reachable (\<le>s)
     (app_exec [(10, MousePress \<lparr>xp = 1, yp = 1\<rparr>), (20, MousePress \<lparr>xp = 2, yp = 2\<rparr>)]
        (main_start 0 :: int world))
   \<and> log_sorted (widget
        (app_exec [(10, MousePress \<lparr>xp = 1, yp = 1\<rparr>), (20, MousePress \<lparr>xp = 2, yp = 2\<rparr>)]
           (main_start 0 :: int world)))"
proof -
  let ?s = "app_exec [(10, MousePress \<lparr>xp = 1, yp = 1\<rparr>), (20, MousePress \<lparr>xp = 2, yp = 2\<rparr>)]
              (main_start 0 :: int world)"
  have r: "reachable (\<le>s) ?s"
    by (intro app_exec_reachable_mono reachable.at_start) (simp add: word_sle_eq)
  from log_sorted_under_monotone_clock [OF r] r show ?thesis by blast
qed


text \<open>
  C37: the clean-up timer runs with its interval of 50 ms, and title and
  minimum size of the window stay as the constructor set them, in every
  reachable state: no handler stops or retunes the timer.
\<close>

theorem timer_runs_throughout:
  assumes "reachable adv s"
  shows "m_cleanupTimer (widget s) = \<lparr>interval = 50, active = True\<rparr>
    \<and> minimumSize (widget s) = (640, 480) \<and> windowTitle (widget s) = window_title"
  using reachable_config [OF assms] by (simp add: config_ok_def)

theorem timer_runs_throughout_witness:
  "reachable any_clock
     (app_exec [(0, MousePress \<lparr>xp = 1, yp = 1\<rparr>), (50, Timeout), (60, Paint)] (main_start 0 :: int world))
   \<and> m_cleanupTimer (widget
        (app_exec [(0, MousePress \<lparr>xp = 1, yp = 1\<rparr>), (50, Timeout), (60, Paint)] (main_start 0 :: int world)))
     = \<lparr>interval = 50, active = True\<rparr>"
proof -
  let ?s = "app_exec [(0, MousePress \<lparr>xp = 1, yp = 1\<rparr>), (50, Timeout), (60, Paint)] (main_start 0 :: int world)"
  have r: "reachable any_clock ?s"
    by (intro app_exec_reachable reachable.at_start)
  from timer_runs_throughout [OF r] r show ?thesis by blast
qed


text \<open>
  Every list of events with non-decreasing clock readings, run by
  \<open>app_exec\<close> from the start, ends in a state that the step relation reaches
  with a clock that never steps back.
\<close>

theorem monotone_runs_are_reachable:
  assumes "sorted_wrt (\<le>s) (t0 # map fst evs)"
  shows "reachable (\<le>s) (app_exec evs (main_start t0))"
  using assms by (intro app_exec_reachable_mono reachable.at_start) simp

theorem monotone_runs_are_reachable_witness:
  "sorted_wrt (\<le>s) ((0 :: qint64) # map fst [(0, MousePress \<lparr>xp = 1 :: int, yp = 1\<rparr>), (50, Timeout)])
   \<and> reachable (\<le>s) (app_exec [(0, MousePress \<lparr>xp = 1 :: int, yp = 1\<rparr>), (50, Timeout)] (main_start 0))"
proof -
  have m: "sorted_wrt (\<le>s) ((0 :: qint64) # map fst [(0, MousePress \<lparr>xp = 1 :: int, yp = 1\<rparr>), (50, Timeout)])"
    by (simp add: word_sle_eq)
  from monotone_runs_are_reachable [OF m] m show ?thesis by blast
qed


end
