(* ===== verification/Click_Spec.thy ===== *)
theory Click_Spec
  imports Click_Prelude
begin

text \<open>
  The abstract click tracker of the specification (\<open>spec.md\<close>, sections 3, 4.1
  and 6), independent of the C++ program: time is an unbounded \<open>int\<close> of
  milliseconds, positions are any type \<open>'p\<close>, the log is a list of
  \<open>ClickEvent\<close>s and the drawing surface a list of coloured circles, oldest
  drawn first.

  \<^item> \<open>spec_record\<close>, \<open>spec_prune\<close>, \<open>spec_render\<close> and \<open>spec_tick\<close>
    are the operations \<open>record\<close>, \<open>prune\<close>, \<open>render\<close> and the tick of the
    Refresh Driver. The specification does not say when a redraw request is
    served; here \<open>spec_render\<close> clears it.
  \<^item> \<open>spec_step\<close> and \<open>spec_exec\<close> run the tracker over a list of events with
    their times; after \<open>Quit\<close> nothing changes any more.
  \<^item> \<open>expected_log\<close> states in closed form what a run leaves in the log: the
    presses of the run, filtered by liveness at the time of the last prune.
    \<open>delivered\<close> cuts a run at its first \<open>Quit\<close>, \<open>painted\<close> at its last
    \<open>Render\<close>; \<open>ticks_after\<close> is the schedule of a Refresh Driver that fires
    every 50 ms.

  The lemmas show that, for events in time order, the log and the surface after
  a run are given by \<open>expected_log\<close>, and that no entry of the log was older
  than 3000 ms at any prune of the run. The refinement theory carries them over
  to the program.
\<close>

section \<open>State and operations\<close>

record 'p ClickEvent =
  at_position :: 'p
  recordedAt :: int

datatype colour = Accent | Crimson

datatype 'p circle = Circle (centre: 'p) (radius_of: nat) (colour_of: colour)

record 'p tracker =
  click_log :: "'p ClickEvent list"
  redraw_requested :: bool
  surface :: "'p circle list"
  closed :: bool

definition live_at :: "int \<Rightarrow> 'p ClickEvent \<Rightarrow> bool" where
  "live_at now e \<longleftrightarrow> now - recordedAt e \<le> 3000"

definition spec_record :: "'p \<Rightarrow> int \<Rightarrow> 'p tracker \<Rightarrow> 'p tracker" where
  "spec_record p now st =
     st\<lparr>click_log := click_log st @ [\<lparr>at_position = p, recordedAt = now\<rparr>],
        redraw_requested := True\<rparr>"

definition spec_prune :: "int \<Rightarrow> 'p tracker \<Rightarrow> 'p tracker" where
  "spec_prune now st = st\<lparr>click_log := filter (live_at now) (click_log st)\<rparr>"

definition spec_draw :: "'p ClickEvent list \<Rightarrow> 'p circle list" where
  "spec_draw evs =
     (if evs = [] then []
      else map (\<lambda>e. Circle (at_position e) 8 Accent) (butlast evs)
           @ [Circle (at_position (last evs)) 10 Crimson])"

definition spec_render :: "int \<Rightarrow> 'p tracker \<Rightarrow> 'p tracker" where
  "spec_render now st =
     (let st = spec_prune now st
      in st\<lparr>surface := spec_draw (click_log st), redraw_requested := False\<rparr>)"

definition spec_tick :: "int \<Rightarrow> 'p tracker \<Rightarrow> 'p tracker" where
  "spec_tick now st = (spec_prune now st)\<lparr>redraw_requested := True\<rparr>"

datatype 'p spec_event = Press 'p | Tick | Render | Quit

fun spec_step :: "int \<Rightarrow> 'p spec_event \<Rightarrow> 'p tracker \<Rightarrow> 'p tracker" where
  "spec_step now (Press p) st = spec_record p now st"
| "spec_step now Tick st = spec_tick now st"
| "spec_step now Render st = spec_render now st"
| "spec_step now Quit st = st\<lparr>closed := True\<rparr>"

fun spec_exec :: "(int \<times> 'p spec_event) list \<Rightarrow> 'p tracker \<Rightarrow> 'p tracker" where
  "spec_exec [] st = st"
| "spec_exec ((now, e) # tes) st =
     (if closed st then spec_exec tes st else spec_exec tes (spec_step now e st))"

definition spec_start :: "'p tracker" where
  "spec_start = \<lparr>click_log = [], redraw_requested = True, surface = [], closed = False\<rparr>"

section \<open>Traces\<close>

fun is_prune :: "'p spec_event \<Rightarrow> bool" where
  "is_prune Tick = True"
| "is_prune Render = True"
| "is_prune _ = False"

fun press_of :: "int \<times> 'p spec_event \<Rightarrow> 'p ClickEvent list" where
  "press_of (t, Press p) = [\<lparr>at_position = p, recordedAt = t\<rparr>]"
| "press_of _ = []"

definition presses :: "(int \<times> 'p spec_event) list \<Rightarrow> 'p ClickEvent list" where
  "presses tes = concat (map press_of tes)"

definition prune_times :: "(int \<times> 'p spec_event) list \<Rightarrow> int list" where
  "prune_times tes = map fst (filter (\<lambda>te. is_prune (snd te)) tes)"

definition expected_log :: "(int \<times> 'p spec_event) list \<Rightarrow> 'p ClickEvent list" where
  "expected_log tes =
     (if prune_times tes = [] then presses tes
      else filter (live_at (last (prune_times tes))) (presses tes))"

definition delivered :: "(int \<times> 'p spec_event) list \<Rightarrow> (int \<times> 'p spec_event) list" where
  "delivered tes = takeWhile (\<lambda>te. snd te \<noteq> Quit) tes"

definition painted :: "(int \<times> 'p spec_event) list \<Rightarrow> (int \<times> 'p spec_event) list" where
  "painted tes = rev (dropWhile (\<lambda>te. snd te \<noteq> Render) (rev tes))"

definition ticks_after :: "int \<Rightarrow> nat \<Rightarrow> (int \<times> 'p spec_event) list" where
  "ticks_after t n = map (\<lambda>k. (t + 50 * int k, Tick)) [1 ..< Suc n]"

definition in_time_order :: "(int \<times> 'p spec_event) list \<Rightarrow> bool" where
  "in_time_order tes \<longleftrightarrow> sorted (map fst tes)"

section \<open>Steps and runs\<close>

lemma live_at_mono: "live_at t' e \<Longrightarrow> t \<le> t' \<Longrightarrow> live_at t e"
  by (simp add: live_at_def)

lemma filter_live_at_absorb:
  "t \<le> t' \<Longrightarrow> filter (live_at t') (filter (live_at t) es) = filter (live_at t') es"
  by (rule filter_filter_absorb) (rule live_at_mono)

lemma spec_exec_append: "spec_exec (xs @ ys) st = spec_exec ys (spec_exec xs st)"
  by (induction xs st rule: spec_exec.induct) simp_all

lemma spec_exec_closed: "closed st \<Longrightarrow> spec_exec tes st = st"
  by (induction tes st rule: spec_exec.induct) simp_all

lemma closed_spec_step [simp]: "closed (spec_step now e st) \<longleftrightarrow> closed st \<or> e = Quit"
  by (cases e) (simp_all add: spec_record_def spec_tick_def spec_render_def spec_prune_def Let_def)

lemma click_log_spec_step:
  "click_log (spec_step now e st) =
     (if is_prune e then filter (live_at now) (click_log st) else click_log st @ press_of (now, e))"
  by (cases e) (simp_all add: spec_record_def spec_tick_def spec_render_def spec_prune_def Let_def)

lemma spec_exec_snoc:
  "spec_exec (tes @ [(now, e)]) st =
     (let st' = spec_exec tes st in if closed st' then st' else spec_step now e st')"
  by (simp add: spec_exec_append Let_def)

lemma closed_spec_exec:
  "closed (spec_exec tes st) \<longleftrightarrow> closed st \<or> Quit \<in> snd ` set tes"
  by (induction tes st rule: spec_exec.induct) (auto simp: image_iff)

lemma spec_exec_delivered:
  "spec_exec tes st = (spec_exec (delivered tes) st)\<lparr>closed := closed st \<or> Quit \<in> snd ` set tes\<rparr>"
proof (induction tes st rule: spec_exec.induct)
  case (1 st)
  then show ?case by (simp add: delivered_def)
next
  case (2 now e tes st)
  show ?case
  proof (cases "closed st")
    case True
    then show ?thesis by (simp add: spec_exec_closed)
  next
    case False
    show ?thesis
    proof (cases "e = Quit")
      case True
      with False show ?thesis by (simp add: delivered_def spec_exec_closed)
    next
      case False
      with \<open>\<not> closed st\<close> 2 show ?thesis by (simp add: delivered_def)
    qed
  qed
qed

section \<open>The log and the surface after a run\<close>

lemma presses_snoc [simp]: "presses (tes @ [te]) = presses tes @ press_of te"
  by (simp add: presses_def)

lemma prune_times_snoc [simp]:
  "prune_times (tes @ [(t, e)]) = (if is_prune e then prune_times tes @ [t] else prune_times tes)"
  by (simp add: prune_times_def)

lemma set_prune_times: "set (prune_times tes) \<subseteq> fst ` set tes"
  by (auto simp: prune_times_def)

lemma set_presses: "e \<in> set (presses tes) \<Longrightarrow> recordedAt e \<in> fst ` set tes"
proof -
  assume "e \<in> set (presses tes)"
  then obtain te where te: "te \<in> set tes" and e: "e \<in> set (press_of te)"
    by (auto simp: presses_def)
  obtain t ev where "te = (t, ev)" by (cases te)
  with e have "recordedAt e = fst te" by (cases ev) simp_all
  with te show ?thesis by auto
qed

lemma in_time_order_snoc:
  "in_time_order (tes @ [(t, e)]) \<longleftrightarrow> in_time_order tes \<and> (\<forall>t' \<in> fst ` set tes. t' \<le> t)"
  by (auto simp: in_time_order_def sorted_append)

lemma last_prune_times_le:
  assumes "\<forall>t' \<in> fst ` set tes. t' \<le> t" and "prune_times tes \<noteq> []"
  shows "last (prune_times tes) \<le> t"
proof -
  from assms(2) have "last (prune_times tes) \<in> set (prune_times tes)" by simp
  with set_prune_times [of tes] have "last (prune_times tes) \<in> fst ` set tes" by blast
  with assms(1) show ?thesis by blast
qed

lemma expected_log_snoc:
  assumes "in_time_order (tes @ [(t, e)])"
  shows "expected_log (tes @ [(t, e)]) =
     (if is_prune e then filter (live_at t) (expected_log tes) else expected_log tes @ press_of (t, e))"
proof -
  from assms have before: "\<forall>t' \<in> fst ` set tes. t' \<le> t"
    by (simp add: in_time_order_snoc)
  show ?thesis
  proof (cases "is_prune e")
    case True
    then have "press_of (t, e) = []" by (cases e) simp_all
    with True last_prune_times_le [OF before] show ?thesis
      by (simp add: expected_log_def filter_live_at_absorb del: filter_filter)
  next
    case False
    have "\<forall>x \<in> set (press_of (t, e)). live_at (last (prune_times tes)) x"
      if "prune_times tes \<noteq> []"
      using last_prune_times_le [OF before that] by (cases e) (simp_all add: live_at_def)
    with False show ?thesis
      by (auto simp: expected_log_def)
  qed
qed

lemma click_log_spec_exec_running:
  assumes "in_time_order tes" and "Quit \<notin> snd ` set tes"
  shows "click_log (spec_exec tes spec_start) = expected_log tes"
  using assms
proof (induction tes rule: rev_induct)
  case Nil
  then show ?case by (simp add: expected_log_def presses_def prune_times_def spec_start_def)
next
  case (snoc te tes)
  obtain t e where te: "te = (t, e)" by (cases te)
  from snoc.prems te have ord: "in_time_order tes" and nq: "Quit \<notin> snd ` set tes"
    by (auto simp: in_time_order_snoc)
  from nq have "\<not> closed (spec_exec tes spec_start)"
    by (simp add: closed_spec_exec spec_start_def)
  with snoc.IH [OF ord nq] snoc.prems te show ?case
    by (simp add: spec_exec_snoc click_log_spec_step expected_log_snoc)
qed

lemma painted_snoc [simp]:
  "painted (tes @ [(t, e)]) = (if e = Render then tes @ [(t, e)] else painted tes)"
  by (simp add: painted_def)

lemma surface_spec_step:
  "surface (spec_step now e st) =
     (if e = Render then spec_draw (filter (live_at now) (click_log st)) else surface st)"
  by (cases e) (simp_all add: spec_record_def spec_tick_def spec_render_def spec_prune_def Let_def)

lemma surface_spec_exec_running:
  assumes "in_time_order tes" and "Quit \<notin> snd ` set tes"
  shows "surface (spec_exec tes spec_start) = spec_draw (expected_log (painted tes))"
  using assms
proof (induction tes rule: rev_induct)
  case Nil
  then show ?case
    by (simp add: expected_log_def presses_def prune_times_def spec_start_def painted_def spec_draw_def)
next
  case (snoc te tes)
  obtain t e where te: "te = (t, e)" by (cases te)
  from snoc.prems te have ord: "in_time_order tes" and nq: "Quit \<notin> snd ` set tes"
    by (auto simp: in_time_order_snoc)
  from nq have "\<not> closed (spec_exec tes spec_start)"
    by (simp add: closed_spec_exec spec_start_def)
  with snoc.IH [OF ord nq] click_log_spec_exec_running [OF ord nq] te
  have "surface (spec_exec (tes @ [te]) spec_start) =
     (if e = Render then spec_draw (filter (live_at t) (expected_log tes))
      else spec_draw (expected_log (painted tes)))"
    by (simp add: spec_exec_snoc surface_spec_step)
  with snoc.prems(1) te show ?case
    by (cases "e = Render") (simp_all add: expected_log_snoc)
qed

lemma in_time_order_delivered: "in_time_order tes \<Longrightarrow> in_time_order (delivered tes)"
  unfolding in_time_order_def delivered_def
  by (metis append_take_drop_id map_append sorted_append takeWhile_eq_take)

lemma no_Quit_delivered: "Quit \<notin> snd ` set (delivered tes)"
  by (auto simp: delivered_def dest: set_takeWhileD)

lemma click_log_spec_exec:
  "in_time_order tes \<Longrightarrow> click_log (spec_exec tes spec_start) = expected_log (delivered tes)"
  using click_log_spec_exec_running [OF in_time_order_delivered no_Quit_delivered, of tes]
  by (subst spec_exec_delivered) simp

lemma surface_spec_exec:
  "in_time_order tes \<Longrightarrow>
   surface (spec_exec tes spec_start) = spec_draw (expected_log (painted (delivered tes)))"
  using surface_spec_exec_running [OF in_time_order_delivered no_Quit_delivered, of tes]
  by (subst spec_exec_delivered) simp

lemma expected_log_live:
  assumes "in_time_order tes" and "e \<in> set (expected_log tes)" and "T \<in> set (prune_times tes)"
  shows "live_at T e"
proof -
  from assms(3) have ne: "prune_times tes \<noteq> []" by auto
  have "sorted (prune_times tes)"
    using assms(1) unfolding in_time_order_def prune_times_def by (rule sorted_filter)
  then have "T \<le> last (prune_times tes)"
    using assms(3) by (rule sorted_le_last)
  moreover from assms(2) ne have "live_at (last (prune_times tes)) e"
    by (simp add: expected_log_def)
  ultimately show ?thesis by (rule live_at_mono [rotated])
qed

lemma click_log_spec_exec_live:
  assumes "in_time_order tes" and "e \<in> set (click_log (spec_exec tes spec_start))"
    and "T \<in> set (prune_times (delivered tes))"
  shows "live_at T e"
  using assms expected_log_live [OF in_time_order_delivered, of tes e T]
  by (simp add: click_log_spec_exec)

section \<open>A press followed by ticks\<close>

lemma presses_Cons [simp]: "presses (te # tes) = press_of te @ presses tes"
  by (simp add: presses_def)

lemma presses_ticks_after [simp]: "presses (ticks_after t n) = []"
  by (simp add: presses_def ticks_after_def)

lemma prune_times_press_ticks:
  "prune_times ((t, Press p) # ticks_after t n) = map (\<lambda>k. t + 50 * int k) [1 ..< Suc n]"
  by (simp add: prune_times_def ticks_after_def comp_def)

lemma delivered_press_ticks [simp]:
  "delivered ((t, Press p) # ticks_after t n) = (t, Press p) # ticks_after t n"
  by (simp add: delivered_def ticks_after_def takeWhile_eq_all_conv [THEN iffD2])

lemma in_time_order_press_ticks: "in_time_order ((t, Press p) # ticks_after t n)"
proof -
  have "sorted_wrt (\<lambda>j k. t + 50 * int j \<le> t + 50 * int k) [1 ..< Suc n]"
    by (rule sorted_wrt_mono_rel [OF _ sorted_upt]) simp
  then show ?thesis
    by (simp add: in_time_order_def ticks_after_def comp_def sorted_map del: upt_Suc)
qed

lemma expected_log_press_ticks:
  "expected_log ((t, Press p) # ticks_after t n)
     = (if n \<le> 60 then [\<lparr>at_position = p, recordedAt = t\<rparr>] else [])"
proof (cases n)
  case 0
  then show ?thesis by (simp add: expected_log_def prune_times_press_ticks)
next
  case (Suc m)
  then have "last (map (\<lambda>k. t + 50 * int k) [1 ..< Suc n]) = t + 50 * int n"
    by (simp add: last_map)
  with Suc show ?thesis
    by (simp add: expected_log_def prune_times_press_ticks live_at_def del: upt_Suc)
qed

end
