(* ===== verification/Click_Refinement.thy ===== *)
theory Click_Refinement
  imports Event_Loop Click_Spec
begin

text \<open>
  The program implements the abstract click tracker. \<open>abs_world\<close> reads a
  state of the event loop as a state of the tracker: the log with each 64-bit
  timestamp read as a signed integer, the pending repaint as the redraw
  request, the frame on the screen as circles with radius and one of the two
  colours, and a set exit code as \<open>closed\<close>. \<open>abs_event\<close> and \<open>abs_trace\<close> read
  the events of the program as events of the tracker.

  \<open>clock_in_range\<close> says that at no clock reading of a run the threshold
  \<open>now - 3000\<close> leaves the 64-bit range; \<open>clock_monotone\<close> that the clock
  readings of a run never decrease. \<open>ready\<close> holds of the states in which
  the event loop delivers every event while it runs: the window is shown and
  the timer is active.

  The lemmas show that each delivered event is one step of the tracker
  (\<open>abs_world_dispatch\<close>) and each run of the event loop a run of the tracker
  (\<open>abs_world_app_exec\<close>); the properties state this of the runs from the
  start of \<open>main\<close> and carry the closed forms of the tracker's log and
  surface over to the program.
\<close>

section \<open>Abstraction\<close>

definition abs_click :: "'q ClickPoint \<Rightarrow> 'q QPointF ClickEvent" where
  "abs_click c = \<lparr>at_position = pos c, recordedAt = sint (timestamp c)\<rparr>"

definition abs_circle :: "'q Ellipse \<Rightarrow> 'q QPointF circle" where
  "abs_circle e =
     Circle (center e) (unat (rx e)) (if fill e = SolidPattern crimson then Crimson else Accent)"

fun abs_event :: "'q event \<Rightarrow> 'q QPointF spec_event" where
  "abs_event (MousePress p) = Press p"
| "abs_event Timeout = Tick"
| "abs_event Paint = Render"
| "abs_event Close = Quit"

definition abs_trace :: "(qint64 \<times> 'q event) list \<Rightarrow> (int \<times> 'q QPointF spec_event) list" where
  "abs_trace evs = map (\<lambda>te. (sint (fst te), abs_event (snd te))) evs"

definition abs_world :: "'q world \<Rightarrow> 'q QPointF tracker" where
  "abs_world s =
     \<lparr>click_log = map abs_click (m_clicks (widget s)),
      redraw_requested = updatePending (widget s),
      surface = map abs_circle (screen s),
      closed = (exit_code s \<noteq> None)\<rparr>"

definition ready :: "'q world \<Rightarrow> bool" where
  "ready s \<longleftrightarrow> shown_while_running s \<and> active (m_cleanupTimer (widget s))"

definition clock_in_range :: "(qint64 \<times> 'q event) list \<Rightarrow> bool" where
  "clock_in_range evs \<longleftrightarrow> list_all (\<lambda>te. sub_in_range (fst te) 3000) evs"

definition clock_monotone :: "(qint64 \<times> 'q event) list \<Rightarrow> bool" where
  "clock_monotone evs \<longleftrightarrow> sorted_wrt (\<le>s) (map fst evs)"

definition sample_run :: "(qint64 \<times> int event) list" where
  "sample_run =
     [(0, MousePress \<lparr>xp = 1, yp = 1\<rparr>), (1000, MousePress \<lparr>xp = 2, yp = 2\<rparr>),
      (3500, Timeout), (3600, Paint), (3700, Close), (3800, MousePress \<lparr>xp = 3, yp = 3\<rparr>)]"

section \<open>Refinement\<close>

lemma abs_render_spec: "map abs_circle (render_spec live) = spec_draw (map abs_click live)"
  by (cases live rule: rev_cases)
     (simp_all add: render_spec_def spec_draw_def abs_circle_def abs_click_def dot_def
        map_butlast last_map comp_def)

lemma filter_abs_click:
  "filter (live_at (sint now)) (map abs_click cs) = map abs_click (filter (fresh now) cs)"
  by (simp add: filter_map comp_def abs_click_def live_at_def fresh_conv age_def)

lemma abs_world_dispatch:
  assumes "deliverable e s" and "shown_while_running s" and "sub_in_range (clock s) 3000"
  shows "abs_world (dispatch e s) = spec_step (sint (clock s)) (abs_event e) (abs_world s)"
proof -
  from assms(1,2) have vis: "visible (widget s)" and run: "exit_code s = None"
    by (auto simp: shown_while_running_def dest: deliverable_running)
  show ?thesis
  proof (cases e)
    case (MousePress p)
    with vis run show ?thesis
      by (simp add: abs_world_def spec_record_def abs_click_def)
  next
    case Timeout
    with vis run assms(3) show ?thesis
      by (simp add: abs_world_def spec_tick_def spec_prune_def m_clicks_pruneOldClicks_fresh
          filter_abs_click)
  next
    case Paint
    with vis run assms(3) show ?thesis
      by (simp add: abs_world_def spec_render_def spec_prune_def m_clicks_pruneOldClicks_fresh
          filter_abs_click shown_eq abs_render_spec)
  next
    case Close
    with vis run show ?thesis by (simp add: abs_world_def)
  qed
qed

lemma ready_dispatch: "ready s \<Longrightarrow> ready (dispatch e s)"
  by (simp add: ready_def shown_while_running_dispatch)

lemma ready_deliverable: "ready s \<Longrightarrow> deliverable e s \<longleftrightarrow> exit_code s = None"
  by (cases e) (auto simp: ready_def shown_while_running_def)

lemma abs_world_clock [simp]: "abs_world (s\<lparr>clock := t\<rparr>) = abs_world s"
  by (simp add: abs_world_def)

lemma ready_clock [simp]: "ready (s\<lparr>clock := t\<rparr>) = ready s"
  by (simp add: ready_def shown_while_running_def)

lemma closed_abs_world [simp]: "closed (abs_world s) \<longleftrightarrow> exit_code s \<noteq> None"
  by (simp add: abs_world_def)

lemma abs_world_app_exec:
  assumes "ready s" and "clock_in_range evs"
  shows "abs_world (app_exec evs s) = spec_exec (abs_trace evs) (abs_world s)"
  using assms
proof (induction evs arbitrary: s)
  case Nil
  then show ?case by (simp add: abs_trace_def)
next
  case (Cons ev evs)
  obtain t e where ev: "ev = (t, e)" by (cases ev)
  let ?s = "s\<lparr>clock := t\<rparr>"
  from Cons.prems ev have r: "ready ?s" and rng: "sub_in_range t 3000"
    and rest: "clock_in_range evs"
    by (simp_all add: clock_in_range_def)
  have tr: "abs_trace (ev # evs) = (sint t, abs_event e) # abs_trace evs"
    using ev by (simp add: abs_trace_def)
  show ?case
  proof (cases "exit_code s = None")
    case True
    with r have d: "deliverable e ?s" by (simp add: ready_deliverable)
    from r have "shown_while_running ?s" by (simp add: ready_def)
    with d rng have "abs_world (dispatch e ?s) = spec_step (sint t) (abs_event e) (abs_world s)"
      using abs_world_dispatch [of e ?s] by simp
    with True d ev tr Cons.IH [OF ready_dispatch [OF r] rest] show ?thesis by simp
  next
    case False
    with r have "\<not> deliverable e ?s" by (simp add: ready_deliverable)
    with False ev tr Cons.IH [OF r rest] show ?thesis by simp
  qed
qed

lemma abs_world_main_start [simp]: "abs_world (main_start t0) = spec_start"
  by (simp add: abs_world_def spec_start_def)

lemma ready_main_start [simp]: "ready (main_start t0)"
  by (simp add: ready_def shown_while_running_def)

lemma in_time_order_abs_trace: "clock_monotone evs \<Longrightarrow> in_time_order (abs_trace evs)"
  by (simp add: clock_monotone_def in_time_order_def abs_trace_def comp_def sorted_map
      sorted_wrt_map word_sle_eq)

lemma click_log_abs_world: "click_log (abs_world s) = map abs_click (m_clicks (widget s))"
  by (simp add: abs_world_def)

lemma surface_abs_world: "surface (abs_world s) = map abs_circle (screen s)"
  by (simp add: abs_world_def)

section \<open>Properties\<close>

lemma sample_run_ok: "clock_in_range sample_run \<and> clock_monotone sample_run"
  by (simp add: sample_run_def clock_in_range_def clock_monotone_def sub_in_range_def word_sle_eq)

lemmas trace_simps =
  sample_run_def abs_trace_def delivered_def painted_def expected_log_def presses_def
  prune_times_def live_at_def spec_draw_def

text \<open>
  C2 (refinement). Every run of the program from the start of \<open>main\<close>, over
  any events whose clock readings are in range, is the run of the abstract
  click tracker over the same events: log, redraw request, surface and
  termination agree after every prefix.
\<close>

theorem program_refines_spec:
  assumes "clock_in_range evs"
  shows "abs_world (app_exec evs (main_start t0)) = spec_exec (abs_trace evs) spec_start"
  using abs_world_app_exec [OF ready_main_start assms, of t0] by simp

theorem program_refines_spec_witness:
  "clock_in_range sample_run
   \<and> abs_world (app_exec sample_run (main_start 0)) = spec_exec (abs_trace sample_run) spec_start"
  using program_refines_spec [of sample_run 0] sample_run_ok by simp

text \<open>
  C7 (functional). After a run with a clock that never steps back, the log of
  the program holds exactly the presses delivered before the window was
  closed that were at most 3000 ms old at the last timer tick or paint, in
  the order of their arrival, each with its position and clock reading.
\<close>

theorem log_after_run:
  assumes "clock_in_range evs" and "clock_monotone evs"
  shows "map abs_click (m_clicks (widget (app_exec evs (main_start t0))))
         = expected_log (delivered (abs_trace evs))"
  using abs_world_app_exec [OF ready_main_start assms(1), of t0]
    click_log_spec_exec [OF in_time_order_abs_trace [OF assms(2)]]
  by (simp add: click_log_abs_world [symmetric])

theorem log_after_run_witness:
  "clock_in_range sample_run \<and> clock_monotone sample_run
   \<and> map abs_click (m_clicks (widget (app_exec sample_run (main_start 0))))
     = [\<lparr>at_position = \<lparr>xp = 2, yp = 2\<rparr>, recordedAt = 1000\<rparr>]"
  using log_after_run [of sample_run 0] sample_run_ok by (simp add: trace_simps)

text \<open>
  C12 (functional). After a run with a clock that never steps back, the screen
  shows the drawing the specification asks for of the presses that were live
  at the last paint: blue circles of radius 8, then the crimson circle of
  radius 10 of the newest of them; before the first paint it shows nothing.
\<close>

theorem screen_after_run:
  assumes "clock_in_range evs" and "clock_monotone evs"
  shows "map abs_circle (screen (app_exec evs (main_start t0)))
         = spec_draw (expected_log (painted (delivered (abs_trace evs))))"
  using abs_world_app_exec [OF ready_main_start assms(1), of t0]
    surface_spec_exec [OF in_time_order_abs_trace [OF assms(2)]]
  by (simp add: surface_abs_world [symmetric])

theorem screen_after_run_witness:
  "clock_in_range sample_run \<and> clock_monotone sample_run
   \<and> map abs_circle (screen (app_exec sample_run (main_start 0)))
     = [Circle \<lparr>xp = 2, yp = 2\<rparr> 10 Crimson]"
  using screen_after_run [of sample_run 0] sample_run_ok by (simp add: trace_simps)

text \<open>
  C21 (safety). No click in the log after a run was older than 3000 ms at any
  timer tick or paint delivered in the run: every tick and every paint bounds
  the age of what the log keeps from then on.
\<close>

theorem no_click_outlives_window:
  assumes "clock_in_range evs" and "clock_monotone evs"
    and "c \<in> set (m_clicks (widget (app_exec evs (main_start t0))))"
    and "T \<in> set (prune_times (delivered (abs_trace evs)))"
  shows "T - sint (timestamp c) \<le> 3000"
proof -
  from assms(3) have "abs_click c \<in> set (click_log (abs_world (app_exec evs (main_start t0))))"
    by (simp add: click_log_abs_world)
  with abs_world_app_exec [OF ready_main_start assms(1), of t0]
  have "abs_click c \<in> set (click_log (spec_exec (abs_trace evs) spec_start))" by simp
  from click_log_spec_exec_live [OF in_time_order_abs_trace [OF assms(2)] this assms(4)]
  show ?thesis by (simp add: live_at_def abs_click_def)
qed

theorem no_click_outlives_window_witness:
  "clock_in_range sample_run \<and> clock_monotone sample_run
   \<and> click_at 2 2 1000 \<in> set (m_clicks (widget (app_exec sample_run (main_start 0))))
   \<and> 3600 \<in> set (prune_times (delivered (abs_trace sample_run)))
   \<and> 3600 - sint (timestamp (click_at 2 2 1000 :: int ClickPoint)) \<le> 3000"
proof -
  have c: "click_at 2 2 1000 \<in> set (m_clicks (widget (app_exec sample_run (main_start 0))))"
    by (simp add: sample_run_def run_simps click_at_def fresh_conv age_def sub_in_range_def)
  have t: "3600 \<in> set (prune_times (delivered (abs_trace sample_run)))"
    by (simp add: trace_simps)
  from no_click_outlives_window [OF _ _ c t] sample_run_ok c t show ?thesis by blast
qed

end
