(* ===== verification/Click_Lifetime.thy ===== *)
theory Click_Lifetime
  imports Click_Refinement
begin

text \<open>
  How long a dot lives when the timer alone drives the program. The
  constructor sets the interval of \<open>m_cleanupTimer\<close> to 50 ms and starts it;
  \<open>timer_ticks\<close> is the schedule on which a timer with a given interval then
  fires after a clock reading \<open>t\<close>: \<open>n\<close> timeouts, the \<open>k\<close>-th at
  \<open>t + interval * k\<close>, computed on 64-bit words as the clock is.
  \<open>clock_fits\<close> says that the clock does not leave the 64-bit range during
  such a run.

  The property is read off the closed form of the abstract tracker's log
  through the refinement: a click recorded at \<open>t\<close> is in the log after each of
  the first 60 ticks and is gone from the 61st on, that is 3050 ms after it
  was recorded.
\<close>

section \<open>The schedule of the timer\<close>

definition timer_ticks :: "cint \<Rightarrow> qint64 \<Rightarrow> nat \<Rightarrow> (qint64 \<times> 'q event) list" where
  "timer_ticks iv t n = map (\<lambda>k. (t + scast iv * of_nat k, Timeout)) [1 ..< Suc n]"

definition clock_fits :: "qint64 \<Rightarrow> nat \<Rightarrow> bool" where
  "clock_fits t n \<longleftrightarrow> sub_in_range t 3000 \<and> sint t + 50 * int n < 2 ^ 63"

lemma interval_main_start [simp]:
  "scast (interval (m_cleanupTimer (widget (main_start t0)))) = (50 :: qint64)"
  by simp

lemma sint_tick:
  assumes "clock_fits t n" and "k \<le> n"
  shows "sint (t + 50 * of_nat k) = sint t + 50 * int k"
proof -
  have "(50 * of_nat k :: qint64) = word_of_int (50 * int k)" by simp
  moreover from assms have "- (2 ^ 63) \<le> sint t + 50 * int k" and "sint t + 50 * int k < 2 ^ 63"
    using sint_qint64_bounds [of t] by (simp_all add: clock_fits_def)
  ultimately show ?thesis by (simp only: sint_add_int)
qed

lemma abs_trace_press_ticks:
  assumes "clock_fits t n"
  shows "abs_trace ((t, MousePress p) # timer_ticks 50 t n)
         = (sint t, Press p) # ticks_after (sint t) n"
  using sint_tick [OF assms]
  by (simp add: abs_trace_def timer_ticks_def ticks_after_def comp_def del: upt_Suc)

lemma clock_in_range_press_ticks:
  assumes "clock_fits t n"
  shows "clock_in_range ((t, MousePress p) # timer_ticks 50 t n)"
proof -
  have "sub_in_range (t + 50 * of_nat k) 3000" if "k \<le> n" for k
    using assms sint_tick [OF assms that] sint_qint64_bounds [of "t + 50 * of_nat k"]
    by (simp add: sub_in_range_def clock_fits_def)
  with assms show ?thesis
    by (simp add: clock_in_range_def timer_ticks_def list_all_iff clock_fits_def del: upt_Suc)
qed

lemma abs_click_inj: "inj abs_click"
  by (rule injI) (simp add: abs_click_def sint_qint64_inject)

section \<open>Properties\<close>

text \<open>
  With the timer firing on its schedule and no other event, a
  click is in the log after each of the first 60 ticks and in no log from the
  61st tick on: a dot disappears 3050 ms after its click.
\<close>

theorem dot_lifetime:
  assumes "clock_fits t n"
  shows "m_clicks (widget (app_exec
             ((t, MousePress p)
              # timer_ticks (interval (m_cleanupTimer (widget (main_start t0 :: 'q world)))) t n)
             (main_start t0 :: 'q world)))
         = (if n \<le> 60 then [\<lparr>pos = p, timestamp = t\<rparr>] else [])"
proof -
  let ?run = "(t, MousePress p) # timer_ticks 50 t n"
  have "map abs_click (m_clicks (widget (app_exec ?run (main_start t0))))
        = expected_log (delivered ((sint t, Press p) # ticks_after (sint t) n))"
    using abs_world_app_exec [OF ready_main_start clock_in_range_press_ticks [OF assms], of p t0]
      click_log_spec_exec [OF in_time_order_press_ticks, of "sint t" p n]
    by (simp add: click_log_abs_world [symmetric] abs_trace_press_ticks [OF assms])
  also have "\<dots> = map abs_click (if n \<le> 60 then [\<lparr>pos = p, timestamp = t\<rparr>] else [])"
    by (simp add: expected_log_press_ticks abs_click_def)
  finally show ?thesis
    by (simp add: inj_map_eq_map [OF abs_click_inj])
qed

theorem dot_lifetime_witness:
  "clock_fits 1000 61
   \<and> m_clicks (widget (app_exec
        ((1000, MousePress \<lparr>xp = 5, yp = 5\<rparr>)
         # timer_ticks (interval (m_cleanupTimer (widget (main_start 0 :: int world)))) 1000 61)
        (main_start 0 :: int world))) = []"
  using dot_lifetime [of 1000 61 "\<lparr>xp = 5, yp = 5\<rparr>" 0]
  by (simp add: clock_fits_def sub_in_range_def)

end
