(* ===== verification/Repaint.thy ===== *)
theory Repaint
  imports Click_Lifetime
begin

text \<open>
  The event loop with its repaints. \<open>QWidget::update()\<close> does not paint: it
  posts a request, and the event loop calls \<open>paintEvent\<close> when control is
  back with it and it has nothing else to deliver, once for any number of
  requests. \<open>process_updates\<close> is this service of a pending request.
  \<open>app_exec_auto\<close> is the event loop that performs it: a run is a list of
  batches, each batch the events (presses, timeouts, paint events of the
  window system, the close event) that the loop delivers one after the other
  before it serves the pending request, and the repaints follow from the
  requests of the handlers. A repaint reads the clock as the last handler
  before it did.

  \<open>settled\<close> holds of a state in which no repaint is pending and the screen
  shows the log; \<open>loop_inv\<close> is the invariant of the loop. \<open>with_paints\<close>
  is the list of events that \<open>app_exec\<close> has to be given to run as
  \<open>app_exec_auto\<close> does. \<open>pressed\<close> lists the clicks of the presses of a
  run and \<open>last_clock\<close> is the clock reading of its last event.

  The lemmas show that the loop leaves every state settled while the window
  is open (\<open>app_exec_auto_settled\<close>), that it is the run of \<open>app_exec\<close> with
  a paint after every batch (\<open>app_exec_auto_paints\<close>) and so a run of the
  abstract tracker (\<open>app_exec_auto_refines\<close>), and that the log after
  a run with a monotone clock holds the presses that are at most 3000 ms old
  at the last event (\<open>log_app_exec_auto\<close>); the properties state this of the
  runs from the start of \<open>main\<close>, and give the time a dot is on the screen
  when the timer alone drives the program.
\<close>

section \<open>Serving the requests for a repaint\<close>

definition process_updates :: "'q world \<Rightarrow> 'q world" where
  "process_updates s =
     (if updatePending (widget s) \<and> deliverable Paint s then dispatch Paint s else s)"

fun app_exec_auto :: "(qint64 \<times> 'q event) list list \<Rightarrow> 'q world \<Rightarrow> 'q world" where
  "app_exec_auto [] s = process_updates s"
| "app_exec_auto (b # bs) s = app_exec_auto bs (app_exec b (process_updates s))"

definition paints :: "(qint64 \<times> 'q event) list list \<Rightarrow> (qint64 \<times> 'q event) list" where
  "paints bs = concat (map (\<lambda>b. if b = [] then [] else b @ [(fst (last b), Paint)]) bs)"

definition with_paints ::
  "qint64 \<Rightarrow> (qint64 \<times> 'q event) list list \<Rightarrow> (qint64 \<times> 'q event) list" where
  "with_paints t0 bs = (t0, Paint) # paints bs"

fun click_of :: "qint64 \<times> 'q event \<Rightarrow> 'q ClickPoint list" where
  "click_of (t, MousePress p) = [\<lparr>pos = p, timestamp = t\<rparr>]"
| "click_of (t, e) = []"

definition pressed :: "(qint64 \<times> 'q event) list \<Rightarrow> 'q ClickPoint list" where
  "pressed evs = concat (map click_of evs)"

definition last_clock :: "qint64 \<Rightarrow> (qint64 \<times> 'q event) list \<Rightarrow> qint64" where
  "last_clock t0 evs = last (t0 # map fst evs)"

definition settled :: "'q world \<Rightarrow> bool" where
  "settled s \<longleftrightarrow>
     \<not> updatePending (widget s) \<and> screen s = render_spec (m_clicks (widget s))"

definition loop_inv :: "'q world \<Rightarrow> bool" where
  "loop_inv s \<longleftrightarrow> shown_while_running s \<and> screen_current s"

section \<open>One iteration of the loop\<close>

lemma exit_code_process_updates [simp]: "exit_code (process_updates s) = exit_code s"
  by (simp add: process_updates_def)

lemma clock_process_updates [simp]: "clock (process_updates s) = clock s"
  by (simp add: process_updates_def)

lemma ready_process_updates [simp]: "ready s \<Longrightarrow> ready (process_updates s)"
  by (simp add: process_updates_def ready_dispatch del: dispatch_Paint_eq)

lemma process_updates_idem [simp]: "process_updates (process_updates s) = process_updates s"
  by (simp add: process_updates_def)

lemma loop_inv_clock [simp]: "loop_inv (s\<lparr>clock := t\<rparr>) = loop_inv s"
  by (simp add: loop_inv_def shown_while_running_def screen_current_def)

lemma loop_inv_dispatch: "loop_inv s \<Longrightarrow> deliverable e s \<Longrightarrow> loop_inv (dispatch e s)"
  by (simp add: loop_inv_def shown_while_running_dispatch screen_current_dispatch)

lemma loop_inv_app_exec: "loop_inv s \<Longrightarrow> loop_inv (app_exec evs s)"
  by (induction evs s rule: app_exec.induct) (simp_all add: loop_inv_dispatch)

lemma loop_inv_process_updates: "loop_inv s \<Longrightarrow> loop_inv (process_updates s)"
  by (simp add: process_updates_def loop_inv_dispatch del: dispatch_Paint_eq)

lemma settled_process_updates:
  "loop_inv s \<Longrightarrow> exit_code s = None \<Longrightarrow> settled (process_updates s)"
  by (auto simp: loop_inv_def settled_def process_updates_def shown_while_running_def
      screen_current_def shown_eq)

lemma loop_inv_main_start: "loop_inv (main_start t0)"
  by (simp add: loop_inv_def shown_while_running_def screen_current_def)

lemma app_exec_auto_snoc:
  "app_exec_auto (bs @ [b]) s = process_updates (app_exec b (app_exec_auto bs s))"
  by (induction bs s rule: app_exec_auto.induct) simp_all

lemma loop_inv_app_exec_auto: "loop_inv s \<Longrightarrow> loop_inv (app_exec_auto bs s)"
  by (induction bs s rule: app_exec_auto.induct)
     (simp_all add: loop_inv_app_exec loop_inv_process_updates)

lemma app_exec_auto_settled:
  assumes "loop_inv s" and "exit_code (app_exec_auto bs s) = None"
  shows "settled (app_exec_auto bs s)"
proof (cases bs rule: rev_cases)
  case Nil
  with assms show ?thesis by (simp add: settled_process_updates)
next
  case (snoc bs' b)
  with assms show ?thesis
    by (simp add: app_exec_auto_snoc settled_process_updates loop_inv_app_exec
        loop_inv_app_exec_auto)
qed

section \<open>The loop as a run with its paints\<close>

lemma ready_app_exec: "ready s \<Longrightarrow> ready (app_exec evs s)"
  by (induction evs s rule: app_exec.induct) (simp_all add: ready_dispatch)

lemma loop_body_paints:
  assumes "ready s"
  shows "process_updates (app_exec [(t, e)] s) = app_exec [(t, e), (t, Paint)] s"
proof (cases "exit_code s = None")
  case True
  with assms have "visible (widget s)" and "active (m_cleanupTimer (widget s))"
    by (auto simp: ready_def shown_while_running_def)
  with True show ?thesis
    by (cases e)
       (simp_all add: process_updates_def shown_eq pruneOldClicks_updatePending pruneOldClicks_eq)
next
  case False
  with assms have "\<not> deliverable e' (s\<lparr>clock := t\<rparr>)" for e'
    by (simp add: ready_deliverable)
  then show ?thesis by (simp add: process_updates_def)
qed

lemma batch_paints:
  assumes "ready s" and "b \<noteq> []"
  shows "process_updates (app_exec b s) = app_exec (b @ [(fst (last b), Paint)]) s"
proof -
  from assms(2) obtain b' t e where b: "b = b' @ [(t, e)]"
    by (cases b rule: rev_cases) auto
  from assms(1) have "ready (app_exec b' s)" by (rule ready_app_exec)
  from loop_body_paints [OF this, of t e] show ?thesis
    unfolding b by (simp add: app_exec_append del: app_exec.simps)
qed

lemma app_exec_auto_paints:
  "ready s \<Longrightarrow> app_exec_auto bs s = app_exec (paints bs) (process_updates s)"
proof (induction bs arbitrary: s)
  case Nil
  show ?case by (simp add: paints_def)
next
  case (Cons b bs)
  let ?s = "process_updates s"
  from Cons.prems have r: "ready ?s" by simp
  then have "app_exec_auto bs (app_exec b ?s)
             = app_exec (paints bs) (process_updates (app_exec b ?s))"
    by (intro Cons.IH ready_app_exec)
  also have "process_updates (app_exec b ?s)
             = app_exec (if b = [] then [] else b @ [(fst (last b), Paint)]) ?s"
    by (simp add: batch_paints [OF r] del: app_exec.simps) simp
  finally show ?case
    by (simp add: paints_def app_exec_append del: app_exec.simps)
qed

lemma process_updates_main_start:
  "process_updates (main_start t0) = app_exec [(t0, Paint)] (main_start t0)"
  by (simp add: process_updates_def main_start_def QWidget_show_def)

lemma app_exec_auto_refines:
  assumes "ready s" and "clock_in_range (paints bs)"
  shows "abs_world (app_exec_auto bs s)
         = spec_exec (abs_trace (paints bs)) (abs_world (process_updates s))"
  using abs_world_app_exec [OF ready_process_updates [OF assms(1)] assms(2)]
    app_exec_auto_paints [OF assms(1), of bs]
  by simp

section \<open>The log after a run of the loop\<close>

lemma app_exec_auto_process_updates [simp]:
  "app_exec_auto bs (process_updates s) = app_exec_auto bs s"
  by (cases bs) simp_all

lemma process_updates_app_exec_auto [simp]:
  "process_updates (app_exec_auto bs s) = app_exec_auto bs s"
  by (cases bs rule: rev_cases) (simp_all add: app_exec_auto_snoc)

lemma app_exec_auto_nonempty:
  "app_exec_auto (filter (\<lambda>b. b \<noteq> []) bs) s = app_exec_auto bs s"
proof (induction bs arbitrary: s)
  case Nil
  show ?case by simp
next
  case (Cons b bs)
  from Cons.IH [of "process_updates s"] Cons.IH [of "app_exec b (process_updates s)"]
  show ?case by (cases "b = []") simp_all
qed

lemma ready_app_exec_auto: "ready s \<Longrightarrow> ready (app_exec_auto bs s)"
  by (induction bs s rule: app_exec_auto.induct) (simp_all add: ready_app_exec)

lemma exit_code_app_exec_open:
  "Close \<notin> snd ` set evs \<Longrightarrow> exit_code (app_exec evs s) = exit_code s"
  by (induction evs s rule: app_exec.induct) auto

lemma exit_code_app_exec_auto:
  "Close \<notin> snd ` set (concat bs) \<Longrightarrow> exit_code (app_exec_auto bs s) = exit_code s"
  by (induction bs s rule: app_exec_auto.induct) (auto simp: exit_code_app_exec_open image_Un)

lemma pressed_simps [simp]:
  "pressed [] = []"
  "pressed (te # evs) = click_of te @ pressed evs"
  "pressed (xs @ ys) = pressed xs @ pressed ys"
  by (simp_all add: pressed_def)

lemma last_clock_simps [simp]:
  "last_clock t0 [] = t0"
  "last_clock t0 ((t, e) # evs) = last_clock t evs"
  "last_clock t0 (evs @ [(t, e)]) = t"
  by (simp_all add: last_clock_def)

lemma last_clock_append: "ys \<noteq> [] \<Longrightarrow> last_clock t0 (xs @ ys) = fst (last ys)"
  by (simp add: last_clock_def last_map)

lemma log_dispatch:
  assumes "ready s" and "exit_code s = None" and "e \<noteq> Close" and "sub_in_range (clock s) 3000"
    and "clock s \<le>s T"
  shows "filter (fresh T) (m_clicks (widget (dispatch e s)))
         = filter (fresh T) (m_clicks (widget s) @ click_of (clock s, e))"
  using assms
  by (cases e)
     (simp_all add: m_clicks_pruneOldClicks_fresh filter_fresh_absorb del: filter_filter)

lemma log_app_exec_upto:
  assumes "ready s" and "exit_code s = None" and "Close \<notin> snd ` set evs"
    and "clock_in_range evs" and "list_all (\<lambda>te. fst te \<le>s T) evs"
  shows "filter (fresh T) (m_clicks (widget (app_exec evs s)))
         = filter (fresh T) (m_clicks (widget s) @ pressed evs)"
  using assms
proof (induction evs arbitrary: s)
  case Nil
  show ?case by simp
next
  case (Cons ev evs)
  obtain t e where ev: "ev = (t, e)" by (cases ev)
  let ?s = "s\<lparr>clock := t\<rparr>"
  from Cons.prems ev have r: "ready ?s" and run: "exit_code ?s = None" and e: "e \<noteq> Close"
    and t: "sub_in_range (clock ?s) 3000" "clock ?s \<le>s T"
    and rest: "Close \<notin> snd ` set evs" "clock_in_range evs" "list_all (\<lambda>te. fst te \<le>s T) evs"
    by (auto simp: clock_in_range_def)
  from r run have d: "deliverable e ?s" by (simp add: ready_deliverable)
  from e run have "exit_code (dispatch e ?s) = None" by simp
  from Cons.IH [OF ready_dispatch [OF r] this rest] log_dispatch [OF r run e t] d ev
  show ?case by simp
qed

lemma log_loop_body:
  assumes "ready s" and "exit_code s = None" and "e \<noteq> Close" and "sub_in_range t 3000"
  shows "m_clicks (widget (process_updates (app_exec [(t, e)] s)))
         = filter (fresh t) (m_clicks (widget s) @ click_of (t, e))"
proof -
  from assms(1,2) have "visible (widget s)" and "active (m_cleanupTimer (widget s))"
    by (auto simp: ready_def shown_while_running_def)
  with assms show ?thesis
    by (cases e) (simp_all add: process_updates_def m_clicks_pruneOldClicks_fresh)
qed

lemma log_batch:
  assumes "ready s" and "exit_code s = None" and "Close \<notin> snd ` set b"
    and "clock_in_range b" and "clock_monotone b" and "b \<noteq> []"
  shows "m_clicks (widget (process_updates (app_exec b s)))
         = filter (fresh (fst (last b))) (m_clicks (widget s) @ pressed b)"
proof -
  from assms(6) obtain b' t e where b: "b = b' @ [(t, e)]"
    by (cases b rule: rev_cases) auto
  let ?s = "app_exec b' s"
  from assms b have pre: "Close \<notin> snd ` set b'" "clock_in_range b'"
    "list_all (\<lambda>te. fst te \<le>s t) b'" and e: "e \<noteq> Close" and t: "sub_in_range t 3000"
    by (auto simp: clock_in_range_def clock_monotone_def sorted_wrt_append list_all_iff)
  from assms(2) pre(1) have run: "exit_code ?s = None"
    by (simp add: exit_code_app_exec_open)
  from log_loop_body [OF ready_app_exec [OF assms(1)] run e t]
    log_app_exec_upto [OF assms(1,2) pre]
  show ?thesis unfolding b by (simp add: app_exec_append del: app_exec.simps)
qed

lemma filter_fresh_pressed:
  assumes "clock_monotone (xs @ ys)" and "ys \<noteq> []"
  shows "filter (fresh (fst (last ys))) (filter (fresh (last_clock t0 xs)) (pressed xs))
         = filter (fresh (fst (last ys))) (pressed xs)"
proof (cases xs rule: rev_cases)
  case Nil
  then show ?thesis by simp
next
  case (snoc xs' te)
  with assms have "last_clock t0 xs \<le>s fst (last ys)"
    by (cases te) (simp add: clock_monotone_def sorted_wrt_append)
  then show ?thesis by (rule filter_fresh_absorb)
qed

lemma log_app_exec_auto:
  assumes "clock_in_range (concat bs)" and "clock_monotone (concat bs)"
    and "Close \<notin> snd ` set (concat bs)"
  shows "m_clicks (widget (app_exec_auto bs (main_start t0)))
         = filter (fresh (last_clock t0 (concat bs))) (pressed (concat bs))"
  using assms
proof (induction bs rule: rev_induct)
  case Nil
  show ?case by (simp add: process_updates_def m_clicks_pruneOldClicks)
next
  case (snoc b bs)
  let ?s = "app_exec_auto bs (main_start t0)"
  from snoc.prems have pre: "clock_in_range (concat bs)" "clock_monotone (concat bs)"
    "Close \<notin> snd ` set (concat bs)"
    and b: "Close \<notin> snd ` set b" "clock_in_range b" "clock_monotone b"
    by (auto simp: clock_in_range_def clock_monotone_def sorted_wrt_append)
  show ?case
  proof (cases "b = []")
    case True
    with snoc.IH [OF pre] show ?thesis by (simp add: app_exec_auto_snoc)
  next
    case False
    have "filter (fresh (fst (last b))) (filter (fresh (last_clock t0 (concat bs)))
                 (pressed (concat bs))) = filter (fresh (fst (last b))) (pressed (concat bs))"
      using snoc.prems(2) False by (intro filter_fresh_pressed) simp_all
    moreover have "m_clicks (widget (process_updates (app_exec b ?s)))
        = filter (fresh (fst (last b))) (m_clicks (widget ?s) @ pressed b)"
      using pre(3) b False
      by (intro log_batch ready_app_exec_auto) (simp_all add: exit_code_app_exec_auto)
    ultimately show ?thesis
      using snoc.IH [OF pre] False
      by (simp add: app_exec_auto_snoc last_clock_append del: filter_filter)
  qed
qed

lemma log_app_exec_auto_pruned:
  assumes "sub_in_range (last_clock t0 (concat bs)) 3000" and "Close \<notin> snd ` set (concat bs)"
  shows "list_all (fresh (last_clock t0 (concat bs)))
           (m_clicks (widget (app_exec_auto bs (main_start t0))))"
proof -
  let ?bs = "filter (\<lambda>b. b \<noteq> []) bs"
  have c: "concat ?bs = concat bs" by (induction bs) simp_all
  show ?thesis
  proof (cases ?bs rule: rev_cases)
    case Nil
    with app_exec_auto_nonempty [of bs "main_start t0"]
    have "app_exec_auto bs (main_start t0) = process_updates (main_start t0)" by simp
    then show ?thesis by (simp add: process_updates_def m_clicks_pruneOldClicks)
  next
    case (snoc bs' b)
    then have "b \<in> set ?bs" by simp
    then obtain b' t e where b: "b = b' @ [(t, e)]"
      by (cases b rule: rev_cases) auto
    let ?s = "app_exec b' (app_exec_auto bs' (main_start t0))"
    from c snoc b have evs: "concat bs = concat bs' @ b' @ [(t, e)]" by simp
    with assms have t: "last_clock t0 (concat bs) = t" "sub_in_range t 3000"
      and run: "Close \<notin> snd ` set (concat bs')" "Close \<notin> snd ` set b'" "e \<noteq> Close"
      by (auto simp: last_clock_def)
    then have "m_clicks (widget (process_updates (app_exec [(t, e)] ?s)))
        = filter (fresh t) (m_clicks (widget ?s) @ click_of (t, e))"
      by (intro log_loop_body ready_app_exec ready_app_exec_auto)
         (simp_all add: exit_code_app_exec_auto exit_code_app_exec_open)
    with app_exec_auto_nonempty [of bs "main_start t0"] snoc b t(1) show ?thesis
      by (auto simp: app_exec_auto_snoc app_exec_append list_all_iff simp del: app_exec.simps)
  qed
qed

section \<open>The timer alone\<close>

lemma clock_monotone_iff: "clock_monotone evs \<longleftrightarrow> in_time_order (abs_trace evs)"
  by (simp add: clock_monotone_def in_time_order_def abs_trace_def comp_def sorted_map
      sorted_wrt_map word_sle_eq)

lemma clock_monotone_press_ticks:
  "clock_fits t n \<Longrightarrow> clock_monotone ((t, MousePress p) # timer_ticks 50 t n)"
  by (simp only: clock_monotone_iff abs_trace_press_ticks in_time_order_press_ticks)

lemma timer_ticks_only_ticks [simp]:
  "pressed (timer_ticks iv t n) = []"
  "Close \<notin> snd ` set (timer_ticks iv t n)"
  by (auto simp: pressed_def timer_ticks_def comp_def simp del: upt_Suc)

lemma last_clock_timer_ticks [simp]:
  "last_clock t (timer_ticks iv t n) = t + scast iv * of_nat n"
  by (cases n) (simp_all add: last_clock_def timer_ticks_def last_map del: upt_Suc)

lemma fresh_after_ticks:
  "clock_fits t n \<Longrightarrow> fresh (t + 50 * of_nat n) \<lparr>pos = p, timestamp = t\<rparr> \<longleftrightarrow> n \<le> 60"
  using sint_tick [of t n n] by (simp add: fresh_def age_def)

section \<open>Properties\<close>

text \<open>
  C4 (invariant). The screen is redrawn after every batch of events. Whenever
  the event loop is idle with the window open, after any events in any
  batches and for any behaviour of the clock, no repaint is pending and the
  screen shows the rendering of the log as it is now: the requests of
  \<open>mousePressEvent\<close> and of the timer's lambda are served, and no handler
  changes the log without a request.
\<close>

theorem screen_redrawn_when_idle:
  assumes "exit_code (app_exec_auto bs (main_start t0)) = None"
  shows "\<not> updatePending (widget (app_exec_auto bs (main_start t0)))
    \<and> screen (app_exec_auto bs (main_start t0))
      = render_spec (m_clicks (widget (app_exec_auto bs (main_start t0))))"
  using app_exec_auto_settled [OF loop_inv_main_start assms] by (simp add: settled_def)

theorem screen_redrawn_when_idle_witness:
  "exit_code (app_exec_auto
      [[(0, MousePress \<lparr>xp = 1, yp = 1\<rparr>), (10, MousePress \<lparr>xp = 2, yp = 2\<rparr>)], [(50, Timeout)]]
      (main_start 0 :: int world)) = None
   \<and> screen (app_exec_auto
      [[(0, MousePress \<lparr>xp = 1, yp = 1\<rparr>), (10, MousePress \<lparr>xp = 2, yp = 2\<rparr>)], [(50, Timeout)]]
      (main_start 0 :: int world))
     = [dot dodger_blue 8 (click_at 1 1 0), dot crimson 10 (click_at 2 2 10)]"
  using screen_redrawn_when_idle
    [of "[[(0, MousePress \<lparr>xp = 1, yp = 1\<rparr>), (10, MousePress \<lparr>xp = 2, yp = 2\<rparr>)], [(50, Timeout)]]"
        "0 :: qint64"]
  by (simp add: process_updates_def run_simps click_at_def)

text \<open>
  C6 (functional). What the window shows. After a run with a clock in range
  that never steps back, while the window is open, the log holds exactly the
  presses of the run that were at most 3000 ms old at its last event, in the
  order of their arrival, and the screen shows their rendering, however the
  events fell into batches.
\<close>

theorem screen_shows_recent_presses:
  assumes "clock_in_range (concat bs)" and "clock_monotone (concat bs)"
    and "Close \<notin> snd ` set (concat bs)"
  shows "m_clicks (widget (app_exec_auto bs (main_start t0)))
         = filter (fresh (last_clock t0 (concat bs))) (pressed (concat bs))
    \<and> screen (app_exec_auto bs (main_start t0))
      = render_spec (filter (fresh (last_clock t0 (concat bs))) (pressed (concat bs)))"
proof -
  from assms(3) have "exit_code (app_exec_auto bs (main_start t0)) = None"
    by (simp add: exit_code_app_exec_auto)
  from app_exec_auto_settled [OF loop_inv_main_start this] log_app_exec_auto [OF assms, of t0]
  show ?thesis by (simp add: settled_def)
qed

theorem screen_shows_recent_presses_witness:
  "clock_in_range (concat [take 2 sample_run, take 2 (drop 2 sample_run)])
   \<and> clock_monotone (concat [take 2 sample_run, take 2 (drop 2 sample_run)])
   \<and> Close \<notin> snd ` set (concat [take 2 sample_run, take 2 (drop 2 sample_run)])
   \<and> screen (app_exec_auto [take 2 sample_run, take 2 (drop 2 sample_run)] (main_start 0))
     = [dot crimson 10 (click_at 2 2 1000)]"
  using screen_shows_recent_presses [of "[take 2 sample_run, take 2 (drop 2 sample_run)]" 0]
  by (simp add: sample_run_def clock_in_range_def clock_monotone_def sub_in_range_def word_sle_eq
      fresh_def age_def render_spec_def click_at_def)

text \<open>
  C15 (safety). Bounded staleness, for any behaviour of the clock. While the
  window is open and the loop is idle, at a clock reading \<open>now\<close> that is at
  most \<open>d\<close> ms after the reading of the last event, no click in the log is
  older than \<open>3000 + d\<close> ms: with the timer firing every 50 ms, no dot is on
  the screen for more than 3050 ms.
\<close>

theorem age_bounded_between_events:
  assumes "sub_in_range (last_clock t0 (concat bs)) 3000" and "Close \<notin> snd ` set (concat bs)"
    and "sint now - sint (last_clock t0 (concat bs)) \<le> d"
  shows "list_all (\<lambda>c. age now c \<le> 3000 + d)
           (m_clicks (widget (app_exec_auto bs (main_start t0))))"
  using log_app_exec_auto_pruned [OF assms(1,2)] assms(3)
  by (auto simp: list_all_iff fresh_def age_def)

theorem age_bounded_between_events_witness:
  "sub_in_range (last_clock 0 (concat
      [[(1000, MousePress \<lparr>xp = 1 :: int, yp = 1\<rparr>), (3900, MousePress \<lparr>xp = 2, yp = 2\<rparr>)],
       [(4050, Timeout)]])) 3000
   \<and> Close \<notin> snd ` set (concat
      [[(1000 :: qint64, MousePress \<lparr>xp = 1 :: int, yp = 1\<rparr>), (3900, MousePress \<lparr>xp = 2, yp = 2\<rparr>)],
       [(4050, Timeout)]])
   \<and> sint (4100 :: qint64) - sint (last_clock 0 (concat
      [[(1000, MousePress \<lparr>xp = 1 :: int, yp = 1\<rparr>), (3900, MousePress \<lparr>xp = 2, yp = 2\<rparr>)],
       [(4050, Timeout)]])) \<le> 50
   \<and> list_all (\<lambda>c. age 4100 c \<le> 3000 + 50)
        (m_clicks (widget (app_exec_auto
           [[(1000, MousePress \<lparr>xp = 1 :: int, yp = 1\<rparr>), (3900, MousePress \<lparr>xp = 2, yp = 2\<rparr>)],
            [(4050, Timeout)]] (main_start 0))))"
  using age_bounded_between_events
    [of 0 "[[(1000, MousePress \<lparr>xp = 1 :: int, yp = 1\<rparr>), (3900, MousePress \<lparr>xp = 2, yp = 2\<rparr>)],
            [(4050, Timeout)]]" 4100 50]
  by (simp add: sub_in_range_def)

text \<open>
  C20 (equivalence). The event loop with its repaints is the plain event
  loop run on the same events with a paint event at the start and one after
  every batch, at the clock reading of the last event of the batch: the two
  end in the same state, whatever the events and the clock.
\<close>

theorem auto_loop_is_run_with_paints:
  "app_exec_auto bs (main_start t0) = app_exec (with_paints t0 bs) (main_start t0)"
  using app_exec_auto_paints [OF ready_main_start, of bs t0]
  by (simp add: with_paints_def process_updates_main_start app_exec_append [symmetric]
      del: app_exec.simps)

text \<open>
  C23 (liveness). Every dot leaves the screen. With the timer firing every 50
  ms, the interval the constructor sets, and no other event, the dot of a
  click is on the screen, crimson with radius 10, after each of the first 60
  ticks, and the screen is empty from the 61st tick on, that is 3050 ms after
  the click, provided the clock stays in the 64-bit range.
\<close>

theorem dot_leaves_screen:
  assumes "clock_fits t n"
    and "concat bs = (t, MousePress p)
           # timer_ticks (interval (m_cleanupTimer (widget (main_start t0 :: 'q world)))) t n"
  shows "screen (app_exec_auto bs (main_start t0 :: 'q world))
         = (if n \<le> 60 then [dot crimson 10 \<lparr>pos = p, timestamp = t\<rparr>] else [])"
proof -
  let ?evs = "(t, MousePress p) # timer_ticks 50 t n"
  from assms(2) have evs: "concat bs = ?evs" by simp
  then have "exit_code (app_exec_auto bs (main_start t0)) = None"
    by (simp add: exit_code_app_exec_auto)
  from app_exec_auto_settled [OF loop_inv_main_start this]
    log_app_exec_auto [of bs t0] clock_in_range_press_ticks [OF assms(1), of p]
    clock_monotone_press_ticks [OF assms(1), of p]
  show ?thesis
    by (simp add: evs settled_def fresh_after_ticks [OF assms(1)] render_spec_def)
qed

theorem dot_leaves_screen_witness:
  "clock_fits 1000 61
   \<and> concat [[(1000, MousePress \<lparr>xp = 5, yp = 5\<rparr>)],
        timer_ticks (interval (m_cleanupTimer (widget (main_start 0 :: int world)))) 1000 61]
     = (1000, MousePress \<lparr>xp = 5, yp = 5\<rparr>)
       # timer_ticks (interval (m_cleanupTimer (widget (main_start 0 :: int world)))) 1000 61
   \<and> screen (app_exec_auto
        [[(1000, MousePress \<lparr>xp = 5, yp = 5\<rparr>)],
         timer_ticks (interval (m_cleanupTimer (widget (main_start 0 :: int world)))) 1000 61]
        (main_start 0 :: int world)) = []"
  using dot_leaves_screen [of 1000 61
      "[[(1000, MousePress \<lparr>xp = 5, yp = 5\<rparr>)],
        timer_ticks (interval (m_cleanupTimer (widget (main_start 0 :: int world)))) 1000 61]"
      "\<lparr>xp = 5, yp = 5\<rparr>" 0]
  by (simp add: clock_fits_def sub_in_range_def del: app_exec_auto.simps)

end
