(* ===== verification/Checked_Vector.thy ===== *)
theory Checked_Vector
  imports Std_Vector
begin

text \<open>
  The vector operations with their preconditions checked. Where C++ leaves
  the behaviour undefined (an index or iterator out of range, \<open>back()\<close> of an
  empty vector, an invalid range for \<open>erase\<close>) or throws (\<open>push_back\<close> at
  the capacity), the checked operation returns \<open>Inl\<close> of a \<open>fault\<close>; otherwise
  \<open>Inr\<close> of what the unchecked operation of \<open>Std_Vector\<close> returns.
  \<open>and_then\<close> sequences checked operations: the first fault ends the
  computation. The fault \<open>Dangling_Reference\<close>, the use of an iterator or
  reference that an operation has invalidated, is raised by the operations of
  \<open>Vector_Buffer\<close> only: here an iterator is an index and stays one.

  \<open>std_find_if_chk\<close>, \<open>remove_if_loop_chk\<close> and \<open>std_remove_if_chk\<close> are the
  loops of \<open>std::remove_if\<close> over checked iterators. Their guards are the
  comparisons \<open>first != last\<close> of the library; they terminate because a
  dereference at or past \<open>end()\<close> is a fault. The lemmas show that, called on
  a range inside the vector, they raise no fault and return what the
  unchecked loops return.
\<close>

section \<open>Faults\<close>

datatype fault =
  Index_Out_Of_Range | Back_Of_Empty | Invalid_Range | Length_Error | Dangling_Reference

type_synonym 'a checked = "fault + 'a"

definition and_then :: "'a checked \<Rightarrow> ('a \<Rightarrow> 'b checked) \<Rightarrow> 'b checked" where
  "and_then m f = (case m of Inl e \<Rightarrow> Inl e | Inr x \<Rightarrow> f x)"

section \<open>Checked element access\<close>

definition vector_size :: "'a list \<Rightarrow> size_t" where
  "vector_size v = of_nat (length v)"

definition vector_at :: "'a list \<Rightarrow> nat \<Rightarrow> 'a checked" where
  "vector_at v i = (if i < length v then Inr (v ! i) else Inl Index_Out_Of_Range)"

definition vector_assign :: "'a list \<Rightarrow> nat \<Rightarrow> 'a \<Rightarrow> 'a list checked" where
  "vector_assign v i x = (if i < length v then Inr (v[i := x]) else Inl Index_Out_Of_Range)"

definition vector_back_chk :: "'a list \<Rightarrow> 'a checked" where
  "vector_back_chk v = (if v = [] then Inl Back_Of_Empty else Inr (last v))"

definition vector_erase_chk :: "'a list \<Rightarrow> nat \<Rightarrow> nat \<Rightarrow> 'a list checked" where
  "vector_erase_chk v b e =
     (if b \<le> e \<and> e \<le> length v then Inr (vector_erase v b e) else Inl Invalid_Range)"

definition push_back_chk :: "nat \<Rightarrow> 'a list \<Rightarrow> 'a \<Rightarrow> 'a list checked" where
  "push_back_chk cap v x = (if length v < cap then Inr (push_back v x) else Inl Length_Error)"

lemma and_then_Inr [simp]: "and_then (Inr x) f = f x"
  by (simp add: and_then_def)

lemma and_then_Inl [simp]: "and_then (Inl e) f = Inl e"
  by (simp add: and_then_def)

lemma and_then_cong [fundef_cong]:
  assumes "m1 = m2" and "\<And>y. m2 = Inr y \<Longrightarrow> f1 y = f2 y"
  shows "and_then m1 f1 = and_then m2 f2"
  using assms by (cases m1) (auto simp: and_then_def)

lemma and_then_assoc: "and_then (and_then m f) g = and_then m (\<lambda>x. and_then (f x) g)"
  by (cases m) simp_all

lemma and_then_eq_Inr_iff:
  "and_then m f = Inr y \<longleftrightarrow> (\<exists>x. m = Inr x \<and> f x = Inr y)"
  by (cases m) simp_all

lemma vector_at_Inr_iff: "vector_at v i = Inr x \<longleftrightarrow> i < length v \<and> x = v ! i"
  by (auto simp: vector_at_def)

lemma vector_at_in_range [simp]: "i < length v \<Longrightarrow> vector_at v i = Inr (v ! i)"
  by (simp add: vector_at_def)

lemma vector_at_out_of_range [simp]: "length v \<le> i \<Longrightarrow> vector_at v i = Inl Index_Out_Of_Range"
  by (simp add: vector_at_def)

lemma vector_assign_Inr_iff:
  "vector_assign v i x = Inr v' \<longleftrightarrow> i < length v \<and> v' = v[i := x]"
  by (auto simp: vector_assign_def)

lemma vector_assign_in_range [simp]: "i < length v \<Longrightarrow> vector_assign v i x = Inr (v[i := x])"
  by (simp add: vector_assign_def)

section \<open>The remove-if algorithm with checked iterators\<close>

function std_find_if_chk :: "('a \<Rightarrow> bool) \<Rightarrow> 'a list \<Rightarrow> nat \<Rightarrow> nat checked" where
  "std_find_if_chk p v first =
     (if first \<noteq> length v
      then and_then (vector_at v first)
             (\<lambda>x. if \<not> p x then std_find_if_chk p v (Suc first) else Inr first)
      else Inr first)"
  by pat_completeness auto
termination
  by (relation "measure (\<lambda>(p, v, first). length v - first)")
     (auto simp: vector_at_Inr_iff)

function remove_if_loop_chk ::
  "('a \<Rightarrow> bool) \<Rightarrow> 'a list \<Rightarrow> nat \<Rightarrow> nat \<Rightarrow> ('a list \<times> nat) checked" where
  "remove_if_loop_chk p v result first =
     (if first \<noteq> length v
      then and_then (vector_at v first)
             (\<lambda>x. if \<not> p x
                   then and_then (vector_assign v result x)
                          (\<lambda>v'. remove_if_loop_chk p v' (Suc result) (Suc first))
                   else remove_if_loop_chk p v result (Suc first))
      else Inr (v, result))"
  by pat_completeness auto
termination
  by (relation "measure (\<lambda>(p, v, result, first). length v - first)")
     (auto simp: vector_at_Inr_iff vector_assign_Inr_iff)

definition std_remove_if_chk :: "('a \<Rightarrow> bool) \<Rightarrow> 'a list \<Rightarrow> ('a list \<times> nat) checked" where
  "std_remove_if_chk p v =
     and_then (std_find_if_chk p v 0)
       (\<lambda>first. if first = length v then Inr (v, first)
                else remove_if_loop_chk p v first (Suc first))"

declare std_find_if_chk.simps [simp del] remove_if_loop_chk.simps [simp del]

lemma std_find_if_chk_ok:
  "first \<le> length v \<Longrightarrow> std_find_if_chk p v first = Inr (std_find_if p v first)"
proof (induction p v first rule: std_find_if.induct)
  case (1 p v first)
  then show ?case
    by (subst std_find_if_chk.simps, subst std_find_if.simps) auto
qed

lemma std_find_if_chk_past_end:
  "length v < first \<Longrightarrow> std_find_if_chk p v first = Inl Index_Out_Of_Range"
  by (subst std_find_if_chk.simps) simp

lemma remove_if_loop_chk_ok:
  "result < first \<Longrightarrow> first \<le> length v \<Longrightarrow>
   remove_if_loop_chk p v result first = Inr (remove_if_loop p v result first)"
proof (induction p v result first rule: remove_if_loop.induct)
  case (1 p v result first)
  then show ?case
    by (subst remove_if_loop_chk.simps, subst remove_if_loop.simps) auto
qed

lemma std_remove_if_chk_ok: "std_remove_if_chk p v = Inr (std_remove_if p v)"
  using std_find_if_le [of 0 v p]
  by (simp add: std_remove_if_chk_def std_remove_if_def std_find_if_chk_ok remove_if_loop_chk_ok
      Let_def)

end
