(* ===== verification/Memory_Safety.thy ===== *)
theory Memory_Safety
  imports Event_Loop Checked_Vector
begin

text \<open>
  Memory safety of \<open>src/main.cpp\<close>. The vector operations of the program
  have preconditions that C++ does not check: \<open>m_clicks[i]\<close> needs
  \<open>i < size()\<close>, \<open>back()\<close> a non-empty vector, \<open>erase(first, last)\<close> a valid
  range; and \<open>push_back\<close> throws \<open>std::length_error\<close> at the capacity of the
  vector. This theory translates the handlers a second time, each access
  through its checked operation of \<open>Checked_Vector\<close>, so that a violated
  precondition or a throw is the value \<open>Inl\<close> of a fault and ends the handler:

  \<^item> \<open>mousePressEvent_chk\<close>, \<open>pruneOldClicks_chk\<close>, \<open>paintEvent_chk\<close> with
    its loop \<open>paint_blue_loop_chk\<close>, and the timer's lambda
    \<open>cleanupTimer_timeout_chk\<close> follow the source line by line as their
    unchecked models do. The capacity \<open>cap\<close> (\<open>max_size()\<close>, which depends on
    the platform) is a parameter.
  \<^item> The loop index of \<open>paint_blue_loop_chk\<close> is a \<open>size_t\<close>, a 64-bit word,
    and the guard \<open>i + 1 < size()\<close> is the unsigned comparison of words, so
    that wrap-around of \<open>i + 1\<close> is part of the model. The loop terminates
    for every index and every vector: the distance \<open>size() - 1 - i\<close>, taken
    in words, falls with every iteration.
  \<^item> \<open>dispatch_chk\<close> and \<open>app_exec_chk\<close> are the event loop over the checked
    handlers; a fault ends the run.

  The lemmas show that each checked handler returns \<open>Inr\<close> of what its
  unchecked model returns (for \<open>push_back\<close>: below the capacity), and that a
  run of the event loop can only end in the fault \<open>Length_Error\<close>.
  \<open>paint_blue_loop_chk_wraps\<close> shows that the checks are not vacuous: started
  at the index \<open>SIZE_MAX\<close>, the guard \<open>i + 1 < size()\<close> wraps around, holds,
  and the loop reads out of range.
\<close>

section \<open>The handlers with checked access\<close>

definition mousePressEvent_chk ::
  "nat \<Rightarrow> qint64 \<Rightarrow> 'q QMouseEvent \<Rightarrow> 'q ClickWidget \<Rightarrow> ('q ClickWidget \<times> 'q QMouseEvent) checked" where
  "mousePressEvent_chk cap now event w =
     (let point = \<lparr>pos = position event, timestamp = now\<rparr>
      in and_then (push_back_chk cap (m_clicks w) point)
           (\<lambda>v. let w = w\<lparr>m_clicks := v\<rparr>;
                     w = QWidget_update w
                 in Inr (w, QWidget_mousePressEvent event)))"

definition pruneOldClicks_chk :: "qint64 \<Rightarrow> 'q ClickWidget \<Rightarrow> 'q ClickWidget checked" where
  "pruneOldClicks_chk now w =
     (let threshold = now - 3000
      in and_then (std_remove_if_chk (click_is_old threshold) (m_clicks w))
           (\<lambda>(v, it). and_then (vector_erase_chk v it (length v))
                         (\<lambda>v. Inr (w\<lparr>m_clicks := v\<rparr>))))"

function paint_blue_loop_chk :: "'q ClickPoint list \<Rightarrow> size_t \<Rightarrow> 'q paint_call list checked" where
  "paint_blue_loop_chk clicks i =
     (if i + 1 < vector_size clicks
      then and_then (vector_at clicks (unat i))
             (\<lambda>click. and_then (paint_blue_loop_chk clicks (i + 1))
                         (\<lambda>rest. Inr (DrawEllipse (pos click) radius radius # rest)))
      else Inr [])"
  by pat_completeness auto
termination
proof (relation "measure (\<lambda>(clicks, i). unat (vector_size clicks - 1 - i))")
  fix clicks :: "'q ClickPoint list" and i :: size_t
  assume "i + 1 < vector_size clicks"
  then show "((clicks, i + 1), (clicks, i)) \<in> measure (\<lambda>(clicks, i). unat (vector_size clicks - 1 - i))"
    by (simp only: in_measure prod.case word_countdown)
qed simp

definition paintEvent_chk ::
  "qint64 \<Rightarrow> 'q ClickWidget \<Rightarrow> ('q ClickWidget \<times> 'q paint_call list) checked" where
  "paintEvent_chk now w =
     and_then (pruneOldClicks_chk now w)
       (\<lambda>w. let hint = [SetRenderHint Antialiasing True]
             in if \<not> vector_empty (m_clicks w)
                then and_then (paint_blue_loop_chk (m_clicks w) 0)
                       (\<lambda>blue. and_then (vector_back_chk (m_clicks w))
                          (\<lambda>last_click.
                             Inr (w, hint @ [SetPen NoPen, SetBrush (QColor 30 144 255)] @ blue
                                       @ [SetBrush (QColor 220 20 60),
                                          DrawEllipse (pos last_click) (radius + 2) (radius + 2)])))
                else Inr (w, hint))"

definition cleanupTimer_timeout_chk :: "qint64 \<Rightarrow> 'q ClickWidget \<Rightarrow> 'q ClickWidget checked" where
  "cleanupTimer_timeout_chk now w =
     and_then (pruneOldClicks_chk now w) (\<lambda>w. Inr (QWidget_update w))"

section \<open>The event loop with checked handlers\<close>

fun dispatch_chk :: "nat \<Rightarrow> 'q event \<Rightarrow> 'q world \<Rightarrow> 'q world checked" where
  "dispatch_chk cap (MousePress p) s =
     and_then (mousePressEvent_chk cap (clock s) \<lparr>position = p, accepted = True\<rparr> (widget s))
       (\<lambda>(w, event). Inr (s\<lparr>widget := w\<rparr>))"
| "dispatch_chk cap Timeout s =
     and_then (cleanupTimer_timeout_chk (clock s) (widget s)) (\<lambda>w. Inr (s\<lparr>widget := w\<rparr>))"
| "dispatch_chk cap Paint s =
     and_then (paintEvent_chk (clock s) ((widget s)\<lparr>updatePending := False\<rparr>))
       (\<lambda>(w, calls). Inr (s\<lparr>widget := w, screen := paint_run calls\<rparr>))"
| "dispatch_chk cap Close s =
     Inr (s\<lparr>widget := (widget s)\<lparr>visible := False\<rparr>, exit_code := Some 0\<rparr>)"

fun app_exec_chk :: "nat \<Rightarrow> (qint64 \<times> 'q event) list \<Rightarrow> 'q world \<Rightarrow> 'q world checked" where
  "app_exec_chk cap [] s = Inr s"
| "app_exec_chk cap ((t, e) # evs) s =
     (if deliverable e (s\<lparr>clock := t\<rparr>)
      then and_then (dispatch_chk cap e (s\<lparr>clock := t\<rparr>)) (app_exec_chk cap evs)
      else app_exec_chk cap evs (s\<lparr>clock := t\<rparr>))"

fun is_press :: "'q event \<Rightarrow> bool" where
  "is_press (MousePress p) = True"
| "is_press _ = False"

definition log_size :: "'q world \<Rightarrow> nat" where
  "log_size s = length (m_clicks (widget s))"

declare paint_blue_loop_chk.simps [simp del]

section \<open>Each handler against its unchecked model\<close>

lemma mousePressEvent_chk_eq:
  "mousePressEvent_chk cap now event w =
     (if length (m_clicks w) < cap then Inr (mousePressEvent now event w) else Inl Length_Error)"
  by (simp add: mousePressEvent_chk_def mousePressEvent_def push_back_chk_def Let_def)

lemma pruneOldClicks_chk_ok [simp]: "pruneOldClicks_chk now w = Inr (pruneOldClicks now w)"
  using std_remove_if_correct [where p = "click_is_old (now - 3000)" and v = "m_clicks w"]
  by (simp add: pruneOldClicks_chk_def pruneOldClicks_def std_remove_if_chk_ok vector_erase_chk_def
      split: prod.splits)

lemma cleanupTimer_timeout_chk_ok [simp]:
  "cleanupTimer_timeout_chk now w = Inr (cleanupTimer_timeout now w)"
  by (simp add: cleanupTimer_timeout_chk_def cleanupTimer_timeout_def)

lemma size_t_index:
  assumes "length v < 2 ^ 64" and "i < length v \<or> i = 0"
  shows "unat (of_nat i :: size_t) = i"
    and "(of_nat i :: size_t) + 1 < vector_size v \<longleftrightarrow> i + 1 < length v"
proof -
  from assms show "unat (of_nat i :: size_t) = i"
    by (auto simp: unat_of_nat_size_t)
  from assms have "i + 1 < 2 ^ 64" by auto
  then have "unat (of_nat (i + 1) :: size_t) = i + 1"
    by (rule unat_of_nat_size_t)
  moreover have "(of_nat i :: size_t) + 1 = of_nat (i + 1)" by simp
  ultimately show "(of_nat i :: size_t) + 1 < vector_size v \<longleftrightarrow> i + 1 < length v"
    using assms(1) by (simp only: word_less_nat_alt vector_size_def unat_of_nat_size_t)
qed

lemma paint_blue_loop_chk_ok:
  assumes "length clicks < 2 ^ 64" and "i < length clicks \<or> i = 0"
  shows "paint_blue_loop_chk clicks (of_nat i) = Inr (paint_blue_loop clicks i)"
  using assms
proof (induction clicks i rule: paint_blue_loop.induct)
  case (1 clicks i)
  show ?case
  proof (cases "i + 1 < length clicks")
    case True
    with "1.IH" "1.prems" have "paint_blue_loop_chk clicks (of_nat (Suc i)) = Inr (paint_blue_loop clicks (Suc i))"
      by simp
    moreover have "(of_nat i :: size_t) + 1 = of_nat (Suc i)" by simp
    ultimately have "paint_blue_loop_chk clicks (of_nat i + 1) = Inr (paint_blue_loop clicks (Suc i))"
      by (simp only:)
    with True "1.prems" show ?thesis
      by (subst paint_blue_loop_chk.simps, subst paint_blue_loop.simps) (simp add: size_t_index)
  next
    case False
    with "1.prems" show ?thesis
      by (subst paint_blue_loop_chk.simps, subst paint_blue_loop.simps) (simp add: size_t_index)
  qed
qed

lemma paintEvent_chk_ok:
  assumes "length (m_clicks w) < 2 ^ 64"
  shows "paintEvent_chk now w = Inr (paintEvent now w)"
proof -
  have "length (m_clicks (pruneOldClicks now w)) \<le> length (m_clicks w)"
    by (simp add: m_clicks_pruneOldClicks)
  with assms have "length (m_clicks (pruneOldClicks now w)) < 2 ^ 64" by simp
  from paint_blue_loop_chk_ok [OF this, of 0] show ?thesis
    by (simp add: paintEvent_chk_def paintEvent_def vector_back_chk_def Let_def)
qed

lemma paint_blue_loop_chk_wraps:
  "paint_blue_loop_chk [c] (- 1) = Inl Index_Out_Of_Range"
  by (subst paint_blue_loop_chk.simps) (simp add: vector_size_def unsigned_minus_1_eq_mask mask_eq_exp_minus_1)

section \<open>Runs of the event loop\<close>

lemma log_size_clock [simp]: "log_size (s\<lparr>clock := t\<rparr>) = log_size s"
  by (simp add: log_size_def)

lemma log_size_main_start [simp]: "log_size (main_start t0) = 0"
  by (simp add: log_size_def main_start_def QWidget_show_def)

lemma log_size_dispatch:
  "log_size (dispatch e s) \<le> (if is_press e then Suc (log_size s) else log_size s)"
  by (cases e) (simp_all add: log_size_def m_clicks_pruneOldClicks)

lemma dispatch_chk_eq:
  assumes "log_size s < 2 ^ 64"
  shows "dispatch_chk cap e s =
     (if is_press e \<and> cap \<le> log_size s then Inl Length_Error else Inr (dispatch e s))"
  using assms
  by (cases e)
     (simp_all add: log_size_def mousePressEvent_chk_eq paintEvent_chk_ok dispatch.simps(3)
        case_prod_beta del: dispatch_Paint_eq)

lemma app_exec_chk_Cons:
  assumes "log_size s < 2 ^ 64"
  shows "app_exec_chk cap ((t, e) # evs) s =
     (if \<not> deliverable e (s\<lparr>clock := t\<rparr>) then app_exec_chk cap evs (s\<lparr>clock := t\<rparr>)
      else if is_press e \<and> cap \<le> log_size s then Inl Length_Error
      else app_exec_chk cap evs (dispatch e (s\<lparr>clock := t\<rparr>)))"
  using assms by (simp add: dispatch_chk_eq)

lemma app_exec_chk_cases:
  assumes "cap < 2 ^ 64" and "log_size s \<le> cap"
  shows "app_exec_chk cap evs s = Inr (app_exec evs s) \<or> app_exec_chk cap evs s = Inl Length_Error"
  using assms(2)
proof (induction evs arbitrary: s)
  case Nil
  then show ?case by simp
next
  case (Cons ev evs)
  obtain t e where ev: "ev = (t, e)" by (cases ev)
  let ?s = "s\<lparr>clock := t\<rparr>"
  from Cons.prems assms(1) have small: "log_size s < 2 ^ 64" by simp
  have "log_size (dispatch e ?s) \<le> cap" if "\<not> (is_press e \<and> cap \<le> log_size s)"
    using that Cons.prems log_size_dispatch [of e ?s] by (auto split: if_splits)
  with Cons.IH [of "dispatch e ?s"] Cons.IH [of ?s] Cons.prems show ?case
    unfolding ev app_exec_chk_Cons [OF small] by (simp del: app_exec_chk.simps)
qed

lemma app_exec_chk_short:
  assumes "cap < 2 ^ 64" and "log_size s + length (filter (\<lambda>te. is_press (snd te)) evs) \<le> cap"
  shows "app_exec_chk cap evs s = Inr (app_exec evs s)"
  using assms(2)
proof (induction evs arbitrary: s)
  case Nil
  then show ?case by simp
next
  case (Cons ev evs)
  obtain t e where ev: "ev = (t, e)" by (cases ev)
  let ?s = "s\<lparr>clock := t\<rparr>"
  from Cons.prems assms(1) have small: "log_size s < 2 ^ 64" by simp
  from Cons.prems ev have room: "\<not> (is_press e \<and> cap \<le> log_size s)" by auto
  from Cons.prems ev log_size_dispatch [of e ?s]
  have "log_size (dispatch e ?s) + length (filter (\<lambda>te. is_press (snd te)) evs) \<le> cap"
    and "log_size ?s + length (filter (\<lambda>te. is_press (snd te)) evs) \<le> cap"
    by (auto split: if_splits)
  with room Cons.IH [of "dispatch e ?s"] Cons.IH [of ?s] show ?case
    unfolding ev app_exec_chk_Cons [OF small] by (auto simp del: app_exec_chk.simps)
qed

section \<open>Properties\<close>

text \<open>
  C8 (error). No run of the program reads or writes outside its vector. Run
  with every access checked, from the start of \<open>main\<close> and over any events,
  the program either ends in the state the unchecked model computes or stops
  with the \<open>length_error\<close> that \<open>push_back\<close> throws at the capacity of the
  vector; with no more presses than the capacity it always ends in that
  state.
\<close>

theorem runs_fault_only_at_capacity:
  assumes "cap < 2 ^ 64"
  shows "(app_exec_chk cap evs (main_start t0) = Inr (app_exec evs (main_start t0))
           \<or> app_exec_chk cap evs (main_start t0) = Inl Length_Error)
         \<and> (length (filter (\<lambda>te. is_press (snd te)) evs) \<le> cap
              \<longrightarrow> app_exec_chk cap evs (main_start t0) = Inr (app_exec evs (main_start t0)))"
  using app_exec_chk_cases [OF assms, of "main_start t0" evs]
    app_exec_chk_short [OF assms, of "main_start t0" evs]
  by simp

theorem runs_fault_only_at_capacity_witness:
  "(1 :: nat) < 2 ^ 64
   \<and> length (filter (\<lambda>te. is_press (snd te))
         [(0 :: qint64, MousePress \<lparr>xp = 1 :: int, yp = 1\<rparr>), (10, Paint)]) \<le> 1
   \<and> app_exec_chk 1 [(0, MousePress \<lparr>xp = 1, yp = 1\<rparr>), (10, Paint)] (main_start 0 :: int world)
       = Inr (app_exec [(0, MousePress \<lparr>xp = 1, yp = 1\<rparr>), (10, Paint)] (main_start 0))
   \<and> app_exec_chk 1 [(0, MousePress \<lparr>xp = 1, yp = 1\<rparr>), (10, Paint), (20, MousePress \<lparr>xp = 2, yp = 2\<rparr>)]
        (main_start 0 :: int world) = Inl Length_Error"
proof -
  have full: "app_exec_chk 1 [(0, MousePress \<lparr>xp = 1, yp = 1\<rparr>), (10, Paint), (20, MousePress \<lparr>xp = 2, yp = 2\<rparr>)]
        (main_start 0 :: int world) = Inl Length_Error"
    by (simp add: app_exec_chk_Cons log_size_def m_clicks_pruneOldClicks word_sless_alt
        del: app_exec_chk.simps(2))
  have "app_exec_chk 1 [(0, MousePress \<lparr>xp = 1, yp = 1\<rparr>), (10, Paint)] (main_start 0 :: int world)
       = Inr (app_exec [(0, MousePress \<lparr>xp = 1, yp = 1\<rparr>), (10, Paint)] (main_start 0))"
    using runs_fault_only_at_capacity
      [of 1 "[(0, MousePress \<lparr>xp = 1 :: int, yp = 1\<rparr>), (10, Paint)]" "0 :: qint64"]
    by (simp del: app_exec_chk.simps app_exec.simps)
  with full show ?thesis by (simp del: app_exec_chk.simps app_exec.simps)
qed

text \<open>
  C14 (error). Painting stays inside the vector: with every \<open>operator[]\<close> and
  \<open>back()\<close> checked and the loop index a 64-bit \<open>size_t\<close>, \<open>paintEvent\<close>
  raises no fault and returns what the unchecked model returns, for every
  log a vector can hold.
\<close>

theorem paintEvent_never_faults:
  assumes "length (m_clicks w) < 2 ^ 64"
  shows "paintEvent_chk now w = Inr (paintEvent now w)"
  using assms by (rule paintEvent_chk_ok)

theorem paintEvent_never_faults_witness:
  "length (m_clicks (widget_with [click_at 1 1 0, click_at 2 2 500 :: int ClickPoint])) < 2 ^ 64
   \<and> paintEvent_chk 1000 (widget_with [click_at 1 1 0, click_at 2 2 500 :: int ClickPoint])
     = Inr (paintEvent 1000 (widget_with [click_at 1 1 0, click_at 2 2 500]))"
  using paintEvent_never_faults [of "widget_with [click_at 1 1 0, click_at 2 2 500 :: int ClickPoint]" 1000]
  by simp

text \<open>
  C19 (error). Pruning stays inside the vector: the loops of \<open>std::remove_if\<close>
  read and write only below \<open>end()\<close>, the iterator they return and \<open>end()\<close>
  are a valid range for \<open>erase\<close>, and the checked routines return what the
  unchecked models return.
\<close>

theorem pruneOldClicks_never_faults:
  "std_remove_if_chk (click_is_old (now - 3000)) (m_clicks w)
     = Inr (std_remove_if (click_is_old (now - 3000)) (m_clicks w))
   \<and> pruneOldClicks_chk now w = Inr (pruneOldClicks now w)"
  by (simp add: std_remove_if_chk_ok)


end
