(* ===== verification/Bounded_Load.thy ===== *)
theory Bounded_Load
  imports Repaint Memory_Safety
begin

text \<open>
  Memory in long runs. The checked event loop of \<open>Memory_Safety\<close> with the
  service of the repaint requests of \<open>Repaint\<close>: \<open>process_updates_chk\<close> and
  \<open>app_exec_auto_chk\<close> are \<open>process_updates\<close> and \<open>app_exec_auto\<close> over the
  checked handlers, with the capacity \<open>cap\<close> of the vector as a parameter.

  \<open>load t0 bs k\<close> is the number of clicks the vector has to hold during
  batch \<open>k\<close> of a run: the presses before the batch that are at most 3000 ms
  old at its start, and the presses of the batch. \<open>load_fits\<close> says that
  no batch of a run needs more than the capacity.

  The lemmas show that the checked loop ends as the unchecked one as long as
  the load fits: what limits a run is the rate of the presses, not its
  length.
\<close>

section \<open>The checked loop with its repaints\<close>

definition process_updates_chk :: "nat \<Rightarrow> 'q world \<Rightarrow> 'q world checked" where
  "process_updates_chk cap s =
     (if updatePending (widget s) \<and> deliverable Paint s then dispatch_chk cap Paint s else Inr s)"

fun app_exec_auto_chk ::
  "nat \<Rightarrow> (qint64 \<times> 'q event) list list \<Rightarrow> 'q world \<Rightarrow> 'q world checked" where
  "app_exec_auto_chk cap [] s = process_updates_chk cap s"
| "app_exec_auto_chk cap (b # bs) s =
     and_then (process_updates_chk cap s)
       (\<lambda>s. and_then (app_exec_chk cap b s) (app_exec_auto_chk cap bs))"

definition load :: "qint64 \<Rightarrow> (qint64 \<times> 'q event) list list \<Rightarrow> nat \<Rightarrow> nat" where
  "load t0 bs k =
     length (filter (fresh (last_clock t0 (concat (take k bs)))) (pressed (concat (take k bs))))
     + length (pressed (bs ! k))"

definition load_fits :: "nat \<Rightarrow> qint64 \<Rightarrow> (qint64 \<times> 'q event) list list \<Rightarrow> bool" where
  "load_fits cap t0 bs \<longleftrightarrow> list_all (\<lambda>k. load t0 bs k \<le> cap) [0 ..< length bs]"

section \<open>Runs within the capacity\<close>

lemma length_pressed: "length (pressed evs) = length (filter (\<lambda>te. is_press (snd te)) evs)"
proof (induction evs)
  case Nil
  show ?case by simp
next
  case (Cons ev evs)
  obtain t e where "ev = (t, e)" by (cases ev)
  with Cons show ?case by (cases e) simp_all
qed

lemma log_size_app_exec: "log_size (app_exec evs s) \<le> log_size s + length (pressed evs)"
proof (induction evs arbitrary: s)
  case Nil
  show ?case by simp
next
  case (Cons ev evs)
  obtain t e where ev: "ev = (t, e)" by (cases ev)
  from Cons [of "dispatch e (s\<lparr>clock := t\<rparr>)"] Cons [of "s\<lparr>clock := t\<rparr>"]
    log_size_dispatch [of e "s\<lparr>clock := t\<rparr>"] ev
  show ?case by (cases e) (auto split: if_splits)
qed

lemma process_updates_chk_ok:
  "log_size s < 2 ^ 64 \<Longrightarrow> process_updates_chk cap s = Inr (process_updates s)"
  by (simp add: process_updates_chk_def process_updates_def dispatch_chk_eq
      del: dispatch_Paint_eq dispatch_chk.simps)

lemma app_exec_auto_chk_snoc:
  "app_exec_auto_chk cap (bs @ [b]) s =
     and_then (app_exec_auto_chk cap bs s)
       (\<lambda>s. and_then (app_exec_chk cap b s) (process_updates_chk cap))"
proof (induction bs arbitrary: s)
  case Nil
  have e: "app_exec_auto_chk cap [] = process_updates_chk cap" by (rule ext) simp
  show ?case by (simp add: e)
next
  case (Cons b' bs)
  have "app_exec_auto_chk cap (bs @ [b]) =
          (\<lambda>s. and_then (app_exec_auto_chk cap bs s)
             (\<lambda>s. and_then (app_exec_chk cap b s) (process_updates_chk cap)))"
    by (rule ext) (rule Cons.IH)
  then show ?case by (simp add: and_then_assoc)
qed

lemma load_snoc:
  "load_fits cap t0 (bs @ [b]) \<longleftrightarrow>
     load_fits cap t0 bs
     \<and> length (filter (fresh (last_clock t0 (concat bs))) (pressed (concat bs)))
       + length (pressed b) \<le> cap"
  by (auto simp: load_fits_def load_def list_all_iff nth_append)

section \<open>Properties\<close>

text \<open>
  C10 (bounds). What limits a run is the rate of the presses, not its length.
  With a clock in range that never steps back and the window open, a run of
  the checked event loop with its repaints raises no fault and ends as the
  unchecked one, for any number of events, provided that in every batch the
  presses of the last 3000 ms and the presses of the batch together fit the
  capacity of the vector.
\<close>

theorem bounded_load_never_faults:
  assumes "cap < 2 ^ 64" and "clock_in_range (concat bs)" and "clock_monotone (concat bs)"
    and "Close \<notin> snd ` set (concat bs)" and "load_fits cap t0 bs"
  shows "app_exec_auto_chk cap bs (main_start t0) = Inr (app_exec_auto bs (main_start t0))"
  using assms(2-5)
proof (induction bs rule: rev_induct)
  case Nil
  show ?case by (simp add: process_updates_chk_ok)
next
  case (snoc b bs)
  let ?s = "app_exec_auto bs (main_start t0)"
  from snoc.prems have pre: "clock_in_range (concat bs)" "clock_monotone (concat bs)"
    "Close \<notin> snd ` set (concat bs)" "load_fits cap t0 bs"
    by (auto simp: clock_in_range_def clock_monotone_def sorted_wrt_append load_snoc)
  from snoc.prems(4) log_app_exec_auto [OF pre(1-3), of t0]
  have room: "log_size ?s + length (pressed b) \<le> cap"
    by (simp add: load_snoc log_size_def)
  with assms(1) have "app_exec_chk cap b ?s = Inr (app_exec b ?s)"
    by (intro app_exec_chk_short) (simp_all add: length_pressed)
  moreover from room assms(1) log_size_app_exec [of b ?s]
  have "process_updates_chk cap (app_exec b ?s) = Inr (process_updates (app_exec b ?s))"
    by (intro process_updates_chk_ok) simp
  ultimately show ?case
    by (simp add: app_exec_auto_chk_snoc app_exec_auto_snoc snoc.IH [OF pre])
qed

theorem bounded_load_never_faults_witness:
  "(2 :: nat) < 2 ^ 64
   \<and> clock_in_range (concat [[(0, MousePress \<lparr>xp = 1 :: int, yp = 1\<rparr>)],
        [(1000, MousePress \<lparr>xp = 2, yp = 2\<rparr>)], [(3500, Timeout)],
        [(3600, MousePress \<lparr>xp = 3, yp = 3\<rparr>)]])
   \<and> clock_monotone (concat [[(0, MousePress \<lparr>xp = 1 :: int, yp = 1\<rparr>)],
        [(1000, MousePress \<lparr>xp = 2, yp = 2\<rparr>)], [(3500, Timeout)],
        [(3600, MousePress \<lparr>xp = 3, yp = 3\<rparr>)]])
   \<and> Close \<notin> snd ` set (concat [[(0 :: qint64, MousePress \<lparr>xp = 1 :: int, yp = 1\<rparr>)],
        [(1000, MousePress \<lparr>xp = 2, yp = 2\<rparr>)], [(3500, Timeout)],
        [(3600, MousePress \<lparr>xp = 3, yp = 3\<rparr>)]])
   \<and> load_fits 2 0 [[(0, MousePress \<lparr>xp = 1 :: int, yp = 1\<rparr>)],
        [(1000, MousePress \<lparr>xp = 2, yp = 2\<rparr>)], [(3500, Timeout)],
        [(3600, MousePress \<lparr>xp = 3, yp = 3\<rparr>)]]
   \<and> app_exec_auto_chk 2 [[(0, MousePress \<lparr>xp = 1 :: int, yp = 1\<rparr>)],
        [(1000, MousePress \<lparr>xp = 2, yp = 2\<rparr>)], [(3500, Timeout)],
        [(3600, MousePress \<lparr>xp = 3, yp = 3\<rparr>)]] (main_start 0)
     = Inr (app_exec_auto [[(0, MousePress \<lparr>xp = 1 :: int, yp = 1\<rparr>)],
        [(1000, MousePress \<lparr>xp = 2, yp = 2\<rparr>)], [(3500, Timeout)],
        [(3600, MousePress \<lparr>xp = 3, yp = 3\<rparr>)]] (main_start 0))"
  using bounded_load_never_faults [of 2 "[[(0, MousePress \<lparr>xp = 1 :: int, yp = 1\<rparr>)],
        [(1000, MousePress \<lparr>xp = 2, yp = 2\<rparr>)], [(3500, Timeout)],
        [(3600, MousePress \<lparr>xp = 3, yp = 3\<rparr>)]]" 0]
  by (simp add: clock_in_range_def clock_monotone_def sub_in_range_def word_sle_eq
      load_fits_def load_def fresh_def age_def upt_rec
      del: app_exec_auto_chk.simps app_exec_auto.simps)

end
