(* ===== verification/Vector_Buffer.thy ===== *)
theory Vector_Buffer
  imports Checked_Vector
begin

text \<open>
  \<open>std::vector\<close> with its buffer, and the iterators and references into it.
  A vector \<open>vec\<close> holds its elements, the size of the buffer allocated for
  them (\<open>capacity()\<close>), a count of the operations that have invalidated an
  iterator, and for each position (the positions of the elements and the
  position past the end) the count at which the iterators to that position
  were last invalidated. An iterator or reference \<open>iter\<close> is a position and
  the count at which it was obtained; it is valid while nothing has
  invalidated its position since (\<open>iter_valid\<close>).

  The operations invalidate as the C++ standard says: \<open>push_back\<close> every
  position when the buffer is full and has to be reallocated, otherwise only
  the position past the end; \<open>erase\<close> the positions from the start of the
  erased range on; \<open>std::remove_if\<close> assigns elements and invalidates
  nothing. A use of an invalid iterator is the fault \<open>Dangling_Reference\<close>.
  When the buffer is full it is doubled, as libstdc++ and libc++ do; no
  lemma depends on the factor.

  \<open>vec_ok\<close> is the invariant of the representation. The lemmas give the
  result of each operation on a vector that satisfies it, in terms of the
  operations on lists of \<open>Std_Vector\<close>, and show that the invariant is kept.
  The last section states the rules of invalidation as consequences of the
  definitions: which iterators and references an operation leaves valid, and
  which it does not.
\<close>

section \<open>Vectors, iterators and references\<close>

record 'a vec =
  items :: "'a list"
  buffer_size :: nat
  mod_count :: nat
  fresh_since :: "nat list"

record iter =
  made_at :: nat
  slot :: nat

definition vec_new :: "'a vec" where
  "vec_new = \<lparr>items = [], buffer_size = 0, mod_count = 0, fresh_since = [0]\<rparr>"

definition vec_ok :: "'a vec \<Rightarrow> bool" where
  "vec_ok v \<longleftrightarrow>
     length (items v) \<le> buffer_size v \<and> length (fresh_since v) = Suc (length (items v))
     \<and> list_all (\<lambda>t. t \<le> mod_count v) (fresh_since v)"

definition iter_valid :: "'a vec \<Rightarrow> iter \<Rightarrow> bool" where
  "iter_valid v it \<longleftrightarrow>
     slot it \<le> length (items v) \<and> slot it < length (fresh_since v)
     \<and> fresh_since v ! slot it \<le> made_at it"

definition vec_begin :: "'a vec \<Rightarrow> iter" where
  "vec_begin v = \<lparr>made_at = mod_count v, slot = 0\<rparr>"

definition vec_end :: "'a vec \<Rightarrow> iter" where
  "vec_end v = \<lparr>made_at = mod_count v, slot = length (items v)\<rparr>"

definition vec_index :: "'a vec \<Rightarrow> nat \<Rightarrow> iter checked" where
  "vec_index v i =
     (if i < length (items v) then Inr \<lparr>made_at = mod_count v, slot = i\<rparr>
      else Inl Index_Out_Of_Range)"

definition vec_back :: "'a vec \<Rightarrow> iter checked" where
  "vec_back v =
     (if items v = [] then Inl Back_Of_Empty
      else Inr \<lparr>made_at = mod_count v, slot = length (items v) - 1\<rparr>)"

definition vec_deref :: "'a vec \<Rightarrow> iter \<Rightarrow> 'a checked" where
  "vec_deref v r =
     (if \<not> iter_valid v r then Inl Dangling_Reference
      else vector_at (items v) (slot r))"

definition vec_push_back :: "nat \<Rightarrow> 'a vec \<Rightarrow> 'a \<Rightarrow> 'a vec checked" where
  "vec_push_back cap v x =
     and_then (push_back_chk cap (items v) x)
       (\<lambda>xs. let n = length (items v); t = Suc (mod_count v)
             in if n < buffer_size v
                then Inr (v\<lparr>items := xs, mod_count := t,
                            fresh_since := take n (fresh_since v) @ [t, t]\<rparr>)
                else Inr (v\<lparr>items := xs, buffer_size := max 1 (2 * buffer_size v),
                            mod_count := t, fresh_since := replicate (n + 2) t\<rparr>))"

definition vec_erase :: "'a vec \<Rightarrow> iter \<Rightarrow> iter \<Rightarrow> 'a vec checked" where
  "vec_erase v first_it last_it =
     (if \<not> iter_valid v first_it \<or> \<not> iter_valid v last_it then Inl Dangling_Reference
      else and_then (vector_erase_chk (items v) (slot first_it) (slot last_it))
             (\<lambda>xs. if slot first_it = slot last_it then Inr v
                   else let t = Suc (mod_count v)
                        in Inr (v\<lparr>items := xs, mod_count := t,
                                  fresh_since := take (slot first_it) (fresh_since v)
                                    @ replicate (Suc (length xs) - slot first_it) t\<rparr>)))"

definition vec_remove_if ::
  "('a \<Rightarrow> bool) \<Rightarrow> 'a vec \<Rightarrow> iter \<Rightarrow> iter \<Rightarrow> ('a vec \<times> iter) checked" where
  "vec_remove_if p v first_it last_it =
     (if \<not> iter_valid v first_it \<or> \<not> iter_valid v last_it then Inl Dangling_Reference
      else if slot last_it < slot first_it then Inl Invalid_Range
      else let xs = items v;
               mid = take (slot last_it - slot first_it) (drop (slot first_it) xs)
           in and_then (std_remove_if_chk p mid)
                (\<lambda>(mid', k).
                   Inr (v\<lparr>items := take (slot first_it) xs @ mid' @ drop (slot last_it) xs\<rparr>,
                        \<lparr>made_at = mod_count v, slot = slot first_it + k\<rparr>)))"

section \<open>The invariant\<close>

lemma vec_ok_new [simp]: "vec_ok vec_new"
  by (simp add: vec_ok_def vec_new_def)

lemma iter_valid_now:
  "vec_ok v \<Longrightarrow> i \<le> length (items v) \<Longrightarrow> iter_valid v \<lparr>made_at = mod_count v, slot = i\<rparr>"
  by (simp add: vec_ok_def iter_valid_def list_all_length)

lemma iter_valid_begin_end [simp]:
  "vec_ok v \<Longrightarrow> iter_valid v (vec_begin v)"
  "vec_ok v \<Longrightarrow> iter_valid v (vec_end v)"
  by (simp_all add: vec_begin_def vec_end_def iter_valid_now)

section \<open>The operations on a vector that satisfies it\<close>

lemma vec_index_deref:
  "vec_ok v \<Longrightarrow> and_then (vec_index v i) (vec_deref v) = vector_at (items v) i"
  by (simp add: vec_index_def vec_deref_def iter_valid_now)

lemma vec_back_deref:
  "vec_ok v \<Longrightarrow> and_then (vec_back v) (vec_deref v) = vector_back_chk (items v)"
  by (simp add: vec_back_def vec_deref_def vector_back_chk_def iter_valid_now last_conv_nth)

lemma vec_push_back_full:
  "cap \<le> length (items v) \<Longrightarrow> vec_push_back cap v x = Inl Length_Error"
  by (simp add: vec_push_back_def push_back_chk_def)

lemma vec_push_back_ok:
  assumes "vec_ok v" and "length (items v) < cap"
  shows "\<exists>v'. vec_push_back cap v x = Inr v' \<and> items v' = items v @ [x] \<and> vec_ok v'"
  using assms
  by (auto simp: vec_push_back_def push_back_chk_def Let_def vec_ok_def list_all_iff
      dest!: in_set_takeD intro: le_SucI)

lemma vec_remove_if_ok:
  assumes "vec_ok v"
  shows "\<exists>v' it. vec_remove_if p v (vec_begin v) (vec_end v) = Inr (v', it)
    \<and> (items v', slot it) = std_remove_if p (items v) \<and> vec_ok v' \<and> iter_valid v' it
    \<and> iter_valid v' (vec_end v')"
proof -
  obtain xs k where r: "std_remove_if p (items v) = (xs, k)" by (cases "std_remove_if p (items v)")
  with std_remove_if_correct [where p = p and v = "items v"] have len: "length xs = length (items v)"
    and k: "k \<le> length (items v)" by simp_all
  let ?v = "v\<lparr>items := xs\<rparr>"
  from assms len have ok: "vec_ok ?v" by (simp add: vec_ok_def)
  from assms r have "vec_remove_if p v (vec_begin v) (vec_end v)
      = Inr (?v, \<lparr>made_at = mod_count v, slot = k\<rparr>)"
    by (simp add: vec_remove_if_def std_remove_if_chk_ok) (simp add: vec_begin_def vec_end_def)
  moreover from ok k len have "iter_valid ?v \<lparr>made_at = mod_count v, slot = k\<rparr>"
    using iter_valid_now [of ?v k] by simp
  ultimately show ?thesis using r ok by simp
qed

lemma vec_erase_to_end_ok:
  assumes "vec_ok v" and "iter_valid v it"
  shows "\<exists>v'. vec_erase v it (vec_end v) = Inr v' \<and> items v' = take (slot it) (items v)
    \<and> vec_ok v'"
  using assms
  by (auto simp: vec_erase_def vector_erase_chk_def vec_end_def iter_valid_def vec_ok_def
      list_all_iff Let_def min_def dest!: in_set_takeD intro: le_SucI)

section \<open>Invalidation\<close>

lemma push_back_keeps_references:
  assumes "vec_ok v" and "length (items v) < buffer_size v" and "length (items v) < cap"
    and "iter_valid v r" and "slot r < length (items v)"
  shows "and_then (vec_push_back cap v x) (\<lambda>v'. vec_deref v' r) = Inr (items v ! slot r)"
  using assms
  by (simp add: vec_push_back_def push_back_chk_def Let_def vec_deref_def iter_valid_def
      vec_ok_def nth_append)

lemma push_back_reallocation_invalidates:
  assumes "vec_ok v" and "length (items v) = buffer_size v" and "length (items v) < cap"
    and "made_at r \<le> mod_count v"
  shows "and_then (vec_push_back cap v x) (\<lambda>v'. vec_deref v' r) = Inl Dangling_Reference"
  using assms
  by (auto simp: vec_push_back_def push_back_chk_def Let_def vec_deref_def iter_valid_def
      nth_Cons split: nat.splits)

lemma push_back_invalidates_end:
  assumes "vec_ok v" and "vec_push_back cap v x = Inr v'"
  shows "\<not> iter_valid v' (vec_end v)"
proof -
  let ?n = "length (items v)" and ?t = "Suc (mod_count v)"
  from assms(1) have len: "length (fresh_since v) = Suc ?n" by (simp add: vec_ok_def)
  from assms(2) have "fresh_since v' = take ?n (fresh_since v) @ [?t, ?t]
      \<or> fresh_since v' = replicate (?n + 2) ?t"
    by (auto simp: vec_push_back_def push_back_chk_def Let_def split: if_splits)
  then have "fresh_since v' ! ?n = ?t"
  proof
    assume "fresh_since v' = take ?n (fresh_since v) @ [?t, ?t]"
    with len show ?thesis by (simp add: nth_append)
  next
    have "replicate (?n + 2) ?t ! ?n = ?t" by (rule nth_replicate) simp
    moreover assume "fresh_since v' = replicate (?n + 2) ?t"
    ultimately show ?thesis by (simp only:)
  qed
  then show ?thesis by (simp add: iter_valid_def vec_end_def)
qed

lemma erase_keeps_references_before:
  assumes "vec_erase v first_it last_it = Inr v'" and "iter_valid v r"
    and "slot r < slot first_it"
  shows "iter_valid v' r"
  using assms
  by (auto simp: vec_erase_def vector_erase_chk_def Let_def iter_valid_def nth_append
      split: if_splits)

lemma erase_invalidates_from:
  assumes "vec_ok v" and "vec_erase v first_it last_it = Inr v'"
    and "slot first_it < slot last_it" and "slot first_it \<le> slot r"
    and "made_at r \<le> mod_count v"
  shows "\<not> iter_valid v' r"
  using assms
  by (auto simp: vec_erase_def vector_erase_chk_def Let_def iter_valid_def vec_ok_def
      nth_append split: if_splits)

lemma remove_if_keeps_iterators:
  assumes "vec_remove_if p v first_it last_it = Inr (v', it)"
  shows "iter_valid v' r \<longleftrightarrow> iter_valid v r"
proof -
  let ?mid = "take (slot last_it - slot first_it) (drop (slot first_it) (items v))"
  obtain mid' k where r: "std_remove_if p ?mid = (mid', k)" by (cases "std_remove_if p ?mid")
  with std_remove_if_correct [where p = p and v = ?mid] have "length mid' = length ?mid" by simp
  with assms r show ?thesis
    by (auto simp: vec_remove_if_def std_remove_if_chk_ok Let_def iter_valid_def
        split: if_splits)
qed

end
