(* ===== verification/Reference_Safety.thy ===== *)
theory Reference_Safety
  imports Memory_Safety Vector_Buffer
begin

text \<open>
  Validity of the iterators and references of \<open>src/main.cpp\<close>. The program
  holds iterators into \<open>m_clicks\<close> (\<open>begin()\<close>, \<open>end()\<close> and the result of
  \<open>std::remove_if\<close> in \<open>pruneOldClicks\<close>) and references to its elements
  (\<open>click\<close> and \<open>last\<close> in \<open>paintEvent\<close>), and it changes the vector with
  \<open>push_back\<close> and \<open>erase\<close>, which invalidate them. This theory translates
  the handlers over the vector of \<open>Vector_Buffer\<close>, where every iterator and
  reference is a value of its own and its use after an invalidation is a
  fault:

  \<^item> \<open>ClickWidget_v\<close> is the widget with \<open>m_clicks\<close> as such a vector, and
    \<open>abs_widget\<close> reads it as the widget of \<open>Click_Log\<close>.
  \<^item> \<open>mousePressEvent_it\<close>, \<open>pruneOldClicks_it\<close>, \<open>paintEvent_it\<close> with its
    loop \<open>paint_blue_loop_it\<close>, and \<open>cleanupTimer_timeout_it\<close> follow the
    source: each iterator is obtained where the source obtains it and used
    where the source uses it.
  \<^item> \<open>handle_it\<close> calls the handler of an event, and \<open>calls_it\<close> the
    handlers of a list of events one after the other; \<open>handle\<close> and \<open>calls\<close>
    do the same over the handlers of the unchecked model.
  \<^item> \<open>delivered_events\<close> lists the events of a run that the event loop
    delivers; a run of \<open>app_exec\<close> is \<open>calls\<close> of them. \<open>conc_widget\<close>
    puts a vector under a widget of \<open>Click_Log\<close>.

  The lemmas show that on a vector that satisfies its invariant each handler
  raises no fault but the \<open>length_error\<close> of \<open>push_back\<close>, keeps the
  invariant, and refines its unchecked model under \<open>abs_widget\<close>.
\<close>

section \<open>The widget over a vector with its buffer\<close>

record 'q ClickWidget_v = QWidget +
  v_clicks :: "'q ClickPoint vec"
  v_cleanupTimer :: QTimer

definition abs_widget :: "'q ClickWidget_v \<Rightarrow> 'q ClickWidget" where
  "abs_widget w =
     \<lparr>windowTitle = windowTitle w, minimumSize = minimumSize w, visible = visible w,
      updatePending = updatePending w, m_clicks = items (v_clicks w),
      m_cleanupTimer = v_cleanupTimer w\<rparr>"

definition widget_ok :: "'q ClickWidget_v \<Rightarrow> bool" where
  "widget_ok w \<longleftrightarrow> vec_ok (v_clicks w) \<and> length (items (v_clicks w)) < 2 ^ 64"

section \<open>The handlers\<close>

definition mousePressEvent_it ::
  "nat \<Rightarrow> qint64 \<Rightarrow> 'q QMouseEvent \<Rightarrow> 'q ClickWidget_v
   \<Rightarrow> ('q ClickWidget_v \<times> 'q QMouseEvent) checked" where
  "mousePressEvent_it cap now event w =
     (let point = \<lparr>pos = position event, timestamp = now\<rparr>
      in and_then (vec_push_back cap (v_clicks w) point)
           (\<lambda>v. let w = w\<lparr>v_clicks := v\<rparr>;
                     w = QWidget_update w
                 in Inr (w, QWidget_mousePressEvent event)))"

definition pruneOldClicks_it :: "qint64 \<Rightarrow> 'q ClickWidget_v \<Rightarrow> 'q ClickWidget_v checked" where
  "pruneOldClicks_it now w =
     (let threshold = now - 3000;
          v = v_clicks w
      in and_then (vec_remove_if (click_is_old threshold) v (vec_begin v) (vec_end v))
           (\<lambda>(v, it). and_then (vec_erase v it (vec_end v))
                         (\<lambda>v. Inr (w\<lparr>v_clicks := v\<rparr>))))"

function paint_blue_loop_it :: "'q ClickPoint vec \<Rightarrow> size_t \<Rightarrow> 'q paint_call list checked" where
  "paint_blue_loop_it v i =
     (if i + 1 < vector_size (items v)
      then and_then (vec_index v (unat i))
             (\<lambda>click. and_then (vec_deref v click)
                (\<lambda>c. and_then (paint_blue_loop_it v (i + 1))
                         (\<lambda>rest. Inr (DrawEllipse (pos c) radius radius # rest))))
      else Inr [])"
  by pat_completeness auto
termination
proof (relation "measure (\<lambda>(v, i). unat (vector_size (items v) - 1 - i))")
  fix v :: "'q ClickPoint vec" and i :: size_t
  assume "i + 1 < vector_size (items v)"
  then show "((v, i + 1), (v, i)) \<in> measure (\<lambda>(v, i). unat (vector_size (items v) - 1 - i))"
    by (simp only: in_measure prod.case word_countdown)
qed simp

definition paintEvent_it ::
  "qint64 \<Rightarrow> 'q ClickWidget_v \<Rightarrow> ('q ClickWidget_v \<times> 'q paint_call list) checked" where
  "paintEvent_it now w =
     and_then (pruneOldClicks_it now w)
       (\<lambda>w. let hint = [SetRenderHint Antialiasing True];
                 v = v_clicks w
             in if \<not> vector_empty (items v)
                then and_then (paint_blue_loop_it v 0)
                       (\<lambda>blue. and_then (vec_back v)
                          (\<lambda>last_ref. and_then (vec_deref v last_ref)
                             (\<lambda>last_click.
                                Inr (w, hint @ [SetPen NoPen, SetBrush (QColor 30 144 255)] @ blue
                                          @ [SetBrush (QColor 220 20 60),
                                             DrawEllipse (pos last_click) (radius + 2) (radius + 2)]))))
                else Inr (w, hint))"

definition cleanupTimer_timeout_it :: "qint64 \<Rightarrow> 'q ClickWidget_v \<Rightarrow> 'q ClickWidget_v checked" where
  "cleanupTimer_timeout_it now w =
     and_then (pruneOldClicks_it now w) (\<lambda>w. Inr (QWidget_update w))"

section \<open>Sequences of handler calls\<close>

fun handle_it :: "nat \<Rightarrow> qint64 \<Rightarrow> 'q event \<Rightarrow> 'q ClickWidget_v \<Rightarrow> 'q ClickWidget_v checked" where
  "handle_it cap now (MousePress p) w =
     and_then (mousePressEvent_it cap now \<lparr>position = p, accepted = True\<rparr> w)
       (\<lambda>(w, event). Inr w)"
| "handle_it cap now Timeout w = cleanupTimer_timeout_it now w"
| "handle_it cap now Paint w =
     and_then (paintEvent_it now (w\<lparr>updatePending := False\<rparr>)) (\<lambda>(w, calls). Inr w)"
| "handle_it cap now Close w = Inr (w\<lparr>visible := False\<rparr>)"

fun calls_it ::
  "nat \<Rightarrow> (qint64 \<times> 'q event) list \<Rightarrow> 'q ClickWidget_v \<Rightarrow> 'q ClickWidget_v checked" where
  "calls_it cap [] w = Inr w"
| "calls_it cap ((t, e) # evs) w = and_then (handle_it cap t e w) (calls_it cap evs)"

definition handle :: "qint64 \<Rightarrow> 'q event \<Rightarrow> 'q ClickWidget \<Rightarrow> 'q ClickWidget" where
  "handle now e w = widget (dispatch e \<lparr>clock = now, widget = w, screen = [], exit_code = None\<rparr>)"

fun calls :: "(qint64 \<times> 'q event) list \<Rightarrow> 'q ClickWidget \<Rightarrow> 'q ClickWidget" where
  "calls [] w = w"
| "calls ((t, e) # evs) w = calls evs (handle t e w)"

definition conc_widget :: "'q ClickWidget \<Rightarrow> 'q ClickPoint vec \<Rightarrow> 'q ClickWidget_v" where
  "conc_widget w v =
     \<lparr>windowTitle = windowTitle w, minimumSize = minimumSize w, visible = visible w,
      updatePending = updatePending w, v_clicks = v, v_cleanupTimer = m_cleanupTimer w\<rparr>"

fun delivered_events :: "(qint64 \<times> 'q event) list \<Rightarrow> 'q world \<Rightarrow> (qint64 \<times> 'q event) list" where
  "delivered_events [] s = []"
| "delivered_events ((t, e) # evs) s =
     (if deliverable e (s\<lparr>clock := t\<rparr>)
      then (t, e) # delivered_events evs (dispatch e (s\<lparr>clock := t\<rparr>))
      else delivered_events evs (s\<lparr>clock := t\<rparr>))"

definition widget_v_with :: "'q ClickPoint vec \<Rightarrow> 'q ClickWidget_v" where
  "widget_v_with v =
     \<lparr>windowTitle = [], minimumSize = (640, 480), visible = True, updatePending = False,
      v_clicks = v, v_cleanupTimer = \<lparr>interval = 50, active = True\<rparr>\<rparr>"

declare paint_blue_loop_it.simps [simp del]

section \<open>Each handler against its checked model\<close>

lemma abs_widget_simps [simp]:
  "m_clicks (abs_widget w) = items (v_clicks w)"
  "abs_widget (w\<lparr>v_clicks := v\<rparr>) = (abs_widget w)\<lparr>m_clicks := items v\<rparr>"
  "abs_widget (QWidget_update w) = QWidget_update (abs_widget w)"
  "abs_widget (w\<lparr>updatePending := b\<rparr>) = (abs_widget w)\<lparr>updatePending := b\<rparr>"
  "abs_widget (w\<lparr>visible := b\<rparr>) = (abs_widget w)\<lparr>visible := b\<rparr>"
  by (simp_all add: abs_widget_def QWidget_update_def)

lemma widget_ok_simps [simp]:
  "widget_ok (w\<lparr>v_clicks := v\<rparr>) \<longleftrightarrow> vec_ok v \<and> length (items v) < 2 ^ 64"
  "widget_ok (QWidget_update w) = widget_ok w"
  "widget_ok (w\<lparr>updatePending := b\<rparr>) = widget_ok w"
  "widget_ok (w\<lparr>visible := b\<rparr>) = widget_ok w"
  by (simp_all add: widget_ok_def QWidget_update_def)

lemma mousePressEvent_it_ok:
  assumes "widget_ok w" and "cap < 2 ^ 64"
  shows "if length (items (v_clicks w)) < cap
         then \<exists>w'. mousePressEvent_it cap now event w = Inr (w', QWidget_mousePressEvent event)
                \<and> abs_widget w' = fst (mousePressEvent now event (abs_widget w)) \<and> widget_ok w'
         else mousePressEvent_it cap now event w = Inl Length_Error"
proof (cases "length (items (v_clicks w)) < cap")
  case True
  from assms(1) have "vec_ok (v_clicks w)" by (simp add: widget_ok_def)
  from vec_push_back_ok [OF this True, of "\<lparr>pos = position event, timestamp = now\<rparr>"]
  obtain v where "vec_push_back cap (v_clicks w) \<lparr>pos = position event, timestamp = now\<rparr> = Inr v"
    and "items v = items (v_clicks w) @ [\<lparr>pos = position event, timestamp = now\<rparr>]" and "vec_ok v"
    by blast
  with True assms(2) show ?thesis
    by (simp add: mousePressEvent_it_def mousePressEvent_def)
next
  case False
  then show ?thesis by (simp add: mousePressEvent_it_def vec_push_back_full)
qed

lemma pruneOldClicks_it_ok:
  assumes "widget_ok w"
  shows "\<exists>w'. pruneOldClicks_it now w = Inr w'
    \<and> abs_widget w' = pruneOldClicks now (abs_widget w) \<and> widget_ok w'"
proof -
  let ?p = "click_is_old (now - 3000) :: 'a ClickPoint \<Rightarrow> bool"
  from assms have ok: "vec_ok (v_clicks w)" by (simp add: widget_ok_def)
  from vec_remove_if_ok [OF ok, of ?p] obtain v it
    where r: "vec_remove_if ?p (v_clicks w) (vec_begin (v_clicks w)) (vec_end (v_clicks w)) = Inr (v, it)"
      and s: "(items v, slot it) = std_remove_if ?p (items (v_clicks w))"
      and v: "vec_ok v" "iter_valid v it" by blast
  from vec_erase_to_end_ok [OF v] obtain v'
    where e: "vec_erase v it (vec_end v) = Inr v'" and i: "items v' = take (slot it) (items v)"
      and v': "vec_ok v'" by blast
  from s [symmetric] i have "items v' = m_clicks (pruneOldClicks now (abs_widget w))"
    using std_remove_if_correct [where p = ?p and v = "items (v_clicks w)"]
    by (simp add: m_clicks_pruneOldClicks click_is_old_def)
  moreover from this assms have "length (items v') < 2 ^ 64"
    by (auto simp: m_clicks_pruneOldClicks widget_ok_def
        intro: le_less_trans [OF length_filter_le])
  ultimately show ?thesis using r e v'
    by (simp add: pruneOldClicks_it_def pruneOldClicks_eq)
qed

lemma paint_blue_loop_it_eq:
  "vec_ok v \<Longrightarrow> paint_blue_loop_it v i = paint_blue_loop_chk (items v) i"
proof (induction v i rule: paint_blue_loop_it.induct)
  case (1 v i)
  let ?r = "\<lparr>made_at = mod_count v, slot = unat i\<rparr>"
  show ?case
  proof (cases "i + 1 < vector_size (items v) \<and> unat i < length (items v)")
    case True
    with "1.prems" have d: "vec_index v (unat i) = Inr ?r" "vec_deref v ?r = Inr (items v ! unat i)"
      by (simp_all add: vec_index_def vec_deref_def iter_valid_now)
    from True "1.IH" [OF _ d "1.prems"] d show ?thesis
      by (subst paint_blue_loop_it.simps, subst paint_blue_loop_chk.simps) simp
  next
    case False
    then show ?thesis
      by (subst paint_blue_loop_it.simps, subst paint_blue_loop_chk.simps)
         (auto simp: vec_index_def)
  qed
qed

lemma paintEvent_it_ok:
  assumes "widget_ok w"
  shows "\<exists>w'. paintEvent_it now w = Inr (w', snd (paintEvent now (abs_widget w)))
    \<and> abs_widget w' = fst (paintEvent now (abs_widget w)) \<and> widget_ok w'"
proof -
  from pruneOldClicks_it_ok [OF assms, of now] obtain w'
    where p: "pruneOldClicks_it now w = Inr w'"
      and a: "abs_widget w' = pruneOldClicks now (abs_widget w)" and ok: "widget_ok w'" by blast
  from ok have v: "vec_ok (v_clicks w')" and len: "length (items (v_clicks w')) < 2 ^ 64"
    by (simp_all add: widget_ok_def)
  from a have items: "items (v_clicks w') = m_clicks (pruneOldClicks now (abs_widget w))"
    by (simp add: abs_widget_simps(1) [symmetric] del: abs_widget_simps)
  have bk: "and_then (vec_back (v_clicks w')) (\<lambda>r. and_then (vec_deref (v_clicks w') r) K)
      = and_then (vector_back_chk (items (v_clicks w'))) K" for K :: "'a ClickPoint \<Rightarrow> 'b checked"
    by (simp add: vec_back_deref [OF v, symmetric] and_then_assoc)
  from paint_blue_loop_chk_ok [OF len, of 0] p a ok show ?thesis
    by (simp add: paintEvent_it_def paintEvent_def Let_def paint_blue_loop_it_eq [OF v] bk
        vector_back_chk_def items [symmetric])
qed

lemma cleanupTimer_timeout_it_ok:
  assumes "widget_ok w"
  shows "\<exists>w'. cleanupTimer_timeout_it now w = Inr w'
    \<and> abs_widget w' = cleanupTimer_timeout now (abs_widget w) \<and> widget_ok w'"
  using pruneOldClicks_it_ok [OF assms, of now]
  by (auto simp: cleanupTimer_timeout_it_def cleanupTimer_timeout_def)

lemma handle_it_ok:
  assumes "widget_ok w" and "cap < 2 ^ 64"
  shows "if is_press e \<and> cap \<le> length (items (v_clicks w))
         then handle_it cap now e w = Inl Length_Error
         else \<exists>w'. handle_it cap now e w = Inr w' \<and> abs_widget w' = handle now e (abs_widget w)
                \<and> widget_ok w'"
proof (cases e)
  case (MousePress p)
  with mousePressEvent_it_ok [OF assms, of now "\<lparr>position = p, accepted = True\<rparr>"]
  show ?thesis by (auto simp: handle_def split: if_splits)
next
  case Timeout
  with cleanupTimer_timeout_it_ok [OF assms(1), of now] show ?thesis
    by (auto simp: handle_def)
next
  case Paint
  from assms(1) have "widget_ok (w\<lparr>updatePending := False\<rparr>)" by simp
  from paintEvent_it_ok [OF this, of now] Paint show ?thesis
    by (auto simp: handle_def dispatch.simps(3) case_prod_beta simp del: dispatch_Paint_eq)
next
  case Close
  with assms(1) show ?thesis by (simp add: handle_def)
qed

lemma length_handle:
  "length (m_clicks (handle now e w)) \<le> (if is_press e then Suc (length (m_clicks w)) else length (m_clicks w))"
  using log_size_dispatch [of e "\<lparr>clock = now, widget = w, screen = [], exit_code = None\<rparr>"]
  by (auto simp: handle_def log_size_def split: if_splits)

lemma calls_it_cases:
  assumes "cap < 2 ^ 64"
  shows "widget_ok w \<Longrightarrow>
     (\<exists>w'. calls_it cap evs w = Inr w' \<and> abs_widget w' = calls evs (abs_widget w) \<and> widget_ok w')
     \<or> calls_it cap evs w = Inl Length_Error"
proof (induction evs arbitrary: w)
  case Nil
  then show ?case by simp
next
  case (Cons ev evs)
  obtain t e where ev: "ev = (t, e)" by (cases ev)
  show ?case
  proof (cases "is_press e \<and> cap \<le> length (items (v_clicks w))")
    case True
    with handle_it_ok [OF Cons.prems assms, of e t] ev show ?thesis by simp
  next
    case False
    with handle_it_ok [OF Cons.prems assms, of e t] obtain w'
      where "handle_it cap t e w = Inr w'" and "abs_widget w' = handle t e (abs_widget w)"
        and "widget_ok w'" by auto
    with Cons.IH [of w'] ev show ?thesis by auto
  qed
qed

lemma calls_it_short:
  assumes "cap < 2 ^ 64"
  shows "widget_ok w \<Longrightarrow>
     length (items (v_clicks w)) + length (filter (\<lambda>te. is_press (snd te)) evs) \<le> cap \<Longrightarrow>
     \<exists>w'. calls_it cap evs w = Inr w' \<and> abs_widget w' = calls evs (abs_widget w) \<and> widget_ok w'"
proof (induction evs arbitrary: w)
  case Nil
  then show ?case by simp
next
  case (Cons ev evs)
  obtain t e where ev: "ev = (t, e)" by (cases ev)
  from Cons.prems(2) ev have "\<not> (is_press e \<and> cap \<le> length (items (v_clicks w)))" by auto
  with handle_it_ok [OF Cons.prems(1) assms, of e t] obtain w'
    where h: "handle_it cap t e w = Inr w'" "abs_widget w' = handle t e (abs_widget w)"
      and ok: "widget_ok w'" by auto
  from h(2) length_handle [of t e "abs_widget w"]
  have "length (items (v_clicks w')) \<le> (if is_press e then Suc (length (items (v_clicks w)))
      else length (items (v_clicks w)))"
    by (auto simp: abs_widget_simps(1) [symmetric] simp del: abs_widget_simps split: if_splits)
  with Cons.prems(2) ev
  have "length (items (v_clicks w')) + length (filter (\<lambda>te. is_press (snd te)) evs) \<le> cap"
    by (auto split: if_splits)
  from Cons.IH [OF ok this] h ev show ?case by auto
qed

lemma widget_v_with_simps [simp]:
  "v_clicks (widget_v_with v) = v"
  "visible (widget_v_with v)"
  "abs_widget (widget_v_with v) = widget_with (items v)"
  by (simp_all add: widget_v_with_def abs_widget_def widget_with_def)

section \<open>Runs of the event loop\<close>

text \<open>
  A run of \<open>app_exec\<close> calls the handlers of the events it delivers, one
  after the other, so what holds of every sequence of handler calls holds of
  every run.
\<close>

lemma widget_dispatch: "widget (dispatch e s) = handle (clock s) e (widget s)"
  by (cases e) (simp_all add: handle_def)

lemma widget_app_exec:
  "widget (app_exec evs s) = calls (delivered_events evs s) (widget s)"
  by (induction evs s rule: app_exec.induct) (simp_all add: widget_dispatch)

lemma delivered_events_presses:
  "length (filter (\<lambda>te. is_press (snd te)) (delivered_events evs s))
     \<le> length (filter (\<lambda>te. is_press (snd te)) evs)"
  by (induction evs s rule: app_exec.induct) (simp_all add: le_SucI)

lemma runs_use_valid_references:
  assumes "widget_ok w" and "cap < 2 ^ 64" and "abs_widget w = widget s"
  shows "(\<exists>w'. calls_it cap (delivered_events evs s) w = Inr w'
            \<and> abs_widget w' = widget (app_exec evs s) \<and> widget_ok w')
         \<or> calls_it cap (delivered_events evs s) w = Inl Length_Error"
  using calls_it_cases [OF assms(2,1), of "delivered_events evs s"] assms(3)
  by (simp add: widget_app_exec)

lemma abs_conc_widget [simp]:
  "abs_widget (conc_widget w v) = w\<lparr>m_clicks := items v\<rparr>"
  "widget_ok (conc_widget w v) \<longleftrightarrow> vec_ok v \<and> length (items v) < 2 ^ 64"
  by (simp_all add: abs_widget_def conc_widget_def widget_ok_def)

lemma main_uses_valid_references:
  assumes "cap < 2 ^ 64"
  shows "(\<exists>w'. calls_it cap (delivered_events evs (main_start t0))
                 (conc_widget (widget (main_start t0)) vec_new) = Inr w'
            \<and> abs_widget w' = widget (app_exec evs (main_start t0)) \<and> widget_ok w')
         \<or> calls_it cap (delivered_events evs (main_start t0))
                 (conc_widget (widget (main_start t0)) vec_new) = Inl Length_Error"
  by (rule runs_use_valid_references [OF _ assms])
     (simp_all add: vec_new_def vec_ok_def main_start_def QWidget_show_def ClickWidget_new_def)

section \<open>Properties\<close>

text \<open>
  C9: no handler uses an invalid iterator or reference. Whatever
  handlers are called in whatever order, on a widget whose vector satisfies
  its invariant, every iterator passed to \<open>erase\<close> and every reference
  dereferenced in \<open>paintEvent\<close> is valid: the calls either end in a widget
  that is, read through \<open>abs_widget\<close>, the widget of the unchecked model, or
  stop with the \<open>length_error\<close> of \<open>push_back\<close>; and with no more presses
  than the vector has room for they do not stop.
\<close>

theorem no_dangling_reference:
  assumes "widget_ok w" and "cap < 2 ^ 64"
  shows "((\<exists>w'. calls_it cap evs w = Inr w' \<and> abs_widget w' = calls evs (abs_widget w)
             \<and> vec_ok (v_clicks w'))
          \<or> calls_it cap evs w = Inl Length_Error)
    \<and> (length (items (v_clicks w)) + length (filter (\<lambda>te. is_press (snd te)) evs) \<le> cap
        \<longrightarrow> (\<exists>w'. calls_it cap evs w = Inr w' \<and> abs_widget w' = calls evs (abs_widget w)))"
  using calls_it_cases [OF assms(2,1), of evs] calls_it_short [OF assms(2,1), of evs]
  by (auto simp: widget_ok_def)

theorem no_dangling_reference_witness:
  "widget_ok (widget_v_with vec_new :: int ClickWidget_v) \<and> (2 :: nat) < 2 ^ 64
   \<and> (\<exists>w'. calls_it 2 [(0, MousePress \<lparr>xp = 1, yp = 1\<rparr>), (10, MousePress \<lparr>xp = 2, yp = 2\<rparr>),
                (20, Paint), (3005, Timeout)] (widget_v_with vec_new :: int ClickWidget_v) = Inr w'
        \<and> m_clicks (abs_widget w') = [click_at 2 2 10])"
proof -
  let ?w = "widget_v_with vec_new :: int ClickWidget_v"
  let ?evs = "[(0, MousePress \<lparr>xp = 1, yp = 1\<rparr>), (10, MousePress \<lparr>xp = 2, yp = 2\<rparr>),
               (20, Paint), (3005, Timeout)] :: (qint64 \<times> int event) list"
  have ok: "widget_ok ?w" and cap: "(2 :: nat) < 2 ^ 64"
    by (simp_all add: widget_ok_def) (simp add: vec_new_def)
  from no_dangling_reference [OF ok cap, of ?evs] obtain w'
    where "calls_it 2 ?evs ?w = Inr w'" and "abs_widget w' = calls ?evs (abs_widget ?w)"
    by (auto simp: vec_new_def simp del: calls_it.simps calls.simps)
  moreover have "m_clicks (calls ?evs (abs_widget ?w)) = [click_at 2 2 10]"
    by (simp add: vec_new_def handle_def widget_with_def click_at_def m_clicks_pruneOldClicks
        word_sless_alt)
  ultimately have "calls_it 2 ?evs ?w = Inr w' \<and> m_clicks (abs_widget w') = [click_at 2 2 10]"
    by (simp only:)
  with ok cap show ?thesis by blast
qed



end
