(* ===== verification/Spec2Isabelle.thy ===== *)
theory Spec2Isabelle
  imports Bounded_Load Reference_Safety
begin

text \<open>
  \<^bold>\<open>MouseClick: a verification development for \<open>src/main.cpp\<close>.\<close>

  The program is one Qt widget, \<open>ClickWidget\<close>. It records every mouse press
  as a \<open>ClickPoint\<close> (position and wall-clock time in milliseconds), removes
  the clicks older than three seconds, and paints the remaining ones as dots:
  the most recent one in crimson with radius 10 on top, the others in dodger
  blue with radius 8. A timer of 50 ms prunes and requests a repaint, so that
  dots disappear without further input. \<open>main\<close> shows the widget and runs
  the event loop until the window is closed.

  \<^bold>\<open>Theories\<close>, in the order of their imports.
  \<^item> \<open>Click_Prelude\<close>: the integer types (\<open>qint64\<close> as \<open>64 word\<close> read by
    \<open>sint\<close>, \<open>cint\<close> as \<open>32 word\<close>), the condition \<open>sub_in_range\<close> under
    which a 64-bit subtraction does not wrap, the fact collections \<open>qt_defs\<close>
    and \<open>spec_defs\<close>, and the shared lemmas on lists.
  \<^item> \<open>Std_Vector\<close>: \<open>std::vector\<close> as a list with indices as iterators, and
    \<open>std::remove_if\<close> as the in-place compaction loop of the standard library
    (\<open>std_find_if\<close>, \<open>remove_if_loop\<close>, \<open>std_remove_if\<close>), proved to leave the
    stable filter of its input before the returned iterator.
  \<^item> \<open>Qt_Model\<close>: \<open>QPointF\<close>, \<open>QColor\<close>, \<open>QTimer\<close>, \<open>QMouseEvent\<close>, the
    base \<open>QWidget\<close> with its pending-repaint flag (\<open>QWidget_update\<close>,
    \<open>QWidget_show\<close>), and the painter: the calls a handler makes
    (\<open>paint_call\<close>) and their interpretation into a frame (\<open>paint_step\<close>,
    \<open>paint_run\<close>, \<open>topmost\<close>).
  \<^item> \<open>Click_Log\<close>: \<open>struct ClickPoint\<close>, the data members of \<open>ClickWidget\<close>
    as an extension of the base widget record, and \<open>mousePressEvent\<close>; the
    ordering of the log by timestamp (\<open>log_sorted\<close>) and when recording
    keeps it.
  \<^item> \<open>Expiry_Filter\<close>: \<open>pruneOldClicks\<close> with the lambda \<open>click_is_old\<close>;
    the erase-remove idiom is a stable filter, it keeps exactly the clicks of
    age at most 3000 ms, is idempotent, keeps order, removes a prefix of an
    ordered log, is absorbed by a later pruning, and wraps around at the
    lower end of the clock's range.
  \<^item> \<open>Renderer\<close>: \<open>paintEvent\<close> with its loop \<open>paint_blue_loop\<close> and the
    constant \<open>radius\<close>; the frame it paints is \<open>render_spec\<close> of the pruned
    log: positions, colours, radii, painting order.
  \<^item> \<open>Refresh_Driver\<close>: the constructor \<open>ClickWidget_new\<close>, the title
    \<open>window_title\<close> and the lambda connected to the timer,
    \<open>cleanupTimer_timeout\<close>; a tick prunes, requests a repaint and never
    changes what the next frame shows.
  \<^item> \<open>Event_Loop\<close>: \<open>main\<close>. The state \<open>world\<close> holds the clock, the widget,
    the frame on the screen and the exit code; \<open>main_start\<close> is the state
    after \<open>widget.show()\<close>; \<open>dispatch\<close> delivers one event (\<open>MousePress\<close>,
    \<open>Timeout\<close>, \<open>Paint\<close>, \<open>Close\<close>) to its handler, \<open>deliverable\<close> says when
    the event loop does so, \<open>app_exec\<close> runs a list of events with their clock
    readings, and \<open>main\<close> returns the exit code. The relation \<open>step\<close> and
    its \<open>reachable\<close> states describe all runs under a policy for the clock;
    the invariants of the program are proved by rule induction over it.
  \<^item> \<open>Click_Spec\<close>: the abstract click tracker of the specification, over
    unbounded time, with the closed form \<open>expected_log\<close> of the log and the
    surface after a run.
  \<^item> \<open>Click_Refinement\<close>: the abstraction \<open>abs_world\<close> from the states of
    the event loop to the states of the tracker, the proof that every run of
    the program is a run of the tracker, and the closed forms carried over to
    the program.
  \<^item> \<open>Click_Lifetime\<close>: the schedule \<open>timer_ticks\<close> on which the timer
    fires with the interval the constructor sets, and the time a click stays
    in the log when the timer alone drives the program: 60 ticks.
  \<^item> \<open>Repaint\<close>: the event loop with the repaints that \<open>update()\<close>
    requests. \<open>process_updates\<close> serves a pending request with a call of
    \<open>paintEvent\<close>, and \<open>app_exec_auto\<close> is the event loop that does so
    between batches of events and when it falls idle, so that a run lists
    only the events that arrive. Whenever the loop is idle the screen shows
    the log; with a clock that never steps back the log holds the presses of
    the last 3000 ms; the loop is \<open>app_exec\<close> with a paint after every
    batch; a dot is on the screen for 60 ticks of the timer.
  \<^item> \<open>Checked_Vector\<close>: the vector operations with their preconditions
    checked (\<open>vector_at\<close>, \<open>vector_back_chk\<close>, \<open>vector_erase_chk\<close>,
    \<open>push_back_chk\<close>), a violation or a throw being the value \<open>Inl\<close> of a
    \<open>fault\<close>, and the loops of \<open>std::remove_if\<close> over checked iterators.
  \<^item> \<open>Memory_Safety\<close>: the handlers translated a second time over the
    checked operations (\<open>mousePressEvent_chk\<close>, \<open>pruneOldClicks_chk\<close>,
    \<open>paintEvent_chk\<close> with a \<open>size_t\<close> loop index, \<open>cleanupTimer_timeout_chk\<close>)
    and the event loop over them; no handler and no run leaves the vector, and
    the only fault of a run is the \<open>length_error\<close> of \<open>push_back\<close>.
  \<^item> \<open>Bounded_Load\<close>: the checked event loop with its repaints
    (\<open>process_updates_chk\<close>, \<open>app_exec_auto_chk\<close>) and the number of clicks
    the vector has to hold during a batch (\<open>load\<close>); a run of any length
    raises no fault as long as the presses of the last 3000 ms and of the
    current batch fit the capacity.
  \<^item> \<open>Vector_Buffer\<close>: the vector with its buffer (\<open>vec\<close>) and the
    iterators and references into it (\<open>iter\<close>) as values of their own.
    \<open>vec_push_back\<close>, \<open>vec_erase\<close> and \<open>vec_remove_if\<close> invalidate
    them as the C++ standard says, and \<open>vec_deref\<close> and \<open>vec_erase\<close>
    raise the fault \<open>Dangling_Reference\<close> on an invalid one.
  \<^item> \<open>Reference_Safety\<close>: the handlers translated a third time, over that
    vector (\<open>mousePressEvent_it\<close>, \<open>pruneOldClicks_it\<close>,
    \<open>paintEvent_it\<close>, \<open>cleanupTimer_timeout_it\<close>), each iterator and
    reference obtained and used where the source does. Any sequence of
    handler calls uses valid iterators and references only and ends as the
    unchecked model does, and a run of \<open>app_exec\<close> is such a sequence
    (\<open>delivered_events\<close>); a reference held across a press would dangle
    when \<open>push_back\<close> reallocates.
  \<^item> \<open>Spec2Isabelle\<close> (this theory): the scenarios of the specification, run
    through \<open>main_start\<close> and \<open>app_exec\<close> end to end, and the round trip from a
    press to the dot on the screen.

  \<^bold>\<open>State and effects.\<close> The widget is the record \<open>ClickWidget\<close>, extending
  the record of the base widget as the class extends \<open>QWidget\<close>. A member
  function is a function from the widget to the widget. The clock is an input:
  an operation that calls \<open>QDateTime::currentMSecsSinceEpoch()\<close> takes the
  value read as the argument \<open>now\<close>, and the event loop passes its clock.
  Painting is an output: \<open>paintEvent\<close> returns the list of calls it makes on
  its \<open>QPainter\<close>, and the event loop puts their frame on the screen.
  Coordinates are a type variable: the program stores and passes positions
  and never computes with them.

  \<^bold>\<open>Integers.\<close> Timestamps keep their width. \<open>now - 3000\<close> is subtraction on
  \<open>64 word\<close>; the comparison \<open>click.timestamp < threshold\<close> is the signed
  order. Signed overflow is undefined in C++; the model wraps, and every
  statement that reads the threshold as an age carries the hypothesis
  \<open>sub_in_range now 3000\<close> (for a run: \<open>clock_in_range\<close>), which holds for
  every clock reading from \<open>- 2 ^ 63 + 3000\<close> on, in particular for every
  time since the epoch.

  \<^bold>\<open>The clock.\<close> The program reads the wall clock, which can be set back.
  Statements that hold for any clock are proved over \<open>reachable any_clock\<close>
  or over all event lists; statements that need a clock that never steps back
  say so (\<open>reachable (\<le>s)\<close>, \<open>clock_monotone\<close>), and the ordering of the log
  by timestamp is shown to fail without it. A run gives the clock reading of
  each event; a handler reads the clock once, and the repaint that
  \<open>app_exec_auto\<close> performs after a batch of events reads what the handler
  of the last event read, the two being less than a millisecond apart.

  \<^bold>\<open>Repaints.\<close> \<open>update()\<close> sets the flag \<open>updatePending\<close> of the widget and
  a delivered paint event clears it. In \<open>app_exec\<close> paint events are events
  of the run like any other, so that every order of handlers is covered; in
  \<open>app_exec_auto\<close> the loop itself delivers a paint event for a pending
  request, as Qt does: one for all requests made since the last, after any
  number of events (a batch). The statements on what the user sees are made
  of \<open>app_exec_auto\<close> for all ways the events fall into batches, and the
  two loops are proved to agree.

  \<^bold>\<open>Loops.\<close> The three loops (\<open>std_find_if\<close>, \<open>remove_if_loop\<close>,
  \<open>paint_blue_loop\<close>) are total functions, each with the distance to the end
  of the vector as its measure; so are their checked versions, those of the
  paint loop (\<open>paint_blue_loop_chk\<close>, \<open>paint_blue_loop_it\<close>) with the
  distance taken in 64-bit words. The event loops (\<open>app_exec\<close>,
  \<open>app_exec_auto\<close>, their checked versions and \<open>calls_it\<close>) run over a
  finite list of events by structural recursion. No fuel is used anywhere.

  \<^bold>\<open>Undefined behaviour and exceptions.\<close> The unchecked model reads the
  vector with \<open>!\<close> and \<open>last\<close> only under the guards of the source. That
  these guards suffice is the subject of \<open>Memory_Safety\<close>, where every
  access is checked and the capacity of the vector is a parameter \<open>cap\<close>
  below \<open>2 ^ 64\<close>: \<open>max_size()\<close> depends on the platform and is far below
  that bound on every one. The only fault of a run is the \<open>length_error\<close>
  of \<open>push_back\<close> at the capacity, and \<open>Bounded_Load\<close> shows that it takes
  presses that arrive faster than they expire to get there. In
  \<open>Memory_Safety\<close> an iterator is an index, which no operation invalidates.
  \<open>Reference_Safety\<close> drops that simplification: the vector has a buffer
  that \<open>push_back\<close> reallocates when it is full, every iterator and
  reference carries the moment it was obtained, and using one that
  \<open>push_back\<close> or \<open>erase\<close> has invalidated since is a fault. The size of
  the buffer after a reallocation is the choice of the library; the model
  doubles it, and no statement depends on the factor.

  \<^bold>\<open>Not modelled.\<close> Every function, member and statement of
  \<open>src/main.cpp\<close> has its definition above. What is left of the file are
  the include directives, comments, access specifiers and braces, the macro
  \<open>Q_OBJECT\<close> and the meta-object code included from \<open>main.moc\<close>, which the
  build generates and the repository does not hold; of it only the one
  connection of the timer to its lambda matters, and it is modelled by the
  delivery of \<open>Timeout\<close>. Of the libraries the program calls, the model has
  what the handlers depend on. It leaves out the construction of
  \<open>QApplication\<close> from \<open>argc\<close> and \<open>argv\<close>, the native window and its
  geometry, the times at which the platform delivers events and the way
  they fall between two repaints (a run takes both as given), rasterisation
  of an ellipse (the frame lists the ellipses with their attributes, in
  painting order), the addresses of the buffer of the vector (a reallocation
  is modelled by what it invalidates) and exhaustion of memory below its
  capacity (\<open>std::bad_alloc\<close>).
\<close>

section \<open>Scenarios of the specification\<close>

text \<open>
  Scenario A: one click at time 0 at (100, 100). A frame painted at
  time 1000 shows one crimson dot of radius 10 at (100, 100); a frame painted
  at time 3500 shows no dot.
\<close>

theorem scenario_single_click:
  "screen (app_exec [(0, MousePress \<lparr>xp = 100, yp = 100\<rparr>), (1000, Paint)] (main_start 0 :: int world))
     = [\<lparr>center = \<lparr>xp = 100, yp = 100\<rparr>, rx = 10, ry = 10,
         fill = SolidPattern (QColor 220 20 60), outline = NoPen, smooth = True\<rparr>]
   \<and> screen (app_exec [(0, MousePress \<lparr>xp = 100, yp = 100\<rparr>), (1000, Paint), (3500, Paint)]
        (main_start 0 :: int world)) = []"
  by (simp add: run_simps dot_def crimson_def)

text \<open>
  Scenario B: clicks at times 0, 1000 and 2000 at (10, 10), (20, 20)
  and (30, 30). A frame painted at time 2100 shows three dots: the first two
  blue with radius 8, the third crimson with radius 10, painted last.
\<close>

theorem scenario_three_clicks:
  "screen (app_exec [(0, MousePress \<lparr>xp = 10, yp = 10\<rparr>), (1000, MousePress \<lparr>xp = 20, yp = 20\<rparr>),
       (2000, MousePress \<lparr>xp = 30, yp = 30\<rparr>), (2100, Paint)] (main_start 0 :: int world))
     = [\<lparr>center = \<lparr>xp = 10, yp = 10\<rparr>, rx = 8, ry = 8,
         fill = SolidPattern (QColor 30 144 255), outline = NoPen, smooth = True\<rparr>,
        \<lparr>center = \<lparr>xp = 20, yp = 20\<rparr>, rx = 8, ry = 8,
         fill = SolidPattern (QColor 30 144 255), outline = NoPen, smooth = True\<rparr>,
        \<lparr>center = \<lparr>xp = 30, yp = 30\<rparr>, rx = 10, ry = 10,
         fill = SolidPattern (QColor 220 20 60), outline = NoPen, smooth = True\<rparr>]"
  by (simp add: run_simps dot_def crimson_def dodger_blue_def)

text \<open>
  Scenario C: a click at time 0; the timer fires at time 3001 and the
  log becomes empty; a paint event after that draws nothing.
\<close>

theorem scenario_expiry_by_timer:
  "m_clicks (widget (app_exec [(0, MousePress \<lparr>xp = 1, yp = 1\<rparr>), (3001, Timeout)]
       (main_start 0 :: int world))) = []
   \<and> screen (app_exec [(0, MousePress \<lparr>xp = 1, yp = 1\<rparr>), (3001, Timeout), (3001, Paint)]
        (main_start 0 :: int world)) = []"
  by (simp add: run_simps)

section \<open>From a press to the screen\<close>

text \<open>
  C24 (round trip). What is recorded is what is shown. A press recorded at
  \<open>now\<close> and painted at a later reading \<open>now'\<close>, at most 3000 ms after it,
  is found again on the screen: the topmost ellipse at the position of the
  press is the crimson dot of radius 10 at that position, whatever the log
  held before.
\<close>

theorem press_then_paint_shows_click:
  assumes "sub_in_range now' 3000" and "sint now' - sint now \<le> 3000"
  shows "topmost (\<lambda>e. center e = position event) (shown now' (fst (mousePressEvent now event w)))
         = Some \<lparr>center = position event, rx = 10, ry = 10,
                  fill = SolidPattern (QColor 220 20 60), outline = NoPen, smooth = True\<rparr>"
  using assms
  by (simp add: shown_eq m_clicks_pruneOldClicks_fresh fresh_def age_def dot_def crimson_def)

theorem press_then_paint_shows_click_witness:
  "sub_in_range 2500 3000 \<and> sint (2500 :: qint64) - sint (1000 :: qint64) \<le> 3000
   \<and> topmost (\<lambda>e. center e = \<lparr>xp = 7, yp = 9\<rparr>)
        (shown 2500 (fst (mousePressEvent 1000 (press_at 7 9)
           (widget_with [click_at 7 9 0, click_at 1 1 900 :: int ClickPoint]))))
     = Some \<lparr>center = \<lparr>xp = 7, yp = 9\<rparr>, rx = 10, ry = 10,
              fill = SolidPattern (QColor 220 20 60), outline = NoPen, smooth = True\<rparr>"
  using press_then_paint_shows_click
    [of 2500 1000 "press_at 7 9" "widget_with [click_at 7 9 0, click_at 1 1 900 :: int ClickPoint]"]
  by (simp add: sub_in_range_def press_at_def)

end
